theory Spec2Isabelle
  imports Complex_Main "HOL-Library.Word" "HOL-Library.AList"
begin

section \<open>Floating-point values\<close>

text \<open>
  The game computes with C++ \<^verbatim>\<open>float\<close>. A finite value is modelled by the real it
  denotes; the three non-finite cases are kept as constructors, because the validators of
  \<^verbatim>\<open>network_validation.h\<close> test for them and values read from a datagram can be any of
  them. Simulation state that the server or client computes itself is kept as \<open>real\<close>
  and its arithmetic is exact. Rounding is modelled in one place, \<^verbatim>\<open>NormalizeRotation\<close>:
  the server runs it on a value taken from a datagram before any check has rejected it,
  and there the rounding of the single-precision addition decides whether its loops end.
\<close>

datatype cfloat = Fin real | NaN | PosInf | NegInf

fun isnan :: "cfloat \<Rightarrow> bool" where
  "isnan NaN = True"
| "isnan _ = False"

fun isinf :: "cfloat \<Rightarrow> bool" where
  "isinf PosInf = True"
| "isinf NegInf = True"
| "isinf _ = False"

subsection \<open>Single-precision rounding\<close>

text \<open>
  A \<^verbatim>\<open>float\<close> has a 24-bit significand and binary exponents from \<open>-126\<close> to \<open>127\<close>.
  \<open>float_ulp v\<close> is the distance between neighbouring floats at the magnitude of \<open>v\<close>
  (\<open>2\<^sup>-\<^sup>1\<^sup>4\<^sup>9\<close> in the subnormal range) and \<open>float_round v\<close> the float nearest to \<open>v\<close>,
  a tie going to the even significand: the result of an IEEE 754 operation whose exact
  result is \<open>v\<close>, in the default rounding mode. Overflow to an infinity is left out: the
  function is applied only to sums that are no larger in magnitude than an operand.
\<close>

definition round_half_even :: "real \<Rightarrow> int" where
  "round_half_even v =
     (if v - of_int \<lfloor>v\<rfloor> < 1 / 2 then \<lfloor>v\<rfloor>
      else if 1 / 2 < v - of_int \<lfloor>v\<rfloor> then \<lfloor>v\<rfloor> + 1
      else if even \<lfloor>v\<rfloor> then \<lfloor>v\<rfloor> else \<lfloor>v\<rfloor> + 1)"

definition float_exponent :: "real \<Rightarrow> int" where
  "float_exponent v = max (- 126) \<lfloor>log 2 \<bar>v\<bar>\<rfloor>"

definition float_ulp :: "real \<Rightarrow> real" where
  "float_ulp v = 2 powr (of_int (float_exponent v) - 23)"

definition float_round :: "real \<Rightarrow> real" where
  "float_round v = float_ulp v * of_int (round_half_even (v / float_ulp v))"

section \<open>World constants (\<^verbatim>\<open>world_constants.h\<close>)\<close>

definition WORLD_WIDTH :: real where "WORLD_WIDTH = 1280"
definition WORLD_HEIGHT :: real where "WORLD_HEIGHT = 960"
definition BORDER_THICKNESS :: real where "BORDER_THICKNESS = 48"
definition PLAYABLE_MIN_X :: real where "PLAYABLE_MIN_X = BORDER_THICKNESS"
definition PLAYABLE_MAX_X :: real where "PLAYABLE_MAX_X = WORLD_WIDTH - BORDER_THICKNESS"
definition PLAYABLE_MIN_Y :: real where "PLAYABLE_MIN_Y = BORDER_THICKNESS"
definition PLAYABLE_MAX_Y :: real where "PLAYABLE_MAX_Y = WORLD_HEIGHT - BORDER_THICKNESS"
definition TANK_RADIUS :: real where "TANK_RADIUS = 25"
definition MOVEMENT_MIN_X :: real where "MOVEMENT_MIN_X = PLAYABLE_MIN_X + TANK_RADIUS"
definition MOVEMENT_MAX_X :: real where "MOVEMENT_MAX_X = PLAYABLE_MAX_X - TANK_RADIUS"
definition MOVEMENT_MIN_Y :: real where "MOVEMENT_MIN_Y = PLAYABLE_MIN_Y + TANK_RADIUS"
definition MOVEMENT_MAX_Y :: real where "MOVEMENT_MAX_Y = PLAYABLE_MAX_Y - TANK_RADIUS"
definition CENTER_X :: real where "CENTER_X = WORLD_WIDTH / 2"
definition CENTER_Y :: real where "CENTER_Y = WORLD_HEIGHT / 2"

lemmas world_constants =
  WORLD_WIDTH_def WORLD_HEIGHT_def BORDER_THICKNESS_def PLAYABLE_MIN_X_def PLAYABLE_MAX_X_def
  PLAYABLE_MIN_Y_def PLAYABLE_MAX_Y_def TANK_RADIUS_def MOVEMENT_MIN_X_def MOVEMENT_MAX_X_def
  MOVEMENT_MIN_Y_def MOVEMENT_MAX_Y_def CENTER_X_def CENTER_Y_def

section \<open>Validators (\<^verbatim>\<open>network_validation.h\<close>)\<close>

definition MIN_ROTATION :: real where "MIN_ROTATION = - 360"
definition MAX_ROTATION :: real where "MAX_ROTATION = 720"
definition MAX_PLAYER_NAME_LENGTH :: nat where "MAX_PLAYER_NAME_LENGTH = 50"
definition MAX_COLOR_NAME_LENGTH :: nat where "MAX_COLOR_NAME_LENGTH = 20"
definition MAX_TIMESTAMP_DELTA :: int where "MAX_TIMESTAMP_DELTA = 60000"
definition MIN_X :: real where "MIN_X = MOVEMENT_MIN_X"
definition MAX_X :: real where "MAX_X = MOVEMENT_MAX_X"
definition MIN_Y :: real where "MIN_Y = MOVEMENT_MIN_Y"
definition MAX_Y :: real where "MAX_Y = MOVEMENT_MAX_Y"

text \<open>A comparison with NaN is false; the infinities are excluded by the explicit tests.\<close>

fun IsValidPosition :: "cfloat \<Rightarrow> cfloat \<Rightarrow> bool" where
  "IsValidPosition (Fin x) (Fin y) = (x \<ge> MIN_X \<and> x \<le> MAX_X \<and> y \<ge> MIN_Y \<and> y \<le> MAX_Y)"
| "IsValidPosition _ _ = False"

fun IsValidRotation :: "cfloat \<Rightarrow> bool" where
  "IsValidRotation (Fin rotation) = (rotation \<ge> MIN_ROTATION \<and> rotation \<le> MAX_ROTATION)"
| "IsValidRotation _ = False"

definition IsValidPlayerName :: "string \<Rightarrow> bool" where
  "IsValidPlayerName name = (name \<noteq> [] \<and> length name \<le> MAX_PLAYER_NAME_LENGTH)"

definition IsValidColor :: "string \<Rightarrow> bool" where
  "IsValidColor color = (color \<noteq> [] \<and> length color \<le> MAX_COLOR_NAME_LENGTH)"

text \<open>
  Timestamps are signed 64-bit milliseconds. Both arguments are positive where the
  difference is taken, so it cannot overflow and unbounded integers are exact.
\<close>

definition IsValidTimestamp :: "int \<Rightarrow> int \<Rightarrow> bool" where
  "IsValidTimestamp timestamp currentTime =
     (if timestamp \<le> 0 \<or> currentTime \<le> 0 then False
      else \<bar>currentTime - timestamp\<bar> \<le> MAX_TIMESTAMP_DELTA)"

definition IsValidPlayerId :: "32 word \<Rightarrow> bool" where
  "IsValidPlayerId playerId = (playerId > 0 \<and> playerId < 1000000)"

text \<open>\<^verbatim>\<open>ClampPosition(value, min, max)\<close>: the lower bound for NaN and the infinities.\<close>

fun ClampPosition :: "cfloat \<Rightarrow> real \<Rightarrow> real \<Rightarrow> real" where
  "ClampPosition (Fin v) lo hi = max lo (min hi v)"
| "ClampPosition _ lo hi = lo"

definition ClampPositionX :: "cfloat \<Rightarrow> real" where
  "ClampPositionX x = ClampPosition x MIN_X MAX_X"

definition ClampPositionY :: "cfloat \<Rightarrow> real" where
  "ClampPositionY y = ClampPosition y MIN_Y MAX_Y"

subsection \<open>Rotation normalisation\<close>

text \<open>
  \<^verbatim>\<open>while (rotation < 0.0f) rotation += 360.0f;\<close> and
  \<^verbatim>\<open>while (rotation >= 360.0f) rotation -= 360.0f;\<close> occur three times in the program.
  \<^verbatim>\<open>SimulatePlayerMovement\<close> and \<^verbatim>\<open>ApplyInputToTank\<close> run them on a rotation they have
  just computed from a normalised one; these are the two functions below, on exact reals,
  where both loops terminate.
\<close>

function raise_rotation :: "real \<Rightarrow> real" where
  "raise_rotation r = (if r < 0 then raise_rotation (r + 360) else r)"
  by pat_completeness auto
termination
proof (relation "measure (\<lambda>r. nat \<lceil>- (r / 360)\<rceil>)")
  show "wf (measure (\<lambda>r::real. nat \<lceil>- (r / 360)\<rceil>))" by simp
next
  fix r :: real
  assume neg: "r < 0"
  have "\<lceil>- ((r + 360) / 360)\<rceil> = \<lceil>- (r / 360) - 1\<rceil>"
    by (rule arg_cong [where f = ceiling]) (simp add: field_simps)
  also have "\<dots> = \<lceil>- (r / 360)\<rceil> - 1" by (rule ceiling_diff_one)
  finally have step: "\<lceil>- ((r + 360) / 360)\<rceil> = \<lceil>- (r / 360)\<rceil> - 1" .
  from neg have "0 < \<lceil>- (r / 360)\<rceil>" by (simp add: ceiling_less_iff)
  with step have "nat \<lceil>- ((r + 360) / 360)\<rceil> < nat \<lceil>- (r / 360)\<rceil>" by linarith
  then show "(r + 360, r) \<in> measure (\<lambda>r. nat \<lceil>- (r / 360)\<rceil>)"
    by (simp only: in_measure)
qed

lemma floor_shift_down: "\<lfloor>(r - 360) / 360\<rfloor> = \<lfloor>r / (360::real)\<rfloor> - 1"
proof -
  have "\<lfloor>(r - 360) / 360\<rfloor> = \<lfloor>r / 360 - 1\<rfloor>"
    by (rule arg_cong [where f = floor]) (simp add: field_simps)
  also have "\<dots> = \<lfloor>r / 360\<rfloor> - 1" by (rule floor_diff_one)
  finally show ?thesis .
qed

lemma floor_shift_up: "\<lfloor>(r + 360) / 360\<rfloor> = \<lfloor>r / (360::real)\<rfloor> + 1"
  using floor_shift_down [of "r + 360"] by simp

function lower_rotation :: "real \<Rightarrow> real" where
  "lower_rotation r = (if 360 \<le> r then lower_rotation (r - 360) else r)"
  by pat_completeness auto
termination
proof (relation "measure (\<lambda>r. nat \<lfloor>r / 360\<rfloor>)")
  show "wf (measure (\<lambda>r::real. nat \<lfloor>r / 360\<rfloor>))" by simp
next
  fix r :: real
  assume big: "360 \<le> r"
  then have "1 \<le> \<lfloor>r / 360\<rfloor>" by (simp add: le_floor_iff)
  with floor_shift_down [of r]
  have "nat \<lfloor>(r - 360) / 360\<rfloor> < nat \<lfloor>r / 360\<rfloor>" by linarith
  then show "(r - 360, r) \<in> measure (\<lambda>r. nat \<lfloor>r / 360\<rfloor>)"
    by (simp only: in_measure)
qed

text \<open>
  \<^verbatim>\<open>NormalizeRotation\<close> is the third occurrence. Its argument can be any \<^verbatim>\<open>float\<close>, and
  each pass of a loop rounds the sum to a \<^verbatim>\<open>float\<close>, so a pass need not change the value
  and a loop need not end: the two loops are partial functions, \<open>None\<close> standing for a
  loop that runs forever.
\<close>

partial_function (option) raise_rotation_float :: "real \<Rightarrow> real option" where
  "raise_rotation_float rotation =
     (if rotation < 0 then raise_rotation_float (float_round (rotation + 360))
      else Some rotation)"

partial_function (option) lower_rotation_float :: "real \<Rightarrow> real option" where
  "lower_rotation_float rotation =
     (if 360 \<le> rotation then lower_rotation_float (float_round (rotation - 360))
      else Some rotation)"

text \<open>
  \<^verbatim>\<open>NormalizeRotation\<close> returns \<^verbatim>\<open>0.0f\<close> on NaN and on the infinities and runs the
  two loops otherwise; a result is always finite, hence typed \<open>real\<close>.
\<close>

fun NormalizeRotation :: "cfloat \<Rightarrow> real option" where
  "NormalizeRotation (Fin rotation) =
     (case raise_rotation_float rotation of
        None \<Rightarrow> None
      | Some raised \<Rightarrow> lower_rotation_float raised)"
| "NormalizeRotation _ = Some 0"

declare raise_rotation.simps [simp del] lower_rotation.simps [simp del]

lemma raise_rotation_closed:
  "raise_rotation r = (if r < 0 then r - 360 * of_int \<lfloor>r / 360\<rfloor> else r)"
proof (induction r rule: raise_rotation.induct)
  case (1 r)
  show ?case
  proof (cases "r < 0")
    case False
    then show ?thesis by (simp add: raise_rotation.simps)
  next
    case True
    note fl = floor_shift_up [of r]
    show ?thesis
    proof (cases "r + 360 < 0")
      case True
      with 1 \<open>r < 0\<close> fl show ?thesis
        by (subst raise_rotation.simps) (simp add: algebra_simps)
    next
      case False
      with \<open>r < 0\<close> have "\<lfloor>r / 360\<rfloor> = -1"
        by (intro floor_unique) (simp_all add: field_simps)
      with 1 \<open>r < 0\<close> False show ?thesis
        by (subst raise_rotation.simps) simp
    qed
  qed
qed

lemma lower_rotation_closed:
  "0 \<le> r \<Longrightarrow> lower_rotation r = r - 360 * of_int \<lfloor>r / 360\<rfloor>"
proof (induction r rule: lower_rotation.induct)
  case (1 r)
  show ?case
  proof (cases "360 \<le> r")
    case False
    with 1 have "\<lfloor>r / 360\<rfloor> = 0"
      by (intro floor_unique) (simp_all add: field_simps)
    with False show ?thesis by (subst lower_rotation.simps) simp
  next
    case True
    note fl = floor_shift_down [of r]
    from True 1 fl show ?thesis
      by (subst lower_rotation.simps) (simp add: algebra_simps)
  qed
qed

lemma wrap_range: "0 \<le> r - 360 * of_int \<lfloor>r / 360\<rfloor> \<and> r - 360 * of_int \<lfloor>r / 360\<rfloor> < (360::real)"
proof -
  have "of_int \<lfloor>r / 360\<rfloor> \<le> r / 360" "r / 360 < of_int \<lfloor>r / 360\<rfloor> + 1"
    by linarith+
  then show ?thesis by (simp add: field_simps)
qed

lemma normalise_loops: "lower_rotation (raise_rotation r) = r - 360 * of_int \<lfloor>r / 360\<rfloor>"
proof (cases "r < 0")
  case True
  let ?w = "r - 360 * of_int \<lfloor>r / 360\<rfloor>"
  from wrap_range [of r] have w: "0 \<le> ?w" "?w < 360" by simp_all
  then have "\<lfloor>?w / 360\<rfloor> = 0" by (intro floor_unique) (simp_all add: field_simps)
  with True w show ?thesis
    by (simp add: raise_rotation_closed lower_rotation_closed)
next
  case False
  then show ?thesis by (simp add: raise_rotation_closed lower_rotation_closed)
qed

lemma float_exponent_eq:
  assumes "2 ^ n \<le> \<bar>v\<bar>" and "\<bar>v\<bar> < 2 ^ Suc n"
  shows "float_exponent v = int n"
proof -
  have "(0::real) < 2 ^ n" by simp
  with assms(1) have pos: "0 < \<bar>v\<bar>" by linarith
  have "\<lfloor>log 2 \<bar>v\<bar>\<rfloor> = int n"
    using assms pos
    by (subst floor_log_eq_powr_iff) (simp_all add: powr_realpow powr_add)
  then show ?thesis by (simp add: float_exponent_def)
qed

lemma round_half_even_of_int [simp]: "round_half_even (of_int k) = k"
  by (simp add: round_half_even_def)

lemma round_half_even_nonneg: "0 \<le> v \<Longrightarrow> 0 \<le> round_half_even v"
  by (simp add: round_half_even_def)

lemma round_half_even_le:
  assumes "v \<le> of_int n"
  shows "round_half_even v \<le> n"
proof (cases "v = of_int n")
  case True
  then show ?thesis by simp
next
  case False
  with assms have "v < of_int n" by simp
  then have "\<lfloor>v\<rfloor> < n" by (simp add: floor_less_iff)
  then show ?thesis by (simp add: round_half_even_def)
qed

lemma float_ulp_pos: "0 < float_ulp v"
  by (simp add: float_ulp_def)

lemma float_round_zero [simp]: "float_round 0 = 0"
  by (simp add: float_round_def round_half_even_def)

lemma float_round_nonneg:
  assumes "0 \<le> v"
  shows "0 \<le> float_round v"
proof -
  from assms float_ulp_pos [of v] have "0 \<le> v / float_ulp v" by simp
  then have "0 \<le> round_half_even (v / float_ulp v)" by (rule round_half_even_nonneg)
  with float_ulp_pos [of v] show ?thesis by (simp add: float_round_def)
qed

lemma float_round_le_360:
  assumes "0 \<le> v" and "v \<le> 360"
  shows "float_round v \<le> 360"
proof (cases "v = 0")
  case True
  then show ?thesis by simp
next
  case False
  with assms have pos: "0 < v" by simp
  define e where "e = float_exponent v"
  have "log 2 v < 9"
    using pos assms(2) by (subst log_less_iff) simp_all
  then have "\<lfloor>log 2 v\<rfloor> \<le> 8" by (simp add: floor_le_iff)
  with pos have e: "e \<le> 8" by (simp add: e_def float_exponent_def)
  define k where "k = nat (23 - e)"
  from e have k: "real_of_int e - 23 = - real k" by (simp add: k_def)
  have ulp: "float_ulp v = 1 / 2 ^ k"
    by (simp add: float_ulp_def e_def [symmetric] k(1) powr_minus powr_realpow divide_simps)
  have "(360::real) * 2 ^ k = of_int (360 * 2 ^ k)" by simp
  with assms(2) have "v / float_ulp v \<le> of_int (360 * 2 ^ k)"
    by (simp add: ulp)
  then have "round_half_even (v / float_ulp v) \<le> 360 * 2 ^ k" by (rule round_half_even_le)
  then have "real_of_int (round_half_even (v / float_ulp v)) \<le> 360 * 2 ^ k"
    by (metis of_int_le_iff of_int_mult of_int_numeral of_int_power)
  then show ?thesis by (simp add: float_round_def ulp divide_simps)
qed

lemma float_round_stuck: "float_round (10000000000 - 360) = 10000000000"
proof -
  have e: "float_exponent 9999999640 = int 33"
    by (rule float_exponent_eq) simp_all
  have u: "float_ulp 9999999640 = 1024"
    by (simp add: float_ulp_def e)
  have "\<lfloor>9999999640 / (1024::real)\<rfloor> = 9765624"
    by (rule floor_unique) simp_all
  then have "round_half_even (9999999640 / 1024) = 9765625"
    unfolding round_half_even_def by simp
  then have "float_round 9999999640 = 10000000000"
    unfolding float_round_def u by simp
  then show ?thesis by simp
qed

lemma float_round_representable: "float_round 10000000000 = 10000000000"
proof -
  have e: "float_exponent 10000000000 = int 33"
    by (rule float_exponent_eq) simp_all
  have u: "float_ulp 10000000000 = 1024"
    by (simp add: float_ulp_def e)
  have "(10000000000::real) / 1024 = of_int 9765625" by simp
  then have "round_half_even (10000000000 / 1024) = 9765625"
    by (simp only: round_half_even_of_int)
  then show ?thesis
    unfolding float_round_def u by simp
qed

lemma lower_rotation_float_stuck:
  assumes returns: "lower_rotation_float r = Some v"
  shows "r \<noteq> 10000000000"
proof (rule lower_rotation_float.raw_induct [where P = "\<lambda>r v. r \<noteq> 10000000000", OF _ returns])
  fix lower :: "real \<Rightarrow> real option" and r v :: real
  assume IH: "\<And>x y. lower x = Some y \<Longrightarrow> x \<noteq> 10000000000"
    and step: "(if 360 \<le> r then lower (float_round (r - 360)) else Some r) = Some v"
  show "r \<noteq> 10000000000"
  proof
    assume r: "r = 10000000000"
    with step have "lower (float_round (10000000000 - 360)) = Some v" by simp
    then have "lower 10000000000 = Some v" by (simp only: float_round_stuck)
    then have "(10000000000::real) \<noteq> 10000000000" by (rule IH)
    then show False by simp
  qed
qed

lemma NormalizeRotation_stuck: "NormalizeRotation (Fin 10000000000) = None"
proof -
  have "raise_rotation_float 10000000000 = Some 10000000000"
    by (subst raise_rotation_float.simps) simp
  moreover have "lower_rotation_float 10000000000 = None"
    using lower_rotation_float_stuck [of 10000000000] by (cases "lower_rotation_float 10000000000") auto
  ultimately show ?thesis by simp
qed

lemma raise_rotation_float_nonneg:
  assumes returns: "raise_rotation_float r = Some v"
  shows "0 \<le> v"
proof (rule raise_rotation_float.raw_induct [where P = "\<lambda>r v. 0 \<le> v", OF _ returns])
  fix raise :: "real \<Rightarrow> real option" and r v :: real
  assume IH: "\<And>x y. raise x = Some y \<Longrightarrow> 0 \<le> y"
    and step: "(if r < 0 then raise (float_round (r + 360)) else Some r) = Some v"
  then show "0 \<le> v" by (cases "r < 0") auto
qed

lemma lower_rotation_float_range:
  assumes returns: "lower_rotation_float r = Some v" and "0 \<le> r"
  shows "0 \<le> v \<and> v < 360"
proof -
  have "0 \<le> r \<longrightarrow> 0 \<le> v \<and> v < 360"
  proof (rule lower_rotation_float.raw_induct
      [where P = "\<lambda>r v. 0 \<le> r \<longrightarrow> 0 \<le> v \<and> v < 360", OF _ returns])
    fix lower :: "real \<Rightarrow> real option" and r v :: real
    assume IH: "\<And>x y. lower x = Some y \<Longrightarrow> 0 \<le> x \<longrightarrow> 0 \<le> y \<and> y < 360"
      and step: "(if 360 \<le> r then lower (float_round (r - 360)) else Some r) = Some v"
    show "0 \<le> r \<longrightarrow> 0 \<le> v \<and> v < 360"
    proof (cases "360 \<le> r")
      case True
      with step have "lower (float_round (r - 360)) = Some v" by simp
      then have "0 \<le> float_round (r - 360) \<longrightarrow> 0 \<le> v \<and> v < 360" by (rule IH)
      moreover from True have "0 \<le> float_round (r - 360)" by (intro float_round_nonneg) simp
      ultimately show ?thesis by simp
    next
      case False
      with step show ?thesis by auto
    qed
  qed
  with assms(2) show ?thesis by simp
qed

lemma NormalizeRotation_range:
  assumes "NormalizeRotation r = Some v"
  shows "0 \<le> v \<and> v < 360"
proof (cases r)
  case (Fin a)
  with assms obtain raised where "raise_rotation_float a = Some raised"
    "lower_rotation_float raised = Some v"
    by (auto split: option.splits)
  with raise_rotation_float_nonneg [of a raised] lower_rotation_float_range [of raised v]
  show ?thesis by simp
qed (use assms in simp_all)

lemma NormalizeRotation_idem:
  assumes "NormalizeRotation r = Some v"
  shows "NormalizeRotation (Fin v) = Some v"
proof -
  from NormalizeRotation_range [OF assms] have "0 \<le> v" "v < 360" by simp_all
  then have "raise_rotation_float v = Some v" "lower_rotation_float v = Some v"
    by (subst raise_rotation_float.simps, simp, subst lower_rotation_float.simps, simp)
  then show ?thesis by simp
qed

lemma lower_rotation_float_returns:
  assumes "0 \<le> v" and "v \<le> 360"
  shows "lower_rotation_float v = Some (if v = 360 then 0 else v)"
proof (cases "v = 360")
  case True
  have "lower_rotation_float 0 = Some 0"
    by (subst lower_rotation_float.simps) simp
  with True show ?thesis
    by (subst lower_rotation_float.simps) simp
next
  case False
  with assms show ?thesis
    by (subst lower_rotation_float.simps) simp
qed

lemma NormalizeRotation_returns:
  assumes "- 360 \<le> r" and "r \<le> 720"
  shows "\<exists>v. NormalizeRotation (Fin r) = Some v"
proof -
  consider "r < 0" | "0 \<le> r" "r < 360" | "360 \<le> r" by linarith
  then show ?thesis
  proof cases
    case 1
    let ?v = "float_round (r + 360)"
    from 1 assms have v: "0 \<le> ?v" "?v \<le> 360"
      by (simp_all add: float_round_nonneg float_round_le_360)
    then have "raise_rotation_float ?v = Some ?v"
      by (subst raise_rotation_float.simps) simp
    with 1 have "raise_rotation_float r = Some ?v"
      by (subst raise_rotation_float.simps) simp
    with lower_rotation_float_returns [OF v] show ?thesis by simp
  next
    case 2
    then have "raise_rotation_float r = Some r" "lower_rotation_float r = Some r"
      by (subst raise_rotation_float.simps, simp, subst lower_rotation_float.simps, simp)
    then show ?thesis by simp
  next
    case 3
    let ?v = "float_round (r - 360)"
    from 3 assms have v: "0 \<le> ?v" "?v \<le> 360"
      by (simp_all add: float_round_nonneg float_round_le_360)
    from 3 have "raise_rotation_float r = Some r"
      by (subst raise_rotation_float.simps) simp
    moreover from 3 have "lower_rotation_float r = lower_rotation_float ?v"
      by (subst lower_rotation_float.simps) simp
    ultimately show ?thesis using lower_rotation_float_returns [OF v] by simp
  qed
qed

lemma NormalizeRotation_normalised:
  assumes "0 \<le> r" and "r < 360"
  shows "NormalizeRotation (Fin r) = Some r"
proof -
  from assms have "raise_rotation_float r = Some r" "lower_rotation_float r = Some r"
    by (subst raise_rotation_float.simps, simp, subst lower_rotation_float.simps, simp)
  then show ?thesis by simp
qed

declare NormalizeRotation.simps(1) [simp del]

text \<open>
  Claim C7 says that \<^verbatim>\<open>NormalizeRotation(r)\<close> lies in \<open>[0, 360)\<close> and equals
  \<open>((r mod 360) + 360) mod 360\<close> for every rotation value \<open>r\<close>. The function guards
  against NaN and the infinities, but not against large finite values: \<open>10\<^sup>1\<^sup>0\<close> is a
  \<^verbatim>\<open>float\<close>, neighbouring floats are 1024 apart there, so \<open>10\<^sup>1\<^sup>0 - 360\<close> rounds back to
  \<open>10\<^sup>1\<^sup>0\<close>, the second loop never leaves it and the function does not return. (Whenever
  it returns, the result is in \<open>[0, 360)\<close> and is left unchanged by a second call, and it
  returns on every rotation from \<open>-360\<close> to \<open>720\<close>: \<open>NormalizeRotation_range\<close>,
  \<open>NormalizeRotation_idem\<close>, \<open>NormalizeRotation_returns\<close>.)
\<close>

theorem NormalizeRotation_never_returns:
  "float_round 10000000000 = 10000000000
   \<and> float_round (10000000000 - 360) = 10000000000
   \<and> NormalizeRotation (Fin 10000000000) = None"
  by (simp only: float_round_representable float_round_stuck NormalizeRotation_stuck simp_thms)

section \<open>Server data model (\<^verbatim>\<open>network_messages.h\<close>, \<^verbatim>\<open>game_server.h\<close>)\<close>

type_synonym IpAddress = "32 word"
type_synonym Port = "16 word"

record PlayerData =
  playerId :: "32 word"
  playerName :: string
  x :: real
  y :: real
  bodyRotation :: real
  barrelRotation :: real
  color :: string
  isMoving_forward :: bool
  isMoving_backward :: bool
  isMoving_left :: bool
  isMoving_right :: bool
  health :: real
  maxHealth :: real
  score :: "32 word"
  isDead :: bool

definition PlayerData_default :: PlayerData where
  "PlayerData_default =
     \<lparr>playerId = 0, playerName = [], x = 0, y = 0, bodyRotation = 0, barrelRotation = 0,
      color = ''green'', isMoving_forward = False, isMoving_backward = False,
      isMoving_left = False, isMoving_right = False, health = 100, maxHealth = 100,
      score = 0, isDead = False\<rparr>"

record ClientInfo =
  address :: IpAddress
  port :: Port
  playerData :: PlayerData
  lastUpdateTime :: real
  isActive :: bool
  lastReceivedSequenceNumber :: "32 word"
  receivedSequenceNumbers :: "32 word set"
  lastAcknowledgedInputSeq :: "32 word"
  client_score :: "32 word"
  client_isDead :: bool
  deathTimer :: real

definition ClientInfo_new :: "IpAddress \<Rightarrow> Port \<Rightarrow> ClientInfo" where
  "ClientInfo_new addr p =
     \<lparr>address = addr, port = p, playerData = PlayerData_default, lastUpdateTime = 0,
      isActive = True, lastReceivedSequenceNumber = 0, receivedSequenceNumbers = {},
      lastAcknowledgedInputSeq = 0, client_score = 0, client_isDead = False, deathTimer = 0\<rparr>"


subsection \<open>Enemies (\<^verbatim>\<open>EnemyTank.h\<close>)\<close>

datatype EnemyType = RED | BLACK | PURPLE | ORANGE | TEAL

datatype AIState = IDLE | PATROL | CHASE | ATTACK | RETREAT

text \<open>
  The fields of \<^verbatim>\<open>EnemyTank\<close> that the server reads or that the shooting system
  writes. \<^verbatim>\<open>shotsInBurst\<close> and \<^verbatim>\<open>maxBurstSize\<close> are C++ \<^verbatim>\<open>int\<close>; the counter
  is reset before it can pass \<^verbatim>\<open>maxBurstSize\<close>, so it never overflows.
\<close>

record EnemyTank =
  enemyType :: EnemyType
  position :: "real \<times> real"
  enemy_bodyRotation :: real
  enemy_barrelRotation :: real
  currentHealth :: real
  enemy_maxHealth :: real
  currentAIState :: AIState
  shootCooldown :: real
  shootCooldownTime :: real
  barrelLength :: real
  baseAccuracy :: real
  accuracySpreadAngle :: real
  lastShotTime :: real
  shotsInBurst :: int
  maxBurstSize :: int

definition IsDead :: "EnemyTank \<Rightarrow> bool" where
  "IsDead e = (currentHealth e \<le> 0)"

record EnemyData =
  ed_enemyId :: "32 word"
  ed_enemyType :: "8 word"
  ed_x :: real
  ed_y :: real
  ed_bodyRotation :: real
  ed_barrelRotation :: real
  ed_health :: real
  ed_maxHealth :: real

fun EnemyType_code :: "EnemyType \<Rightarrow> 8 word" where
  "EnemyType_code RED = 0"
| "EnemyType_code BLACK = 1"
| "EnemyType_code PURPLE = 2"
| "EnemyType_code ORANGE = 3"
| "EnemyType_code TEAL = 4"

subsection \<open>Messages\<close>

record JoinMessage =
  join_playerName :: string
  join_preferredColor :: string
  join_timestamp :: int
  join_sequenceNumber :: "32 word"

record PlayerUpdateMessage =
  up_playerId :: "32 word"
  up_x :: cfloat
  up_y :: cfloat
  up_bodyRotation :: cfloat
  up_barrelRotation :: cfloat
  up_isMoving_forward :: bool
  up_isMoving_backward :: bool
  up_isMoving_left :: bool
  up_isMoving_right :: bool
  up_timestamp :: int
  up_sequenceNumber :: "32 word"

record PlayerInputMessage =
  in_playerId :: "32 word"
  in_isMoving_forward :: bool
  in_isMoving_backward :: bool
  in_isMoving_left :: bool
  in_isMoving_right :: bool
  in_barrelRotation :: cfloat
  in_timestamp :: int
  in_sequenceNumber :: "32 word"

record GameStateMessage =
  players :: "PlayerData list"
  gs_enemies :: "EnemyData list"
  gs_timestamp :: int
  gs_sequenceNumber :: "32 word"
  lastAckedInput :: "32 word"

text \<open>The datagrams the server writes, in the order of their fields on the wire.\<close>

datatype packet =
  PLAYER_ID_ASSIGNMENT "32 word"
| GAME_STATE GameStateMessage
| INPUT_ACKNOWLEDGMENT "32 word" "32 word" int
| PLAYER_DEATH "32 word" "32 word" real real "32 word" int "32 word"
| PLAYER_RESPAWN "32 word" real real real int "32 word"

text \<open>
  Diagnostic lines (\<^verbatim>\<open>Utils::printMsg\<close>) of the two message handlers; they are recorded
  because for several checks a log line is the only effect.
\<close>

datatype log_event =
  InvalidPlayerIdInInput | InvalidTimestamp | InvalidBarrelRotation | OutOfOrderInput
| OutOfOrderPacket
| InputFromIncorrectAddress | InvalidPlayerName | InvalidColorName | PlayerJoinRequest
| PlayerAlreadyConnected | PlayerJoined

text \<open>
  The server. \<^verbatim>\<open>std::unordered_map\<close> is an association list with distinct keys
  (\<open>AList.update\<close> replaces in place or appends); the list order stands for the map's
  iteration order. \<open>outbox\<close> records every \<^verbatim>\<open>socket.send\<close> with its destination, in
  order; the send status only selects a log line and is not modelled.
\<close>

record GameServer =
  clients :: "(32 word \<times> ClientInfo) list"
  nextPlayerId :: "32 word"
  enemies :: "(32 word \<times> EnemyTank) list"
  nextEnemyId :: "32 word"
  outgoingSequenceNumber :: "32 word"
  availableColors :: "string list"
  enemySpawnTimer :: real
  enemySpawnInterval :: real
  outbox :: "(packet \<times> IpAddress \<times> Port) list"
  logs :: "log_event list"

definition GameServer_new :: GameServer where
  "GameServer_new =
     \<lparr>clients = [], nextPlayerId = 1, enemies = [], nextEnemyId = 1000,
      outgoingSequenceNumber = 0, availableColors = [''red'', ''blue'', ''green'', ''black''],
      enemySpawnTimer = 0, enemySpawnInterval = 5, outbox = [], logs = []\<rparr>"

definition send :: "packet \<Rightarrow> IpAddress \<Rightarrow> Port \<Rightarrow> GameServer \<Rightarrow> GameServer" where
  "send pkt ip p s = s\<lparr>outbox := outbox s @ [(pkt, ip, p)]\<rparr>"

definition printMsg :: "log_event \<Rightarrow> GameServer \<Rightarrow> GameServer" where
  "printMsg ev s = s\<lparr>logs := logs s @ [ev]\<rparr>"

section \<open>Sequence tracking and message handling (\<^verbatim>\<open>game_server.cpp\<close>)\<close>

definition OUT_OF_ORDER_THRESHOLD :: "32 word" where
  "OUT_OF_ORDER_THRESHOLD = 50"

text \<open>Sequence numbers are \<^verbatim>\<open>uint32_t\<close>: the addition wraps.\<close>

definition ValidateSequenceNumber :: "ClientInfo \<Rightarrow> 32 word \<Rightarrow> bool" where
  "ValidateSequenceNumber client sequenceNumber =
     (if sequenceNumber \<in> receivedSequenceNumbers client then False
      else if sequenceNumber + OUT_OF_ORDER_THRESHOLD < lastReceivedSequenceNumber client then False
      else True)"

definition MAX_SEQUENCE_HISTORY :: nat where
  "MAX_SEQUENCE_HISTORY = 200"

definition RecordReceivedSequence :: "ClientInfo \<Rightarrow> 32 word \<Rightarrow> ClientInfo" where
  "RecordReceivedSequence client sequenceNumber =
     (let c1 = client\<lparr>receivedSequenceNumbers := insert sequenceNumber (receivedSequenceNumbers client)\<rparr>;
          c2 = (if sequenceNumber > lastReceivedSequenceNumber c1
                then c1\<lparr>lastReceivedSequenceNumber := sequenceNumber\<rparr> else c1)
      in if card (receivedSequenceNumbers c2) > MAX_SEQUENCE_HISTORY
         then let minSequence =
                    (if lastReceivedSequenceNumber c2 > of_nat MAX_SEQUENCE_HISTORY
                     then lastReceivedSequenceNumber c2 - of_nat MAX_SEQUENCE_HISTORY else 0)
              in c2\<lparr>receivedSequenceNumbers :=
                      Set.filter (\<lambda>k. \<not> k < minSequence) (receivedSequenceNumbers c2)\<rparr>
         else c2)"

definition SendInputAcknowledgment ::
    "32 word \<Rightarrow> 32 word \<Rightarrow> IpAddress \<Rightarrow> Port \<Rightarrow> int \<Rightarrow> GameServer \<Rightarrow> GameServer" where
  "SendInputAcknowledgment pid acknowledgedSeq clientIP clientPort now s =
     send (INPUT_ACKNOWLEDGMENT pid acknowledgedSeq now) clientIP clientPort s"

text \<open>
  \<^verbatim>\<open>HandlePlayerUpdate\<close>. An invalid player id, position or rotation returns before
  anything is stored; the timestamp test has no effect (its log line is commented out) and
  a failed sequence validation prints a line and falls through. The result is \<open>None\<close>
  when a call of \<^verbatim>\<open>NormalizeRotation\<close> does not return.
\<close>

definition HandlePlayerUpdate ::
    "PlayerUpdateMessage \<Rightarrow> IpAddress \<Rightarrow> Port \<Rightarrow> GameServer \<Rightarrow> GameServer option" where
  "HandlePlayerUpdate msg clientIP clientPort s =
     (if \<not> IsValidPlayerId (up_playerId msg) then Some s
      else if \<not> IsValidPosition (up_x msg) (up_y msg) then Some s
      else if \<not> IsValidRotation (up_bodyRotation msg) \<or> \<not> IsValidRotation (up_barrelRotation msg)
      then Some s
      else
        case map_of (clients s) (up_playerId msg) of
          None \<Rightarrow> Some s
        | Some client \<Rightarrow>
            if address client = clientIP \<and> port client = clientPort then
              let s1 = (if \<not> ValidateSequenceNumber client (up_sequenceNumber msg)
                        then printMsg OutOfOrderPacket s else s);
                  clampedX = ClampPositionX (up_x msg);
                  clampedY = ClampPositionY (up_y msg)
              in case NormalizeRotation (up_bodyRotation msg) of
                   None \<Rightarrow> None
                 | Some body \<Rightarrow>
                     (case NormalizeRotation (up_barrelRotation msg) of
                        None \<Rightarrow> None
                      | Some barrel \<Rightarrow>
                          let pd = (playerData client)
                                     \<lparr>x := clampedX, y := clampedY,
                                      bodyRotation := body, barrelRotation := barrel,
                                      isMoving_forward := up_isMoving_forward msg,
                                      isMoving_backward := up_isMoving_backward msg,
                                      isMoving_left := up_isMoving_left msg,
                                      isMoving_right := up_isMoving_right msg\<rparr>;
                              c1 = client\<lparr>playerData := pd, lastUpdateTime := 0\<rparr>;
                              c2 = RecordReceivedSequence c1 (up_sequenceNumber msg)
                          in Some (s1\<lparr>clients := AList.update (up_playerId msg) c2 (clients s1)\<rparr>))
            else Some s)"

text \<open>
  \<^verbatim>\<open>HandlePlayerInput\<close>. \<open>now\<close> is the value of \<^verbatim>\<open>GetCurrentTimestamp()\<close>. Only an
  invalid player id returns early; a bad timestamp, a bad barrel rotation and a failed
  sequence validation each print a line and fall through, so \<^verbatim>\<open>NormalizeRotation\<close> runs
  on any barrel rotation a datagram can carry. The result is \<open>None\<close> when that call does
  not return.
\<close>

definition HandlePlayerInput ::
    "PlayerInputMessage \<Rightarrow> IpAddress \<Rightarrow> Port \<Rightarrow> int \<Rightarrow> GameServer \<Rightarrow> GameServer option" where
  "HandlePlayerInput msg clientIP clientPort now s =
     (if \<not> IsValidPlayerId (in_playerId msg) then Some (printMsg InvalidPlayerIdInInput s)
      else
        let s1 = (if \<not> IsValidTimestamp (in_timestamp msg) now then printMsg InvalidTimestamp s else s);
            s2 = (if \<not> IsValidRotation (in_barrelRotation msg)
                  then printMsg InvalidBarrelRotation s1 else s1)
        in case map_of (clients s2) (in_playerId msg) of
             None \<Rightarrow> Some s2
           | Some client \<Rightarrow>
               if address client = clientIP \<and> port client = clientPort then
                 let s3 = (if \<not> ValidateSequenceNumber client (in_sequenceNumber msg)
                           then printMsg OutOfOrderInput s2 else s2)
                 in case NormalizeRotation (in_barrelRotation msg) of
                      None \<Rightarrow> None
                    | Some barrel \<Rightarrow>
                        let pd = (playerData client)
                                   \<lparr>isMoving_forward := in_isMoving_forward msg,
                                    isMoving_backward := in_isMoving_backward msg,
                                    isMoving_left := in_isMoving_left msg,
                                    isMoving_right := in_isMoving_right msg,
                                    barrelRotation := barrel\<rparr>;
                            c1 = client\<lparr>playerData := pd, lastUpdateTime := 0\<rparr>;
                            c2 = RecordReceivedSequence c1 (in_sequenceNumber msg);
                            c3 = c2\<lparr>lastAcknowledgedInputSeq := in_sequenceNumber msg\<rparr>;
                            s4 = s3\<lparr>clients := AList.update (in_playerId msg) c3 (clients s3)\<rparr>
                        in Some (SendInputAcknowledgment (in_playerId msg) (in_sequenceNumber msg)
                                   clientIP clientPort now s4)
               else Some (printMsg InputFromIncorrectAddress s2))"

definition stale_client :: ClientInfo where
  "stale_client =
     (ClientInfo_new 10 20)\<lparr>receivedSequenceNumbers := {100}, lastReceivedSequenceNumber := 100,
        lastAcknowledgedInputSeq := 100\<rparr>"

definition stale_server :: GameServer where
  "stale_server = GameServer_new\<lparr>clients := [(1, stale_client)], nextPlayerId := 2\<rparr>"

definition stale_input :: PlayerInputMessage where
  "stale_input =
     \<lparr>in_playerId = 1, in_isMoving_forward = True, in_isMoving_backward = False,
      in_isMoving_left = False, in_isMoving_right = False, in_barrelRotation = Fin 90,
      in_timestamp = 1100, in_sequenceNumber = 7\<rparr>"

definition stale_update :: PlayerUpdateMessage where
  "stale_update =
     \<lparr>up_playerId = 1, up_x = Fin 300, up_y = Fin 400, up_bodyRotation = Fin 450,
      up_barrelRotation = Fin (- 90), up_isMoving_forward = False, up_isMoving_backward = True,
      up_isMoving_left = False, up_isMoving_right = False, up_timestamp = 1100,
      up_sequenceNumber = 7\<rparr>"

lemma logs_printMsg [simp]: "logs (printMsg ev s) = logs s @ [ev]"
  and clients_printMsg [simp]: "clients (printMsg ev s) = clients s"
  and outbox_printMsg [simp]: "outbox (printMsg ev s) = outbox s"
  by (simp_all add: printMsg_def)

lemma outbox_send [simp]: "outbox (send pkt ip p s) = outbox s @ [(pkt, ip, p)]"
  and clients_send [simp]: "clients (send pkt ip p s) = clients s"
  and logs_send [simp]: "logs (send pkt ip p s) = logs s"
  by (simp_all add: send_def)

lemma RecordReceivedSequence_keeps:
  "playerData (RecordReceivedSequence c n) = playerData c"
  "lastAcknowledgedInputSeq (RecordReceivedSequence c n) = lastAcknowledgedInputSeq c"
  "address (RecordReceivedSequence c n) = address c"
  "port (RecordReceivedSequence c n) = port c"
  by (simp_all add: RecordReceivedSequence_def Let_def)

text \<open>
  Once a sequence number has been recorded for a client it fails the validation: it is
  in the set of received numbers, or the pruning of that set has just dropped it, and then
  it is more than 200 behind the last received number.
\<close>

lemma behind_window:
  fixes n l :: "32 word"
  assumes "200 < l" and "n < l - 200"
  shows "n + 50 < l"
  using assms by unat_arith

lemma RecordReceivedSequence_rejects_repeat:
  "\<not> ValidateSequenceNumber (RecordReceivedSequence c n) n"
proof -
  define l where "l = (if n > lastReceivedSequenceNumber c then n else lastReceivedSequenceNumber c)"
  have "n + 50 < l" if "n < (if l > 200 then l - 200 else 0)"
  proof (cases "200 < l")
    case True
    with that show ?thesis by (simp add: behind_window)
  next
    case False
    with that show ?thesis by simp
  qed
  then show ?thesis
    by (auto simp: ValidateSequenceNumber_def RecordReceivedSequence_def Let_def l_def
        MAX_SEQUENCE_HISTORY_def OUT_OF_ORDER_THRESHOLD_def)
qed

lemma ValidateSequenceNumber_acknowledged [simp]:
  "ValidateSequenceNumber (c\<lparr>lastAcknowledgedInputSeq := k\<rparr>) n = ValidateSequenceNumber c n"
  by (simp add: ValidateSequenceNumber_def)

lemma NormalizeRotation_valid:
  assumes "IsValidRotation r"
  shows "\<exists>v. NormalizeRotation r = Some v"
proof (cases r)
  case (Fin a)
  with assms show ?thesis
    using NormalizeRotation_returns [of a] by (simp add: MIN_ROTATION_def MAX_ROTATION_def)
qed simp_all

lemma HandlePlayerInput_applies:
  assumes "IsValidPlayerId (in_playerId msg)"
    and "map_of (clients s) (in_playerId msg) = Some client"
    and "address client = clientIP" and "port client = clientPort"
    and "NormalizeRotation (in_barrelRotation msg) = Some barrel"
  shows "\<exists>s' c'. HandlePlayerInput msg clientIP clientPort now s = Some s'
           \<and> map_of (clients s') (in_playerId msg) = Some c'
           \<and> isMoving_forward (playerData c') = in_isMoving_forward msg
           \<and> isMoving_backward (playerData c') = in_isMoving_backward msg
           \<and> isMoving_left (playerData c') = in_isMoving_left msg
           \<and> isMoving_right (playerData c') = in_isMoving_right msg
           \<and> barrelRotation (playerData c') = barrel
           \<and> lastAcknowledgedInputSeq c' = in_sequenceNumber msg
           \<and> outbox s' = outbox s @ [(INPUT_ACKNOWLEDGMENT (in_playerId msg) (in_sequenceNumber msg) now,
                                       clientIP, clientPort)]
           \<and> (OutOfOrderInput \<in> set (drop (length (logs s)) (logs s'))
                \<longleftrightarrow> \<not> ValidateSequenceNumber client (in_sequenceNumber msg))
           \<and> \<not> ValidateSequenceNumber c' (in_sequenceNumber msg)"
  using assms
  by (simp add: HandlePlayerInput_def Let_def SendInputAcknowledgment_def update_conv'
      RecordReceivedSequence_keeps RecordReceivedSequence_rejects_repeat)

lemma HandlePlayerInput_hangs:
  assumes "IsValidPlayerId (in_playerId msg)"
    and "map_of (clients s) (in_playerId msg) = Some client"
    and "address client = clientIP" and "port client = clientPort"
    and "NormalizeRotation (in_barrelRotation msg) = None"
  shows "HandlePlayerInput msg clientIP clientPort now s = None"
  using assms by (simp add: HandlePlayerInput_def Let_def)

lemma IsValidPosition_Fin:
  assumes "IsValidPosition px py"
  obtains a b where "px = Fin a" "py = Fin b" "ClampPositionX px = a" "ClampPositionY py = b"
  using assms
  by (cases px; cases py)
     (auto simp: ClampPositionX_def ClampPositionY_def)

lemma HandlePlayerUpdate_applies:
  assumes "IsValidPlayerId (up_playerId msg)"
    and "map_of (clients s) (up_playerId msg) = Some client"
    and "address client = clientIP" and "port client = clientPort"
    and pos: "IsValidPosition (up_x msg) (up_y msg)"
    and rot: "IsValidRotation (up_bodyRotation msg)" "IsValidRotation (up_barrelRotation msg)"
  shows "\<exists>s' c' body barrel. HandlePlayerUpdate msg clientIP clientPort s = Some s'
           \<and> map_of (clients s') (up_playerId msg) = Some c'
           \<and> NormalizeRotation (up_bodyRotation msg) = Some body
           \<and> NormalizeRotation (up_barrelRotation msg) = Some barrel
           \<and> Fin (x (playerData c')) = up_x msg \<and> Fin (y (playerData c')) = up_y msg
           \<and> bodyRotation (playerData c') = body \<and> barrelRotation (playerData c') = barrel
           \<and> isMoving_forward (playerData c') = up_isMoving_forward msg
           \<and> isMoving_backward (playerData c') = up_isMoving_backward msg
           \<and> isMoving_left (playerData c') = up_isMoving_left msg
           \<and> isMoving_right (playerData c') = up_isMoving_right msg
           \<and> lastAcknowledgedInputSeq c' = lastAcknowledgedInputSeq client
           \<and> outbox s' = outbox s
           \<and> (OutOfOrderPacket \<in> set (drop (length (logs s)) (logs s'))
                \<longleftrightarrow> \<not> ValidateSequenceNumber client (up_sequenceNumber msg))
           \<and> \<not> ValidateSequenceNumber c' (up_sequenceNumber msg)"
proof -
  from rot obtain body barrel where n: "NormalizeRotation (up_bodyRotation msg) = Some body"
      "NormalizeRotation (up_barrelRotation msg) = Some barrel"
    using NormalizeRotation_valid by blast
  from pos obtain a b where p: "up_x msg = Fin a" "up_y msg = Fin b"
      "ClampPositionX (up_x msg) = a" "ClampPositionY (up_y msg) = b"
    by (rule IsValidPosition_Fin)
  from assms n p(3,4) show ?thesis
    by (simp add: HandlePlayerUpdate_def Let_def update_conv' RecordReceivedSequence_keeps
        RecordReceivedSequence_rejects_repeat p(1,2))
qed

lemma HandlePlayerUpdate_returns: "HandlePlayerUpdate msg clientIP clientPort s \<noteq> None"
proof (cases "IsValidRotation (up_bodyRotation msg) \<and> IsValidRotation (up_barrelRotation msg)")
  case True
  then obtain body barrel where "NormalizeRotation (up_bodyRotation msg) = Some body"
      "NormalizeRotation (up_barrelRotation msg) = Some barrel"
    using NormalizeRotation_valid by blast
  then show ?thesis
    by (simp add: HandlePlayerUpdate_def Let_def split: option.splits)
next
  case False
  then show ?thesis by (auto simp: HandlePlayerUpdate_def)
qed

text \<open>
  Claim C1 says that an input whose sequence number was already received, or is more than
  50 behind the last received one, is ignored. It is not: the stale input below (sequence
  7 when 100 was received and acknowledged) fails the validation, yet the handler stores
  its movement flags and barrel rotation, moves the acknowledged sequence back to 7 and
  sends an InputAck for it.
\<close>

theorem stale_input_is_applied:
  "\<not> ValidateSequenceNumber stale_client 7
   \<and> \<not> isMoving_forward (playerData stale_client)
   \<and> barrelRotation (playerData stale_client) = 0
   \<and> lastAcknowledgedInputSeq stale_client = 100
   \<and> outbox stale_server = []
   \<and> (case HandlePlayerInput stale_input 10 20 1200 stale_server of
         None \<Rightarrow> False
       | Some s' \<Rightarrow>
           (case map_of (clients s') 1 of
              None \<Rightarrow> False
            | Some c \<Rightarrow> isMoving_forward (playerData c) \<and> barrelRotation (playerData c) = 90
                         \<and> lastAcknowledgedInputSeq c = 7)
           \<and> outbox s' = [(INPUT_ACKNOWLEDGMENT 1 7 1200, 10, 20)])"
proof -
  have "NormalizeRotation (Fin 90) = Some 90"
    by (rule NormalizeRotation_normalised) simp_all
  then show ?thesis
    by (simp add: stale_client_def stale_server_def stale_input_def ClientInfo_new_def
        PlayerData_default_def GameServer_new_def HandlePlayerInput_def ValidateSequenceNumber_def
        OUT_OF_ORDER_THRESHOLD_def IsValidPlayerId_def IsValidTimestamp_def MAX_TIMESTAMP_DELTA_def
        MIN_ROTATION_def MAX_ROTATION_def SendInputAcknowledgment_def RecordReceivedSequence_keeps
        Let_def update_conv')
qed

text \<open>
  Claim C1, amended. A failed \<^verbatim>\<open>ValidateSequenceNumber\<close> only prints a line. For the
  client registered under a valid player id, and a message from its address and port:

  \<^item> an input message whose barrel rotation \<^verbatim>\<open>NormalizeRotation\<close> returns on (it does on
    every rotation that passes \<^verbatim>\<open>IsValidRotation\<close>) has its four movement flags and the
    normalised barrel rotation stored, becomes the last acknowledged input and is answered
    by exactly one InputAck carrying its sequence number, whatever that number is;
  \<^item> on an input message whose barrel rotation \<^verbatim>\<open>NormalizeRotation\<close> does not return on,
    the handler does not return;
  \<^item> an update message with a valid position and valid rotations has its position, its
    normalised rotations and its movement flags stored, whatever its sequence number is;
    no update message is acknowledged and the handler always returns;
  \<^item> after either message its sequence number fails the validation for that client, so a
    repeat of the message is detected, and applied again.
\<close>

theorem sequence_validation_only_logs:
  assumes "IsValidPlayerId pid" and "map_of (clients s) pid = Some client"
    and "address client = clientIP" and "port client = clientPort"
  shows "(in_playerId msg = pid \<and> NormalizeRotation (in_barrelRotation msg) = Some barrel \<longrightarrow>
          (\<exists>s' c'. HandlePlayerInput msg clientIP clientPort now s = Some s'
             \<and> map_of (clients s') pid = Some c'
             \<and> isMoving_forward (playerData c') = in_isMoving_forward msg
             \<and> isMoving_backward (playerData c') = in_isMoving_backward msg
             \<and> isMoving_left (playerData c') = in_isMoving_left msg
             \<and> isMoving_right (playerData c') = in_isMoving_right msg
             \<and> barrelRotation (playerData c') = barrel
             \<and> lastAcknowledgedInputSeq c' = in_sequenceNumber msg
             \<and> outbox s' = outbox s @ [(INPUT_ACKNOWLEDGMENT pid (in_sequenceNumber msg) now,
                                         clientIP, clientPort)]
             \<and> (OutOfOrderInput \<in> set (drop (length (logs s)) (logs s'))
                  \<longleftrightarrow> \<not> ValidateSequenceNumber client (in_sequenceNumber msg))
             \<and> \<not> ValidateSequenceNumber c' (in_sequenceNumber msg)))
      \<and> (IsValidRotation (in_barrelRotation msg) \<longrightarrow>
           NormalizeRotation (in_barrelRotation msg) \<noteq> None)
      \<and> (in_playerId msg = pid \<and> NormalizeRotation (in_barrelRotation msg) = None \<longrightarrow>
           HandlePlayerInput msg clientIP clientPort now s = None)
      \<and> (up_playerId upd = pid \<and> IsValidPosition (up_x upd) (up_y upd)
           \<and> IsValidRotation (up_bodyRotation upd) \<and> IsValidRotation (up_barrelRotation upd) \<longrightarrow>
          (\<exists>s' c' body barrel. HandlePlayerUpdate upd clientIP clientPort s = Some s'
             \<and> map_of (clients s') pid = Some c'
             \<and> NormalizeRotation (up_bodyRotation upd) = Some body
             \<and> NormalizeRotation (up_barrelRotation upd) = Some barrel
             \<and> Fin (x (playerData c')) = up_x upd \<and> Fin (y (playerData c')) = up_y upd
             \<and> bodyRotation (playerData c') = body \<and> barrelRotation (playerData c') = barrel
             \<and> isMoving_forward (playerData c') = up_isMoving_forward upd
             \<and> isMoving_backward (playerData c') = up_isMoving_backward upd
             \<and> isMoving_left (playerData c') = up_isMoving_left upd
             \<and> isMoving_right (playerData c') = up_isMoving_right upd
             \<and> lastAcknowledgedInputSeq c' = lastAcknowledgedInputSeq client
             \<and> outbox s' = outbox s
             \<and> (OutOfOrderPacket \<in> set (drop (length (logs s)) (logs s'))
                  \<longleftrightarrow> \<not> ValidateSequenceNumber client (up_sequenceNumber upd))
             \<and> \<not> ValidateSequenceNumber c' (up_sequenceNumber upd)))
      \<and> HandlePlayerUpdate upd clientIP clientPort s \<noteq> None"
proof (intro conjI impI)
  assume a: "in_playerId msg = pid \<and> NormalizeRotation (in_barrelRotation msg) = Some barrel"
  with assms HandlePlayerInput_applies [of msg s client clientIP clientPort barrel now]
  show "\<exists>s' c'. HandlePlayerInput msg clientIP clientPort now s = Some s'
             \<and> map_of (clients s') pid = Some c'
             \<and> isMoving_forward (playerData c') = in_isMoving_forward msg
             \<and> isMoving_backward (playerData c') = in_isMoving_backward msg
             \<and> isMoving_left (playerData c') = in_isMoving_left msg
             \<and> isMoving_right (playerData c') = in_isMoving_right msg
             \<and> barrelRotation (playerData c') = barrel
             \<and> lastAcknowledgedInputSeq c' = in_sequenceNumber msg
             \<and> outbox s' = outbox s @ [(INPUT_ACKNOWLEDGMENT pid (in_sequenceNumber msg) now,
                                         clientIP, clientPort)]
             \<and> (OutOfOrderInput \<in> set (drop (length (logs s)) (logs s'))
                  \<longleftrightarrow> \<not> ValidateSequenceNumber client (in_sequenceNumber msg))
             \<and> \<not> ValidateSequenceNumber c' (in_sequenceNumber msg)"
    by simp
next
  assume "IsValidRotation (in_barrelRotation msg)"
  then show "NormalizeRotation (in_barrelRotation msg) \<noteq> None"
    using NormalizeRotation_valid [of "in_barrelRotation msg"] by auto
next
  assume "in_playerId msg = pid \<and> NormalizeRotation (in_barrelRotation msg) = None"
  with assms show "HandlePlayerInput msg clientIP clientPort now s = None"
    by (simp add: HandlePlayerInput_hangs)
next
  assume a: "up_playerId upd = pid \<and> IsValidPosition (up_x upd) (up_y upd)
           \<and> IsValidRotation (up_bodyRotation upd) \<and> IsValidRotation (up_barrelRotation upd)"
  with assms HandlePlayerUpdate_applies [of upd s client clientIP clientPort]
  show "\<exists>s' c' body barrel. HandlePlayerUpdate upd clientIP clientPort s = Some s'
             \<and> map_of (clients s') pid = Some c'
             \<and> NormalizeRotation (up_bodyRotation upd) = Some body
             \<and> NormalizeRotation (up_barrelRotation upd) = Some barrel
             \<and> Fin (x (playerData c')) = up_x upd \<and> Fin (y (playerData c')) = up_y upd
             \<and> bodyRotation (playerData c') = body \<and> barrelRotation (playerData c') = barrel
             \<and> isMoving_forward (playerData c') = up_isMoving_forward upd
             \<and> isMoving_backward (playerData c') = up_isMoving_backward upd
             \<and> isMoving_left (playerData c') = up_isMoving_left upd
             \<and> isMoving_right (playerData c') = up_isMoving_right upd
             \<and> lastAcknowledgedInputSeq c' = lastAcknowledgedInputSeq client
             \<and> outbox s' = outbox s
             \<and> (OutOfOrderPacket \<in> set (drop (length (logs s)) (logs s'))
                  \<longleftrightarrow> \<not> ValidateSequenceNumber client (up_sequenceNumber upd))
             \<and> \<not> ValidateSequenceNumber c' (up_sequenceNumber upd)"
    by simp
next
  show "HandlePlayerUpdate upd clientIP clientPort s \<noteq> None"
    by (rule HandlePlayerUpdate_returns)
qed

theorem sequence_validation_only_logs_witness:
  "(\<exists>s' c'. HandlePlayerInput stale_input 10 20 1200 stale_server = Some s'
        \<and> map_of (clients s') 1 = Some c'
        \<and> isMoving_forward (playerData c') \<and> barrelRotation (playerData c') = 90
        \<and> lastAcknowledgedInputSeq c' = 7
        \<and> outbox s' = [(INPUT_ACKNOWLEDGMENT 1 7 1200, 10, 20)]
        \<and> OutOfOrderInput \<in> set (logs s'))
   \<and> (\<exists>s' c'. HandlePlayerUpdate stale_update 10 20 stale_server = Some s'
        \<and> map_of (clients s') 1 = Some c'
        \<and> x (playerData c') = 300 \<and> y (playerData c') = 400
        \<and> isMoving_backward (playerData c')
        \<and> lastAcknowledgedInputSeq c' = 100
        \<and> outbox s' = []
        \<and> OutOfOrderPacket \<in> set (logs s'))"
proof -
  have n: "NormalizeRotation (Fin 90) = Some 90"
    by (rule NormalizeRotation_normalised) simp_all
  have known: "IsValidPlayerId 1" "map_of (clients stale_server) 1 = Some stale_client"
    "address stale_client = 10" "port stale_client = 20"
    by (simp_all add: IsValidPlayerId_def stale_server_def stale_client_def ClientInfo_new_def)
  have stale: "\<not> ValidateSequenceNumber stale_client 7" "lastAcknowledgedInputSeq stale_client = 100"
    "logs stale_server = []" "outbox stale_server = []"
    by (simp_all add: ValidateSequenceNumber_def stale_client_def OUT_OF_ORDER_THRESHOLD_def
        stale_server_def GameServer_new_def)
  have inp: "in_playerId stale_input = 1" "in_barrelRotation stale_input = Fin 90"
    "in_isMoving_forward stale_input" "in_sequenceNumber stale_input = 7"
    by (simp_all add: stale_input_def)
  have upd: "up_playerId stale_update = 1" "up_x stale_update = Fin 300" "up_y stale_update = Fin 400"
    "up_isMoving_backward stale_update" "up_sequenceNumber stale_update = 7"
    "IsValidPosition (up_x stale_update) (up_y stale_update)"
    "IsValidRotation (up_bodyRotation stale_update)" "IsValidRotation (up_barrelRotation stale_update)"
    by (simp_all add: stale_update_def MIN_X_def MAX_X_def MIN_Y_def MAX_Y_def world_constants
        MIN_ROTATION_def MAX_ROTATION_def)
  note inst = sequence_validation_only_logs [OF known, where msg = stale_input and barrel = 90
      and upd = stale_update and now = 1200]
  have i: "in_playerId stale_input = 1
      \<and> NormalizeRotation (in_barrelRotation stale_input) = Some 90"
    by (simp add: inp n)
  from inst [THEN conjunct1, THEN mp, OF i] obtain s' c'
    where "HandlePlayerInput stale_input 10 20 1200 stale_server = Some s'"
      and "map_of (clients s') 1 = Some c'"
      and "isMoving_forward (playerData c') = in_isMoving_forward stale_input"
      and "barrelRotation (playerData c') = 90"
      and "lastAcknowledgedInputSeq c' = in_sequenceNumber stale_input"
      and "outbox s' = outbox stale_server
             @ [(INPUT_ACKNOWLEDGMENT 1 (in_sequenceNumber stale_input) 1200, 10, 20)]"
      and "OutOfOrderInput \<in> set (drop (length (logs stale_server)) (logs s'))
             \<longleftrightarrow> \<not> ValidateSequenceNumber stale_client (in_sequenceNumber stale_input)"
    by blast
  then have input: "\<exists>s' c'. HandlePlayerInput stale_input 10 20 1200 stale_server = Some s'
        \<and> map_of (clients s') 1 = Some c'
        \<and> isMoving_forward (playerData c') \<and> barrelRotation (playerData c') = 90
        \<and> lastAcknowledgedInputSeq c' = 7
        \<and> outbox s' = [(INPUT_ACKNOWLEDGMENT 1 7 1200, 10, 20)]
        \<and> OutOfOrderInput \<in> set (logs s')"
    by (intro exI [of _ s'] exI [of _ c']) (simp add: inp stale)
  have u: "up_playerId stale_update = 1 \<and> IsValidPosition (up_x stale_update) (up_y stale_update)
      \<and> IsValidRotation (up_bodyRotation stale_update)
      \<and> IsValidRotation (up_barrelRotation stale_update)"
    by (intro conjI upd(1) upd(6-8))
  from inst [THEN conjunct2, THEN conjunct2, THEN conjunct2, THEN conjunct1, THEN mp, OF u]
  obtain t' d'
    where "HandlePlayerUpdate stale_update 10 20 stale_server = Some t'"
      and "map_of (clients t') 1 = Some d'"
      and "Fin (x (playerData d')) = up_x stale_update"
      and "Fin (y (playerData d')) = up_y stale_update"
      and "isMoving_backward (playerData d') = up_isMoving_backward stale_update"
      and "lastAcknowledgedInputSeq d' = lastAcknowledgedInputSeq stale_client"
      and "outbox t' = outbox stale_server"
      and "OutOfOrderPacket \<in> set (drop (length (logs stale_server)) (logs t'))
             \<longleftrightarrow> \<not> ValidateSequenceNumber stale_client (up_sequenceNumber stale_update)"
    by blast
  then have update: "\<exists>s' c'. HandlePlayerUpdate stale_update 10 20 stale_server = Some s'
        \<and> map_of (clients s') 1 = Some c'
        \<and> x (playerData c') = 300 \<and> y (playerData c') = 400
        \<and> isMoving_backward (playerData c')
        \<and> lastAcknowledgedInputSeq c' = 100
        \<and> outbox s' = []
        \<and> OutOfOrderPacket \<in> set (logs s')"
    by (intro exI [of _ t'] exI [of _ d']) (simp add: upd(1-5) stale)
  from input update show ?thesis by (rule conjI)
qed


section \<open>Broadcasting the game state\<close>

definition SendPlayerIdAssignment :: "32 word \<Rightarrow> IpAddress \<Rightarrow> Port \<Rightarrow> GameServer \<Rightarrow> GameServer" where
  "SendPlayerIdAssignment pid clientIP clientPort s = send (PLAYER_ID_ASSIGNMENT pid) clientIP clientPort s"

text \<open>
  \<^verbatim>\<open>SendGameStateToAll\<close> and \<^verbatim>\<open>SendGameStateToClient\<close> build the same packet with the
  same three loops: copy \<^verbatim>\<open>client.score\<close> and \<^verbatim>\<open>client.isDead\<close> into the player data of
  every active client, write the player data of the active clients, write the data of
  every enemy. The trailer is the timestamp, the post-incremented outgoing sequence number
  and the local \<^verbatim>\<open>uint32_t lastAckedInput = 0\<close>.
\<close>

definition sync_player_data :: "ClientInfo \<Rightarrow> ClientInfo" where
  "sync_player_data client =
     (if isActive client
      then client\<lparr>playerData := (playerData client)\<lparr>score := client_score client,
                                                     isDead := client_isDead client\<rparr>\<rparr>
      else client)"

definition enemy_data :: "32 word \<Rightarrow> EnemyTank \<Rightarrow> EnemyData" where
  "enemy_data enemyId enemy =
     \<lparr>ed_enemyId = enemyId, ed_enemyType = EnemyType_code (enemyType enemy),
      ed_x = fst (position enemy), ed_y = snd (position enemy),
      ed_bodyRotation = enemy_bodyRotation enemy, ed_barrelRotation = enemy_barrelRotation enemy,
      ed_health = currentHealth enemy, ed_maxHealth = enemy_maxHealth enemy\<rparr>"

definition game_state_message :: "int \<Rightarrow> GameServer \<Rightarrow> GameStateMessage" where
  "game_state_message now s =
     \<lparr>players = map (\<lambda>(pid, client). playerData client)
                  (filter (\<lambda>(pid, client). isActive client) (clients s)),
      gs_enemies = map (\<lambda>(enemyId, enemy). enemy_data enemyId enemy) (enemies s),
      gs_timestamp = now,
      gs_sequenceNumber = outgoingSequenceNumber s,
      lastAckedInput = 0\<rparr>"

definition SendGameStateToAll :: "int \<Rightarrow> GameServer \<Rightarrow> GameServer" where
  "SendGameStateToAll now s =
     (if clients s = [] then s
      else
        let s1 = s\<lparr>clients := map (\<lambda>(pid, client). (pid, sync_player_data client)) (clients s)\<rparr>;
            msg = game_state_message now s1;
            s2 = s1\<lparr>outgoingSequenceNumber := outgoingSequenceNumber s1 + 1\<rparr>
        in fold (\<lambda>(pid, client) st.
                   if isActive client then send (GAME_STATE msg) (address client) (port client) st
                   else st)
             (clients s2) s2)"

definition SendGameStateToClient :: "32 word \<Rightarrow> int \<Rightarrow> GameServer \<Rightarrow> GameServer" where
  "SendGameStateToClient pid now s =
     (case map_of (clients s) pid of
        None \<Rightarrow> s
      | Some target \<Rightarrow>
          if \<not> isActive target then s
          else
            let s1 = s\<lparr>clients := map (\<lambda>(pid, client). (pid, sync_player_data client)) (clients s)\<rparr>;
                msg = game_state_message now s1;
                s2 = s1\<lparr>outgoingSequenceNumber := outgoingSequenceNumber s1 + 1\<rparr>
            in send (GAME_STATE msg) (address target) (port target) s2)"

section \<open>Joining\<close>

text \<open>The default-constructed \<^verbatim>\<open>ClientInfo()\<close> that \<^verbatim>\<open>clients[id]\<close> inserts for a missing key.\<close>

definition ClientInfo_default :: ClientInfo where
  "ClientInfo_default = (ClientInfo_new 0x7F000001 0)\<lparr>isActive := False\<rparr>"

text \<open>The first key, in iteration order, whose client has this address and port; 0 if none.\<close>

fun FindPlayerByAddress_loop :: "(32 word \<times> ClientInfo) list \<Rightarrow> IpAddress \<Rightarrow> Port \<Rightarrow> 32 word" where
  "FindPlayerByAddress_loop [] addr p = 0"
| "FindPlayerByAddress_loop ((pid, client) # rest) addr p =
     (if address client = addr \<and> port client = p then pid
      else FindPlayerByAddress_loop rest addr p)"

definition FindPlayerByAddress :: "GameServer \<Rightarrow> IpAddress \<Rightarrow> Port \<Rightarrow> 32 word" where
  "FindPlayerByAddress s addr p = FindPlayerByAddress_loop (clients s) addr p"

text \<open>
  \<^verbatim>\<open>AssignColor\<close>: the first available colour no client uses; when all are used, the one
  at a random index, \<open>pick\<close> being the draw of \<^verbatim>\<open>uniform_int_distribution(0, size - 1)\<close>.
\<close>

definition AssignColor :: "nat \<Rightarrow> GameServer \<Rightarrow> string" where
  "AssignColor pick s =
     (let usedColors = map (\<lambda>(pid, client). color (playerData client)) (clients s)
      in case List.find (\<lambda>c. c \<notin> set usedColors) (availableColors s) of
           Some c \<Rightarrow> c
         | None \<Rightarrow> availableColors s ! (pick mod length (availableColors s)))"

text \<open>
  \<^verbatim>\<open>HandleJoinRequest\<close>. Only an invalid name returns early. An invalid colour and an
  invalid timestamp print a warning and fall through.
\<close>

definition HandleJoinRequest ::
    "JoinMessage \<Rightarrow> IpAddress \<Rightarrow> Port \<Rightarrow> int \<Rightarrow> nat \<Rightarrow> GameServer \<Rightarrow> GameServer" where
  "HandleJoinRequest msg clientIP clientPort now pick s =
     (if \<not> IsValidPlayerName (join_playerName msg) then printMsg InvalidPlayerName s
      else
        let s1 = (if join_preferredColor msg \<noteq> [] \<and> \<not> IsValidColor (join_preferredColor msg)
                  then printMsg InvalidColorName s else s);
            s2 = (if \<not> IsValidTimestamp (join_timestamp msg) now
                  then printMsg InvalidTimestamp s1 else s1);
            s3 = printMsg PlayerJoinRequest s2;
            existingPlayerId = FindPlayerByAddress s3 clientIP clientPort
        in if existingPlayerId \<noteq> 0 then
             let s4 = printMsg PlayerAlreadyConnected s3;
                 old = (case map_of (clients s4) existingPlayerId of
                          Some c \<Rightarrow> c | None \<Rightarrow> ClientInfo_default);
                 upd = old\<lparr>isActive := True, lastUpdateTime := 0,
                            playerData := (playerData old)\<lparr>playerName := join_playerName msg\<rparr>\<rparr>;
                 s5 = s4\<lparr>clients := AList.update existingPlayerId upd (clients s4)\<rparr>
             in SendGameStateToClient existingPlayerId now
                  (SendPlayerIdAssignment existingPlayerId clientIP clientPort s5)
           else
             let newId = nextPlayerId s3;
                 s4 = s3\<lparr>nextPlayerId := nextPlayerId s3 + 1\<rparr>;
                 pd = PlayerData_default
                        \<lparr>playerId := newId, playerName := join_playerName msg,
                         color := (if join_preferredColor msg \<noteq> [] then join_preferredColor msg
                                   else AssignColor pick s4),
                         x := CENTER_X, y := CENTER_Y, health := 100, maxHealth := 100\<rparr>;
                 newClient = RecordReceivedSequence
                               ((ClientInfo_new clientIP clientPort)\<lparr>playerData := pd\<rparr>)
                               (join_sequenceNumber msg);
                 s5 = printMsg PlayerJoined (s4\<lparr>clients := AList.update newId newClient (clients s4)\<rparr>)
             in SendGameStateToAll now
                  (SendGameStateToClient newId now
                     (SendPlayerIdAssignment newId clientIP clientPort s5)))"


definition purple_join :: JoinMessage where
  "purple_join = \<lparr>join_playerName = ''Ada'', join_preferredColor = ''purple'',
                   join_timestamp = 1000, join_sequenceNumber = 1\<rparr>"

definition nameless_join :: JoinMessage where
  "nameless_join = \<lparr>join_playerName = [], join_preferredColor = ''red'',
                     join_timestamp = 1000, join_sequenceNumber = 1\<rparr>"

definition acked_client :: ClientInfo where
  "acked_client = (ClientInfo_new 10 20)\<lparr>lastAcknowledgedInputSeq := 7\<rparr>"

definition acked_server :: GameServer where
  "acked_server = GameServer_new\<lparr>clients := [(1, acked_client)], nextPlayerId := 2\<rparr>"

lemma send_fold_clients:
  "clients (fold (\<lambda>(pid, client) st. if isActive client then send (f client) (address client) (port client) st else st) xs st0)
     = clients st0"
  by (induction xs arbitrary: st0) (auto simp: split_def)

lemma send_fold_outbox:
  "outbox (fold (\<lambda>(pid, client) st. if isActive client then send pkt (address client) (port client) st else st) xs st0)
     = outbox st0 @ map (\<lambda>(pid, client). (pkt, address client, port client))
                      (filter (\<lambda>(pid, client). isActive client) xs)"
  by (induction xs arbitrary: st0) (auto simp: split_def)

lemma send_fold_nextPlayerId:
  "nextPlayerId (fold (\<lambda>(pid, client) st. if isActive client then send (f client) (address client) (port client) st else st) xs st0)
     = nextPlayerId st0"
  by (induction xs arbitrary: st0) (auto simp: split_def send_def)

lemma clients_SendGameStateToAll:
  "clients (SendGameStateToAll now s) = map (\<lambda>(pid, client). (pid, sync_player_data client)) (clients s)"
  by (simp add: SendGameStateToAll_def Let_def send_fold_clients)

lemma clients_SendGameStateToClient:
  "clients (SendGameStateToClient pid now s)
     = (case map_of (clients s) pid of
          None \<Rightarrow> clients s
        | Some target \<Rightarrow> if isActive target
                         then map (\<lambda>(pid, client). (pid, sync_player_data client)) (clients s)
                         else clients s)"
  by (simp add: SendGameStateToClient_def Let_def split: option.splits)

lemma outbox_SendGameStateToAll:
  "outbox (SendGameStateToAll now s)
     = outbox s @ map (\<lambda>(pid, client).
                         (GAME_STATE (game_state_message now
                            (s\<lparr>clients := map (\<lambda>(pid, client). (pid, sync_player_data client)) (clients s)\<rparr>)),
                          address client, port client))
                    (filter (\<lambda>(pid, client). isActive client)
                       (map (\<lambda>(pid, client). (pid, sync_player_data client)) (clients s)))"
  by (simp add: SendGameStateToAll_def Let_def send_fold_outbox)

lemma sync_player_data_keeps [simp]:
  "color (playerData (sync_player_data c)) = color (playerData c)"
  "playerName (playerData (sync_player_data c)) = playerName (playerData c)"
  "isActive (sync_player_data c) = isActive c"
  "address (sync_player_data c) = address c"
  "port (sync_player_data c) = port c"
  by (simp_all add: sync_player_data_def)

lemma lastAckedInput_game_state_message [simp]:
  "lastAckedInput (game_state_message now s) = 0"
  by (simp add: game_state_message_def)

text \<open>
  Claim C10. Every packet that \<^verbatim>\<open>SendGameStateToAll\<close> and \<^verbatim>\<open>SendGameStateToClient\<close>
  send is a GameState whose \<open>lastAckedInput\<close> is 0, whatever input sequences the server
  has acknowledged for its clients; acknowledgments travel in the InputAck packets of
  \<^verbatim>\<open>HandlePlayerInput\<close> only.
\<close>

theorem GameState_carries_no_ack:
  "(\<forall>pkt dest. (pkt, dest) \<in> set (drop (length (outbox s)) (outbox (SendGameStateToAll now s)))
       \<longrightarrow> (\<exists>g. pkt = GAME_STATE g \<and> lastAckedInput g = 0))
   \<and> (\<forall>pkt dest. (pkt, dest) \<in> set (drop (length (outbox s)) (outbox (SendGameStateToClient pid now s)))
       \<longrightarrow> (\<exists>g. pkt = GAME_STATE g \<and> lastAckedInput g = 0))"
proof -
  have "\<exists>g. pkt = GAME_STATE g \<and> lastAckedInput g = 0"
    if "(pkt, dest) \<in> set (drop (length (outbox s)) (outbox (SendGameStateToAll now s)))"
    for pkt dest
    using that by (auto simp: outbox_SendGameStateToAll)
  moreover have "\<exists>g. pkt = GAME_STATE g \<and> lastAckedInput g = 0"
    if "(pkt, dest) \<in> set (drop (length (outbox s)) (outbox (SendGameStateToClient pid now s)))"
    for pkt dest
    using that by (auto simp: SendGameStateToClient_def Let_def split: option.splits if_splits)
  ultimately show ?thesis by blast
qed

theorem GameState_carries_no_ack_witness:
  "lastAcknowledgedInputSeq acked_client = 7
   \<and> (\<exists>g. outbox (SendGameStateToAll 1200 acked_server) = [(GAME_STATE g, 10, 20)]
          \<and> lastAckedInput g = 0)
   \<and> (\<exists>g. outbox (SendGameStateToClient 1 1200 acked_server) = [(GAME_STATE g, 10, 20)]
          \<and> lastAckedInput g = 0)"
  using GameState_carries_no_ack [of acked_server 1200 1]
  by (simp add: acked_client_def acked_server_def GameServer_new_def ClientInfo_new_def
      SendGameStateToAll_def SendGameStateToClient_def Let_def sync_player_data_def send_def
      game_state_message_def)


lemma map_of_synced:
  "map_of (map (\<lambda>(pid, client). (pid, f client)) al) k = map_option f (map_of al k)"
  by (induction al) auto

lemma nextPlayerId_printMsg [simp]: "nextPlayerId (printMsg ev s) = nextPlayerId s"
  by (simp add: printMsg_def)

lemma HandleJoinRequest_invalid_name:
  assumes "\<not> IsValidPlayerName (join_playerName msg)"
  shows "HandleJoinRequest msg clientIP clientPort now pick s = printMsg InvalidPlayerName s"
  using assms by (simp add: HandleJoinRequest_def)

lemma RecordReceivedSequence_isActive:
  "isActive (RecordReceivedSequence c n) = isActive c"
  by (simp add: RecordReceivedSequence_def Let_def)

lemma HandleJoinRequest_new_player:
  assumes name: "IsValidPlayerName (join_playerName msg)"
    and fresh: "FindPlayerByAddress s clientIP clientPort = 0"
    and pref: "join_preferredColor msg \<noteq> []"
  shows "\<exists>c. map_of (clients (HandleJoinRequest msg clientIP clientPort now pick s)) (nextPlayerId s) = Some c
            \<and> color (playerData c) = join_preferredColor msg
            \<and> playerName (playerData c) = join_playerName msg
            \<and> isActive c"
proof -
  have fresh': "FindPlayerByAddress (printMsg ev st) a p = FindPlayerByAddress st a p" for ev st a p
    by (simp add: FindPlayerByAddress_def)
  show ?thesis
    using assms
    by (simp add: HandleJoinRequest_def Let_def fresh' clients_SendGameStateToAll
        clients_SendGameStateToClient SendPlayerIdAssignment_def map_of_synced update_conv'
        RecordReceivedSequence_keeps RecordReceivedSequence_isActive ClientInfo_new_def
        del: map_map)
qed

text \<open>
  Claim C2 says that a Join whose preferred colour is outside \<open>{red, blue, green, black}\<close>
  is rejected. It is not: \<^verbatim>\<open>IsValidColor\<close> checks the length only and the handler does not
  return on it. On a fresh server the join of Ada with colour purple creates player 1 with
  colour purple.
\<close>

theorem purple_join_is_accepted:
  "''purple'' \<notin> set [''red'', ''blue'', ''green'', ''black'']
   \<and> clients GameServer_new = []
   \<and> (case map_of (clients (HandleJoinRequest purple_join 10 20 1200 0 GameServer_new)) 1 of
         None \<Rightarrow> False
       | Some c \<Rightarrow> color (playerData c) = ''purple'' \<and> playerName (playerData c) = ''Ada''
                    \<and> isActive c)"
  using HandleJoinRequest_new_player
    [where msg = purple_join and s = GameServer_new and clientIP = 10 and clientPort = 20
       and now = 1200 and pick = 0]
  by (auto simp: purple_join_def GameServer_new_def IsValidPlayerName_def
      MAX_PLAYER_NAME_LENGTH_def FindPlayerByAddress_def)

text \<open>
  Claim C2, amended. A Join whose name is invalid (empty or longer than 50 characters) is
  rejected entirely: no client is created or changed, no id is consumed and nothing is
  sent. There is no colour whitelist: a Join with a valid name from a new address whose
  preferred colour is non-empty and at most 20 characters long creates an active player
  with exactly that colour.
\<close>

theorem HandleJoinRequest_checks_name_only:
  "(\<not> IsValidPlayerName (join_playerName msg) \<longrightarrow>
      clients (HandleJoinRequest msg clientIP clientPort now pick s) = clients s
      \<and> nextPlayerId (HandleJoinRequest msg clientIP clientPort now pick s) = nextPlayerId s
      \<and> outbox (HandleJoinRequest msg clientIP clientPort now pick s) = outbox s)
   \<and> (IsValidPlayerName (join_playerName msg) \<and> IsValidColor (join_preferredColor msg)
       \<and> FindPlayerByAddress s clientIP clientPort = 0 \<longrightarrow>
      (\<exists>c. map_of (clients (HandleJoinRequest msg clientIP clientPort now pick s)) (nextPlayerId s) = Some c
          \<and> color (playerData c) = join_preferredColor msg
          \<and> playerName (playerData c) = join_playerName msg
          \<and> isActive c))"
  using HandleJoinRequest_new_player
    [where msg = msg and s = s and clientIP = clientIP and clientPort = clientPort
       and now = now and pick = pick]
  by (simp add: HandleJoinRequest_invalid_name printMsg_def IsValidColor_def)

theorem HandleJoinRequest_checks_name_only_witness:
  "clients (HandleJoinRequest nameless_join 10 20 1200 0 GameServer_new) = []
   \<and> outbox (HandleJoinRequest nameless_join 10 20 1200 0 GameServer_new) = []
   \<and> (\<exists>c. map_of (clients (HandleJoinRequest purple_join 10 20 1200 0 GameServer_new)) 1 = Some c
          \<and> color (playerData c) = ''purple'')"
  using HandleJoinRequest_checks_name_only
    [where msg = nameless_join and s = GameServer_new and clientIP = 10 and clientPort = 20
       and now = 1200 and pick = 0]
    HandleJoinRequest_checks_name_only
    [where msg = purple_join and s = GameServer_new and clientIP = 10 and clientPort = 20
       and now = 1200 and pick = 0]
  by (auto simp add: purple_join_def nameless_join_def GameServer_new_def IsValidPlayerName_def
      IsValidColor_def MAX_PLAYER_NAME_LENGTH_def MAX_COLOR_NAME_LENGTH_def FindPlayerByAddress_def)

section \<open>Player movement (\<^verbatim>\<open>GameServer::SimulatePlayerMovement\<close>)\<close>

definition MOVEMENT_SPEED :: real where "MOVEMENT_SPEED = 150"
definition ROTATION_SPEED :: real where "ROTATION_SPEED = 200"

text \<open>
  The body of the loop over the clients, for one active client's player data. The
  direction is taken from the rotation after normalisation, with the source's constant
  \<^verbatim>\<open>3.14159f\<close> for \<open>\<pi>\<close>.
\<close>

definition simulate_player :: "real \<Rightarrow> PlayerData \<Rightarrow> PlayerData" where
  "simulate_player deltaTime player =
     (let p1 = (if isMoving_left player
                then player\<lparr>bodyRotation := bodyRotation player - ROTATION_SPEED * deltaTime\<rparr>
                else if isMoving_right player
                then player\<lparr>bodyRotation := bodyRotation player + ROTATION_SPEED * deltaTime\<rparr>
                else player);
          p2 = p1\<lparr>bodyRotation := lower_rotation (raise_rotation (bodyRotation p1))\<rparr>;
          radians = bodyRotation p2 * 3.14159 / 180;
          dirX = cos radians;
          dirY = sin radians;
          p3 = (if isMoving_forward p2
                then p2\<lparr>x := x p2 + dirX * MOVEMENT_SPEED * deltaTime,
                        y := y p2 + dirY * MOVEMENT_SPEED * deltaTime\<rparr>
                else if isMoving_backward p2
                then p2\<lparr>x := x p2 - dirX * MOVEMENT_SPEED * deltaTime,
                        y := y p2 - dirY * MOVEMENT_SPEED * deltaTime\<rparr>
                else p2)
      in p3\<lparr>x := max MOVEMENT_MIN_X (min MOVEMENT_MAX_X (x p3)),
             y := max MOVEMENT_MIN_Y (min MOVEMENT_MAX_Y (y p3))\<rparr>)"

definition SimulatePlayerMovement :: "real \<Rightarrow> GameServer \<Rightarrow> GameServer" where
  "SimulatePlayerMovement deltaTime s =
     s\<lparr>clients := map (\<lambda>(pid, client).
                          (pid, if \<not> isActive client then client
                                else client\<lparr>playerData := simulate_player deltaTime (playerData client)\<rparr>))
                     (clients s)\<rparr>"

text \<open>
  The claim's two increments, in its own words: \<open>-200\<cdot>dt\<close> and \<open>+200\<cdot>dt\<close> degrees for left and right,
  \<open>+150\<cdot>dt\<close> and \<open>-150\<cdot>dt\<close> units for forward and backward, the first flag of each pair winning.
\<close>

definition turn_of :: "real \<Rightarrow> PlayerData \<Rightarrow> real" where
  "turn_of deltaTime player =
     (if isMoving_left player then - 200 * deltaTime
      else if isMoving_right player then 200 * deltaTime else 0)"

definition advance_of :: "real \<Rightarrow> PlayerData \<Rightarrow> real" where
  "advance_of deltaTime player =
     (if isMoving_forward player then 150 * deltaTime
      else if isMoving_backward player then - (150 * deltaTime) else 0)"

lemma simulate_player_rotation:
  "bodyRotation (simulate_player dt p) = lower_rotation (raise_rotation (bodyRotation p + turn_of dt p))"
  by (simp add: simulate_player_def Let_def turn_of_def ROTATION_SPEED_def)

lemma simulate_player_x:
  "x (simulate_player dt p)
     = max MOVEMENT_MIN_X (min MOVEMENT_MAX_X
         (x p + advance_of dt p * cos (bodyRotation (simulate_player dt p) * 3.14159 / 180)))"
  by (simp add: simulate_player_def Let_def advance_of_def MOVEMENT_SPEED_def mult_ac)

lemma simulate_player_y:
  "y (simulate_player dt p)
     = max MOVEMENT_MIN_Y (min MOVEMENT_MAX_Y
         (y p + advance_of dt p * sin (bodyRotation (simulate_player dt p) * 3.14159 / 180)))"
  by (simp add: simulate_player_def Let_def advance_of_def MOVEMENT_SPEED_def mult_ac)

lemma map_of_simulated:
  "map_of (clients (SimulatePlayerMovement dt s)) pid
     = map_option (\<lambda>client. if \<not> isActive client then client
                            else client\<lparr>playerData := simulate_player dt (playerData client)\<rparr>)
         (map_of (clients s) pid)"
  by (simp add: SimulatePlayerMovement_def map_of_synced)

text \<open>
  Claim C4. In a tick with time step \<open>dt\<close>, every active player's body rotation changes
  by \<open>-200\<cdot>dt\<close> if the left flag is set (else by \<open>+200\<cdot>dt\<close> if the right flag is set)
  and is then normalised into \<open>[0, 360)\<close>; the position advances \<open>150\<cdot>dt\<close> along
  \<open>(cos, sin)\<close> of the new body rotation if the forward flag is set (backward subtracts
  the same); and the result is clamped into the movement rectangle. Nothing else of the
  client changes.
\<close>

theorem SimulatePlayerMovement_step:
  assumes "map_of (clients s) pid = Some client" and "isActive client"
  shows "map_of (clients (SimulatePlayerMovement dt s)) pid
           = Some (client\<lparr>playerData := simulate_player dt (playerData client)\<rparr>)
      \<and> bodyRotation (simulate_player dt (playerData client))
          = lower_rotation (raise_rotation
              (bodyRotation (playerData client) + turn_of dt (playerData client)))
      \<and> 0 \<le> bodyRotation (simulate_player dt (playerData client))
      \<and> bodyRotation (simulate_player dt (playerData client)) < 360
      \<and> x (simulate_player dt (playerData client))
          = max MOVEMENT_MIN_X (min MOVEMENT_MAX_X
              (x (playerData client) + advance_of dt (playerData client)
                 * cos (bodyRotation (simulate_player dt (playerData client)) * 3.14159 / 180)))
      \<and> y (simulate_player dt (playerData client))
          = max MOVEMENT_MIN_Y (min MOVEMENT_MAX_Y
              (y (playerData client) + advance_of dt (playerData client)
                 * sin (bodyRotation (simulate_player dt (playerData client)) * 3.14159 / 180)))
      \<and> MOVEMENT_MIN_X \<le> x (simulate_player dt (playerData client))
      \<and> x (simulate_player dt (playerData client)) \<le> MOVEMENT_MAX_X
      \<and> MOVEMENT_MIN_Y \<le> y (simulate_player dt (playerData client))
      \<and> y (simulate_player dt (playerData client)) \<le> MOVEMENT_MAX_Y"
proof -
  let ?p = "simulate_player dt (playerData client)"
  have rng: "0 \<le> bodyRotation ?p \<and> bodyRotation ?p < 360"
    using wrap_range [of "bodyRotation (playerData client) + turn_of dt (playerData client)"]
    by (simp only: simulate_player_rotation normalise_loops)
  have bx: "MOVEMENT_MIN_X \<le> x ?p \<and> x ?p \<le> MOVEMENT_MAX_X"
    by (simp add: simulate_player_x world_constants)
  have by': "MOVEMENT_MIN_Y \<le> y ?p \<and> y ?p \<le> MOVEMENT_MAX_Y"
    by (simp add: simulate_player_y world_constants)
  from assms have "map_of (clients (SimulatePlayerMovement dt s)) pid
      = Some (client\<lparr>playerData := ?p\<rparr>)"
    by (simp add: map_of_simulated)
  with rng bx by' simulate_player_rotation [of dt "playerData client"]
    simulate_player_x [of dt "playerData client"] simulate_player_y [of dt "playerData client"]
  show ?thesis by (simp only: simp_thms)
qed

definition edge_player :: PlayerData where
  "edge_player = PlayerData_default\<lparr>playerId := 1, x := 1206, y := 480, isMoving_forward := True\<rparr>"

definition edge_client :: ClientInfo where
  "edge_client = (ClientInfo_new 10 20)\<lparr>playerData := edge_player\<rparr>"

definition edge_server :: GameServer where
  "edge_server = GameServer_new\<lparr>clients := [(1, edge_client)]\<rparr>"

lemma edge_player_fields:
  "bodyRotation edge_player = 0" "x edge_player = 1206" "y edge_player = 480"
  "turn_of dt edge_player = 0" "advance_of dt edge_player = 150 * dt"
  by (simp_all add: edge_player_def PlayerData_default_def turn_of_def advance_of_def)

theorem SimulatePlayerMovement_step_witness:
  "map_of (clients (SimulatePlayerMovement (1 / 60) edge_server)) 1
     = Some (edge_client\<lparr>playerData := simulate_player (1 / 60) edge_player\<rparr>)
   \<and> bodyRotation (simulate_player (1 / 60) edge_player) = 0
   \<and> x (simulate_player (1 / 60) edge_player) = 1207
   \<and> y (simulate_player (1 / 60) edge_player) = 480"
proof -
  have lookup: "map_of (clients edge_server) 1 = Some edge_client"
    by (simp add: edge_server_def)
  have active: "isActive edge_client"
    by (simp add: edge_client_def ClientInfo_new_def)
  have pd: "playerData edge_client = edge_player"
    by (simp add: edge_client_def)
  have rot: "lower_rotation (raise_rotation 0) = 0"
    by (simp add: normalise_loops)
  from SimulatePlayerMovement_step [OF lookup active, of "1 / 60"] show ?thesis
    by (simp add: pd edge_player_fields rot world_constants)
qed


section \<open>Death and respawn (\<^verbatim>\<open>game_server.cpp\<close>)\<close>

definition RESPAWN_COOLDOWN :: real where "RESPAWN_COOLDOWN = 5"
definition DEATH_PENALTY :: "32 word" where "DEATH_PENALTY = 100"

text \<open>
  Both broadcasts return at once when there are no clients; otherwise they take the next
  outgoing sequence number and send one packet to every active client.
\<close>

definition broadcast :: "packet \<Rightarrow> GameServer \<Rightarrow> GameServer" where
  "broadcast pkt s =
     fold (\<lambda>(pid, client) st.
             if isActive client then send pkt (address client) (port client) st else st)
       (clients s) s"

definition BroadcastPlayerDeath ::
    "32 word \<Rightarrow> 32 word \<Rightarrow> real \<times> real \<Rightarrow> 32 word \<Rightarrow> int \<Rightarrow> GameServer \<Rightarrow> GameServer" where
  "BroadcastPlayerDeath pid killerId deathPos scorePenalty now s =
     (if clients s = [] then s
      else broadcast
             (PLAYER_DEATH pid killerId (fst deathPos) (snd deathPos) scorePenalty now
                (outgoingSequenceNumber s))
             (s\<lparr>outgoingSequenceNumber := outgoingSequenceNumber s + 1\<rparr>))"

definition BroadcastPlayerRespawn ::
    "32 word \<Rightarrow> real \<times> real \<Rightarrow> real \<Rightarrow> int \<Rightarrow> GameServer \<Rightarrow> GameServer" where
  "BroadcastPlayerRespawn pid spawnPos hp now s =
     (if clients s = [] then s
      else broadcast
             (PLAYER_RESPAWN pid (fst spawnPos) (snd spawnPos) hp now (outgoingSequenceNumber s))
             (s\<lparr>outgoingSequenceNumber := outgoingSequenceNumber s + 1\<rparr>))"

text \<open>
  \<^verbatim>\<open>HandlePlayerDeath\<close>. The score is \<^verbatim>\<open>int32_t\<close>: a 32-bit word read as two's
  complement by \<open>sint\<close>.
\<close>

definition HandlePlayerDeath :: "32 word \<Rightarrow> 32 word \<Rightarrow> int \<Rightarrow> GameServer \<Rightarrow> GameServer" where
  "HandlePlayerDeath pid killerId now s =
     (case map_of (clients s) pid of
        None \<Rightarrow> s
      | Some client \<Rightarrow>
          if \<not> isActive client then s
          else
            let deathPos = (x (playerData client), y (playerData client));
                oldScore = client_score client;
                lowered = oldScore - DEATH_PENALTY;
                newScore = (if sint lowered < 0 then 0 else lowered);
                c1 = client\<lparr>client_isDead := True, deathTimer := RESPAWN_COOLDOWN,
                            client_score := newScore,
                            playerData := (playerData client)\<lparr>isDead := True, score := newScore,
                                                              health := 0\<rparr>\<rparr>;
                actualPenalty = oldScore - newScore
            in BroadcastPlayerDeath pid killerId deathPos actualPenalty now
                 (s\<lparr>clients := AList.update pid c1 (clients s)\<rparr>))"

text \<open>The body of the loop of \<^verbatim>\<open>CheckPlayerDeaths\<close> for the client with key \<open>pid\<close>.\<close>

definition check_player_death :: "32 word \<Rightarrow> int \<Rightarrow> GameServer \<Rightarrow> GameServer" where
  "check_player_death pid now s =
     (case map_of (clients s) pid of
        None \<Rightarrow> s
      | Some client \<Rightarrow>
          if \<not> isActive client \<or> client_isDead client then s
          else if health (playerData client) \<le> 0 then HandlePlayerDeath pid 0 now s
          else s)"

definition CheckPlayerDeaths :: "int \<Rightarrow> GameServer \<Rightarrow> GameServer" where
  "CheckPlayerDeaths now s = fold (\<lambda>(pid, client) st. check_player_death pid now st) (clients s) s"

definition MAX_ATTEMPTS :: nat where "MAX_ATTEMPTS = 10"
definition MIN_SAFE_DISTANCE :: real where "MIN_SAFE_DISTANCE = 200"

definition distSq :: "real \<times> real \<Rightarrow> real \<times> real \<Rightarrow> real" where
  "distSq p q = (fst p - fst q) * (fst p - fst q) + (snd p - snd q) * (snd p - snd q)"

text \<open>
  The \<^verbatim>\<open>isSafe\<close> flag of one attempt of \<^verbatim>\<open>GetRandomRespawnPosition\<close>: no living enemy
  and no active, living player is closer than 200.
\<close>

definition isSafe :: "GameServer \<Rightarrow> real \<times> real \<Rightarrow> bool" where
  "isSafe s candidatePos =
     (list_all (\<lambda>(enemyId, enemy).
                  IsDead enemy
                  \<or> \<not> distSq candidatePos (position enemy) < MIN_SAFE_DISTANCE * MIN_SAFE_DISTANCE)
        (enemies s)
      \<and> list_all (\<lambda>(pid, client).
                  \<not> isActive client \<or> client_isDead client
                  \<or> \<not> distSq candidatePos (x (playerData client), y (playerData client))
                        < MIN_SAFE_DISTANCE * MIN_SAFE_DISTANCE)
          (clients s))"

text \<open>
  \<open>draw n\<close> is the candidate the random generator yields at attempt \<open>n\<close>; the loop returns
  the first safe one of attempts 0 to 9 and the world centre when there is none.
\<close>

definition GetRandomRespawnPosition :: "(nat \<Rightarrow> real \<times> real) \<Rightarrow> GameServer \<Rightarrow> real \<times> real" where
  "GetRandomRespawnPosition draw s =
     (case List.find (isSafe s) (map draw [0..<MAX_ATTEMPTS]) of
        Some candidatePos \<Rightarrow> candidatePos
      | None \<Rightarrow> (CENTER_X, CENTER_Y))"

definition RespawnPlayer ::
    "32 word \<Rightarrow> int \<Rightarrow> (nat \<Rightarrow> real \<times> real) \<Rightarrow> GameServer \<Rightarrow> GameServer" where
  "RespawnPlayer pid now draw s =
     (case map_of (clients s) pid of
        None \<Rightarrow> s
      | Some client \<Rightarrow>
          if \<not> isActive client then s
          else
            let spawnPos = GetRandomRespawnPosition draw s;
                c1 = client\<lparr>client_isDead := False, deathTimer := 0,
                            playerData := (playerData client)
                              \<lparr>isDead := False, health := maxHealth (playerData client),
                               x := fst spawnPos, y := snd spawnPos,
                               bodyRotation := 0, barrelRotation := 0,
                               isMoving_forward := False, isMoving_backward := False,
                               isMoving_left := False, isMoving_right := False\<rparr>\<rparr>
            in BroadcastPlayerRespawn pid spawnPos (health (playerData c1)) now
                 (s\<lparr>clients := AList.update pid c1 (clients s)\<rparr>))"

text \<open>The body of the loop of \<^verbatim>\<open>UpdateDeadPlayers\<close> for the client with key \<open>pid\<close>.\<close>

definition update_dead_player ::
    "32 word \<Rightarrow> real \<Rightarrow> int \<Rightarrow> (nat \<Rightarrow> real \<times> real) \<Rightarrow> GameServer \<Rightarrow> GameServer" where
  "update_dead_player pid deltaTime now draw s =
     (case map_of (clients s) pid of
        None \<Rightarrow> s
      | Some client \<Rightarrow>
          if \<not> isActive client \<or> \<not> client_isDead client then s
          else
            let c1 = client\<lparr>deathTimer := deathTimer client - deltaTime\<rparr>;
                s1 = s\<lparr>clients := AList.update pid c1 (clients s)\<rparr>
            in if deathTimer c1 \<le> 0 then RespawnPlayer pid now draw s1 else s1)"

text \<open>
  \<^verbatim>\<open>UpdateDeadPlayers\<close> is the loop below over all entries of the map; \<open>draws pid\<close> is the
  sequence of candidates generated for the respawn of \<open>pid\<close>.
\<close>

definition UpdateDeadPlayers_loop ::
    "(32 word \<times> ClientInfo) list \<Rightarrow> real \<Rightarrow> int \<Rightarrow> (32 word \<Rightarrow> nat \<Rightarrow> real \<times> real)
       \<Rightarrow> GameServer \<Rightarrow> GameServer" where
  "UpdateDeadPlayers_loop entries deltaTime now draws s =
     fold (\<lambda>(pid, client) st. update_dead_player pid deltaTime now (draws pid) st) entries s"

definition UpdateDeadPlayers ::
    "real \<Rightarrow> int \<Rightarrow> (32 word \<Rightarrow> nat \<Rightarrow> real \<times> real) \<Rightarrow> GameServer \<Rightarrow> GameServer" where
  "UpdateDeadPlayers deltaTime now draws s = UpdateDeadPlayers_loop (clients s) deltaTime now draws s"

definition dying_client :: ClientInfo where
  "dying_client =
     (ClientInfo_new 10 20)
       \<lparr>client_score := 30,
        playerData := PlayerData_default\<lparr>playerId := 1, x := 640, y := 480, health := 0, score := 30\<rparr>\<rparr>"

definition red_enemy :: EnemyTank where
  "red_enemy =
     \<lparr>enemyType = RED, position = (600, 480), enemy_bodyRotation = 0, enemy_barrelRotation = 0,
      currentHealth = 100, enemy_maxHealth = 100, currentAIState = PATROL, shootCooldown = 0,
      shootCooldownTime = 1.5, barrelLength = 20, baseAccuracy = 0.6, accuracySpreadAngle = 15,
      lastShotTime = 0, shotsInBurst = 0, maxBurstSize = 3\<rparr>"

definition dying_server :: GameServer where
  "dying_server = GameServer_new\<lparr>clients := [(1, dying_client)], nextPlayerId := 2,
                                 enemies := [(1000, red_enemy)], nextEnemyId := 1001\<rparr>"

definition two_draws :: "nat \<Rightarrow> real \<times> real" where
  "two_draws n = (if n = 0 then (640, 480) else (200, 200))"

text \<open>
  The claim's requirement on a respawn position, in its own words: at least 200 units
  (Euclidean distance) from every living enemy and every active, living player.
\<close>

definition safe_distance :: "GameServer \<Rightarrow> real \<times> real \<Rightarrow> bool" where
  "safe_distance s p =
     ((\<forall>(enemyId, enemy) \<in> set (enemies s).
          \<not> IsDead enemy \<longrightarrow> 200 \<le> sqrt (distSq p (position enemy)))
      \<and> (\<forall>(pid, client) \<in> set (clients s).
          isActive client \<and> \<not> client_isDead client \<longrightarrow>
            200 \<le> sqrt (distSq p (x (playerData client), y (playerData client)))))"

definition dead_client :: ClientInfo where
  "dead_client =
     (ClientInfo_new 10 20)
       \<lparr>client_score := 0, client_isDead := True, deathTimer := 5,
        playerData := PlayerData_default\<lparr>playerId := 1, x := 640, y := 480, health := 0,
                                          isDead := True\<rparr>\<rparr>"

definition dead_server :: GameServer where
  "dead_server = GameServer_new\<lparr>clients := [(1, dead_client)], nextPlayerId := 2,
                                enemies := [(1000, red_enemy)], nextEnemyId := 1001,
                                outgoingSequenceNumber := 1\<rparr>"

lemma sqrt_ge_200: "200 \<le> sqrt v \<longleftrightarrow> 40000 \<le> v"
proof -
  have "sqrt 40000 = 200" by (rule real_sqrt_unique) simp_all
  then have "200 \<le> sqrt v \<longleftrightarrow> sqrt 40000 \<le> sqrt v" by simp
  then show ?thesis by (simp only: real_sqrt_le_iff)
qed

lemma isSafe_iff: "isSafe s p = safe_distance s p"
  by (auto simp: isSafe_def safe_distance_def list_all_iff sqrt_ge_200 MIN_SAFE_DISTANCE_def
      not_less)

lemma clients_broadcast [simp]: "clients (broadcast pkt s) = clients s"
  unfolding broadcast_def by (rule send_fold_clients [where f = "\<lambda>_. pkt"])

lemma outbox_broadcast:
  "outbox (broadcast pkt s)
     = outbox s @ map (\<lambda>(pid, client). (pkt, address client, port client))
                    (filter (\<lambda>(pid, client). isActive client) (clients s))"
  unfolding broadcast_def by (rule send_fold_outbox)

lemma enemies_broadcast [simp]: "enemies (broadcast pkt s) = enemies s"
proof -
  have "enemies (fold (\<lambda>(pid, client) st.
                   if isActive client then send pkt (address client) (port client) st else st) xs st)
          = enemies st" for xs st
    by (induction xs arbitrary: st) (auto simp: send_def)
  then show ?thesis by (simp add: broadcast_def)
qed

text \<open>
  The score is \<^verbatim>\<open>int32_t\<close>; the subtraction of the penalty is exact unless it
  overflows, which in C++ is undefined.
\<close>

lemma penalty_no_overflow:
  fixes sc :: "32 word"
  assumes "- 2147483548 \<le> sint sc"
  shows "sint (sc - 100) = sint sc - 100"
proof -
  have up: "sint sc < 2 ^ 31" using sint_lt [of sc] by simp
  have "sint (sc - 100) = signed_take_bit 31 (sint sc - sint (100 :: 32 word))"
    by (simp add: sint_word_ariths)
  also have "sint (100 :: 32 word) = 100" by simp
  also have "signed_take_bit 31 (sint sc - 100) = sint sc - 100"
    using assms up by (intro signed_take_bit_int_eq_self) simp_all
  finally show ?thesis .
qed

subsection \<open>The loop of \<^verbatim>\<open>CheckPlayerDeaths\<close>\<close>

lemma check_player_death_dies:
  assumes "map_of (clients s) pid = Some client" and "isActive client"
    and "\<not> client_isDead client" and "health (playerData client) \<le> 0"
  shows "\<exists>c'. map_of (clients (check_player_death pid now s)) pid = Some c'
           \<and> client_isDead c' \<and> isDead (playerData c') \<and> health (playerData c') = 0
           \<and> deathTimer c' = 5
           \<and> (- 2147483548 \<le> sint (client_score client) \<longrightarrow>
                sint (client_score c') = max 0 (sint (client_score client) - 100))
           \<and> score (playerData c') = client_score c'"
  using assms penalty_no_overflow [of "client_score client"]
  by (simp add: check_player_death_def HandlePlayerDeath_def BroadcastPlayerDeath_def Let_def
      update_conv' RESPAWN_COOLDOWN_def DEATH_PENALTY_def)

lemma check_player_death_other:
  assumes "k \<noteq> pid"
  shows "map_of (clients (check_player_death k now st)) pid = map_of (clients st) pid"
  using assms
  by (simp add: check_player_death_def HandlePlayerDeath_def BroadcastPlayerDeath_def Let_def
      update_conv' split: option.splits)

lemma check_player_death_dead:
  assumes "map_of (clients st) pid = Some c" and "client_isDead c"
  shows "map_of (clients (check_player_death k now st)) pid = Some c"
proof (cases "k = pid")
  case True
  with assms show ?thesis by (simp add: check_player_death_def)
next
  case False
  with assms(1) show ?thesis by (simp add: check_player_death_other)
qed

lemma CheckPlayerDeaths_dead:
  assumes "map_of (clients st) pid = Some c" and "client_isDead c"
  shows "map_of (clients (fold (\<lambda>(k, c) st. check_player_death k now st) entries st)) pid = Some c"
  using assms
  by (induction entries arbitrary: st) (auto simp: check_player_death_dead)

lemma CheckPlayerDeaths_dies:
  assumes "map_of (clients st) pid = Some client" and "isActive client"
    and "\<not> client_isDead client" and "health (playerData client) \<le> 0"
    and "pid \<in> fst ` set entries"
  shows "\<exists>c'. map_of (clients (fold (\<lambda>(k, c) st. check_player_death k now st) entries st)) pid = Some c'
           \<and> client_isDead c' \<and> isDead (playerData c') \<and> health (playerData c') = 0
           \<and> deathTimer c' = 5
           \<and> (- 2147483548 \<le> sint (client_score client) \<longrightarrow>
                sint (client_score c') = max 0 (sint (client_score client) - 100))
           \<and> score (playerData c') = client_score c'"
  using assms
proof (induction entries arbitrary: st)
  case Nil
  then show ?case by simp
next
  case (Cons e entries)
  obtain k c where e: "e = (k, c)" by (cases e)
  show ?case
  proof (cases "k = pid")
    case True
    from check_player_death_dies [OF Cons.prems(1-4), of now]
    obtain c' where c': "map_of (clients (check_player_death pid now st)) pid = Some c'"
        "client_isDead c'" "isDead (playerData c')" "health (playerData c') = 0"
        "deathTimer c' = 5"
        "- 2147483548 \<le> sint (client_score client) \<longrightarrow>
           sint (client_score c') = max 0 (sint (client_score client) - 100)"
        "score (playerData c') = client_score c'"
      by blast
    from CheckPlayerDeaths_dead [OF c'(1,2), of now entries] c'(2-7) True e
    show ?thesis by simp
  next
    case False
    with Cons.prems(5) e have "pid \<in> fst ` set entries" by auto
    moreover from False Cons.prems(1)
    have "map_of (clients (check_player_death k now st)) pid = Some client"
      by (simp add: check_player_death_other)
    ultimately show ?thesis
      using Cons.IH [of "check_player_death k now st"] Cons.prems(2-4) e by simp
  qed
qed

subsection \<open>The loop of \<^verbatim>\<open>UpdateDeadPlayers\<close>\<close>

lemma update_dead_player_timer:
  assumes "map_of (clients s) pid = Some client" and "isActive client" and "client_isDead client"
  shows "update_dead_player pid dt now draw s
           = (if deathTimer client - dt \<le> 0
              then RespawnPlayer pid now draw
                     (s\<lparr>clients := AList.update pid (client\<lparr>deathTimer := deathTimer client - dt\<rparr>) (clients s)\<rparr>)
              else s\<lparr>clients := AList.update pid (client\<lparr>deathTimer := deathTimer client - dt\<rparr>) (clients s)\<rparr>)"
  using assms by (simp add: update_dead_player_def Let_def)

lemma GetRandomRespawnPosition_cases:
  "(\<exists>n<10. GetRandomRespawnPosition draw s = draw n \<and> isSafe s (draw n)
        \<and> (\<forall>m<n. \<not> isSafe s (draw m)))
   \<or> ((\<forall>n<10. \<not> isSafe s (draw n)) \<and> GetRandomRespawnPosition draw s = (640, 480))"
proof (cases "List.find (isSafe s) (map draw [0..<MAX_ATTEMPTS])")
  case None
  then have "\<forall>n<10. \<not> isSafe s (draw n)"
    by (auto simp: find_None_iff MAX_ATTEMPTS_def)
  with None show ?thesis
    by (simp add: GetRandomRespawnPosition_def world_constants)
next
  case (Some p)
  then obtain i where "i < 10" "isSafe s (draw i)" "p = draw i" "\<forall>j<i. \<not> isSafe s (draw j)"
    by (auto simp: find_Some_iff MAX_ATTEMPTS_def)
  with Some show ?thesis
    by (auto simp: GetRandomRespawnPosition_def)
qed

lemma destinations_update:
  assumes "map_of al k = Some v0" and "isActive v = isActive v0"
    and "address v = address v0" and "port v = port v0"
  shows "map (\<lambda>(pid, client). (pkt, address client, port client))
            (filter (\<lambda>(pid, client). isActive client) (AList.update k v al))
       = map (\<lambda>(pid, client). (pkt, address client, port client))
            (filter (\<lambda>(pid, client). isActive client) al)"
  using assms by (induction al) (auto split: if_splits)

lemma RespawnPlayer_respawns:
  assumes found: "map_of (clients s) pid = Some client" and active: "isActive client"
  shows "\<exists>c'. map_of (clients (RespawnPlayer pid now draw s)) pid = Some c'
           \<and> \<not> client_isDead c' \<and> \<not> isDead (playerData c')
           \<and> health (playerData c') = maxHealth (playerData client)
           \<and> (x (playerData c'), y (playerData c')) = GetRandomRespawnPosition draw s"
    and "outbox (RespawnPlayer pid now draw s)
           = outbox s @ map (\<lambda>(id, c).
                 (PLAYER_RESPAWN pid (fst (GetRandomRespawnPosition draw s))
                    (snd (GetRandomRespawnPosition draw s)) (maxHealth (playerData client)) now
                    (outgoingSequenceNumber s),
                  address c, port c))
               (filter (\<lambda>(id, c). isActive c) (clients s))"
proof -
  from found have ne: "clients s \<noteq> []" by auto
  then have ne': "AList.update pid c (clients s) \<noteq> []" for c
    by (cases "clients s") (auto split: if_splits)
  from found active show "\<exists>c'. map_of (clients (RespawnPlayer pid now draw s)) pid = Some c'
           \<and> \<not> client_isDead c' \<and> \<not> isDead (playerData c')
           \<and> health (playerData c') = maxHealth (playerData client)
           \<and> (x (playerData c'), y (playerData c')) = GetRandomRespawnPosition draw s"
    by (simp add: RespawnPlayer_def BroadcastPlayerRespawn_def Let_def update_conv')
  from found active ne' show "outbox (RespawnPlayer pid now draw s)
           = outbox s @ map (\<lambda>(id, c).
                 (PLAYER_RESPAWN pid (fst (GetRandomRespawnPosition draw s))
                    (snd (GetRandomRespawnPosition draw s)) (maxHealth (playerData client)) now
                    (outgoingSequenceNumber s),
                  address c, port c))
               (filter (\<lambda>(id, c). isActive c) (clients s))"
    by (simp add: RespawnPlayer_def BroadcastPlayerRespawn_def Let_def outbox_broadcast
        destinations_update [OF found])
qed

text \<open>What one pass of the loop leaves alone.\<close>

lemma RespawnPlayer_other:
  assumes "k \<noteq> pid"
  shows "map_of (clients (RespawnPlayer k now draw st)) pid = map_of (clients st) pid"
  using assms
  by (simp add: RespawnPlayer_def BroadcastPlayerRespawn_def Let_def update_conv'
      split: option.splits)

lemma update_dead_player_other:
  assumes "k \<noteq> pid"
  shows "map_of (clients (update_dead_player k dt now draw st)) pid = map_of (clients st) pid"
  using assms
  by (simp add: update_dead_player_def Let_def update_conv' RespawnPlayer_other
      split: option.splits)

lemma update_dead_player_alive:
  assumes "map_of (clients st) pid = Some c" and "\<not> client_isDead c"
  shows "map_of (clients (update_dead_player k dt now draw st)) pid = Some c"
proof (cases "k = pid")
  case True
  with assms show ?thesis by (simp add: update_dead_player_def)
next
  case False
  with assms(1) show ?thesis by (simp add: update_dead_player_other)
qed

lemma enemies_RespawnPlayer [simp]: "enemies (RespawnPlayer k now draw st) = enemies st"
  by (simp add: RespawnPlayer_def BroadcastPlayerRespawn_def Let_def split: option.splits)

lemma enemies_update_dead_player [simp]:
  "enemies (update_dead_player k dt now draw st) = enemies st"
  by (simp add: update_dead_player_def Let_def split: option.splits)

lemma outbox_RespawnPlayer: "set (outbox st) \<subseteq> set (outbox (RespawnPlayer k now draw st))"
  by (auto simp: RespawnPlayer_def BroadcastPlayerRespawn_def Let_def outbox_broadcast
      split: option.splits)

lemma outbox_update_dead_player:
  "set (outbox st) \<subseteq> set (outbox (update_dead_player k dt now draw st))"
proof -
  have "set (outbox st) \<subseteq> set (outbox (RespawnPlayer k now draw (st\<lparr>clients := al\<rparr>)))" for al
    using outbox_RespawnPlayer [of "st\<lparr>clients := al\<rparr>" k now draw] by simp
  then show ?thesis
    by (simp add: update_dead_player_def Let_def split: option.splits)
qed

text \<open>Key, address, port and activity of every entry, in iteration order.\<close>

definition endpoints :: "GameServer \<Rightarrow> (32 word \<times> IpAddress \<times> Port \<times> bool) list" where
  "endpoints s = map (\<lambda>(pid, client). (pid, address client, port client, isActive client)) (clients s)"

lemma endpoints_update:
  assumes "map_of al k = Some v0" and "isActive v = isActive v0"
    and "address v = address v0" and "port v = port v0"
  shows "map (\<lambda>(pid, client). (pid, address client, port client, isActive client)) (AList.update k v al)
       = map (\<lambda>(pid, client). (pid, address client, port client, isActive client)) al"
  using assms by (induction al) (auto split: if_splits)

lemma endpoints_RespawnPlayer: "endpoints (RespawnPlayer k now draw st) = endpoints st"
  by (simp add: RespawnPlayer_def BroadcastPlayerRespawn_def Let_def endpoints_def endpoints_update
      split: option.splits)

lemma endpoints_update_dead_player: "endpoints (update_dead_player k dt now draw st) = endpoints st"
proof (cases "map_of (clients st) k")
  case None
  then show ?thesis by (simp add: update_dead_player_def)
next
  case (Some c)
  let ?s1 = "st\<lparr>clients := AList.update k (c\<lparr>deathTimer := deathTimer c - dt\<rparr>) (clients st)\<rparr>"
  have "endpoints ?s1 = endpoints st"
    using Some by (simp add: endpoints_def endpoints_update)
  with Some show ?thesis
    by (simp add: update_dead_player_def Let_def endpoints_RespawnPlayer)
qed

lemma UpdateDeadPlayers_loop_Nil [simp]: "UpdateDeadPlayers_loop [] dt now draws st = st"
  by (simp add: UpdateDeadPlayers_loop_def)

lemma UpdateDeadPlayers_loop_Cons [simp]:
  "UpdateDeadPlayers_loop ((k, c) # entries) dt now draws st
     = UpdateDeadPlayers_loop entries dt now draws (update_dead_player k dt now (draws k) st)"
  by (simp add: UpdateDeadPlayers_loop_def)

lemma UpdateDeadPlayers_loop_append:
  "UpdateDeadPlayers_loop (earlier @ later) dt now draws st
     = UpdateDeadPlayers_loop later dt now draws (UpdateDeadPlayers_loop earlier dt now draws st)"
  by (simp add: UpdateDeadPlayers_loop_def)

lemma UpdateDeadPlayers_loop_other:
  assumes "pid \<notin> fst ` set entries"
  shows "map_of (clients (UpdateDeadPlayers_loop entries dt now draws st)) pid = map_of (clients st) pid"
  using assms
  by (induction entries arbitrary: st) (auto simp: update_dead_player_other)

lemma UpdateDeadPlayers_loop_alive:
  assumes "map_of (clients st) pid = Some c" and "\<not> client_isDead c"
  shows "map_of (clients (UpdateDeadPlayers_loop entries dt now draws st)) pid = Some c"
  using assms
  by (induction entries arbitrary: st) (auto simp: update_dead_player_alive)

lemma UpdateDeadPlayers_loop_enemies [simp]:
  "enemies (UpdateDeadPlayers_loop entries dt now draws st) = enemies st"
  by (induction entries arbitrary: st) auto

lemma UpdateDeadPlayers_loop_endpoints:
  "endpoints (UpdateDeadPlayers_loop entries dt now draws st) = endpoints st"
  by (induction entries arbitrary: st) (auto simp: endpoints_update_dead_player)

lemma UpdateDeadPlayers_loop_outbox:
  "set (outbox st) \<subseteq> set (outbox (UpdateDeadPlayers_loop entries dt now draws st))"
proof (induction entries arbitrary: st)
  case Nil
  show ?case by simp
next
  case (Cons e entries)
  obtain k c where e: "e = (k, c)" by (cases e)
  from Cons [of "update_dead_player k dt now (draws k) st"]
    outbox_update_dead_player [of st k dt now "draws k"]
  show ?case unfolding e by auto
qed

text \<open>The timer of a dead player has no part in the choice of a respawn position.\<close>

lemma list_all_update:
  assumes "map_of al k = Some v0" and "P (k, v) = P (k, v0)"
  shows "list_all P (AList.update k v al) = list_all P al"
  using assms by (induction al) (auto split: if_splits)

lemma isSafe_timer:
  assumes "map_of (clients st) pid = Some c"
  shows "isSafe (st\<lparr>clients := AList.update pid (c\<lparr>deathTimer := t\<rparr>) (clients st)\<rparr>) p = isSafe st p"
  using assms by (simp add: isSafe_def list_all_update)

lemma GetRandomRespawnPosition_timer:
  assumes "map_of (clients st) pid = Some c"
  shows "GetRandomRespawnPosition draw (st\<lparr>clients := AList.update pid (c\<lparr>deathTimer := t\<rparr>) (clients st)\<rparr>)
           = GetRandomRespawnPosition draw st"
proof -
  have "isSafe (st\<lparr>clients := AList.update pid (c\<lparr>deathTimer := t\<rparr>) (clients st)\<rparr>) = isSafe st"
    using assms by (intro ext) (rule isSafe_timer)
  then show ?thesis by (simp add: GetRandomRespawnPosition_def)
qed

lemma entry_split:
  assumes "map_of al pid = Some client" and "distinct (map fst al)"
  obtains earlier later where "al = earlier @ (pid, client) # later"
    "pid \<notin> fst ` set earlier" "pid \<notin> fst ` set later"
proof -
  from assms(1) have "(pid, client) \<in> set al" by (rule map_of_SomeD)
  then obtain earlier later where al: "al = earlier @ (pid, client) # later"
    by (auto simp: in_set_conv_decomp)
  with assms(2) have "pid \<notin> fst ` set earlier" "pid \<notin> fst ` set later" by auto
  with al show ?thesis by (rule that)
qed

subsection \<open>The keys of the client map\<close>

text \<open>
  The association list that stands for \<^verbatim>\<open>clients\<close> has distinct keys; it starts empty
  and every function that writes it keeps the keys distinct.
\<close>

lemma fst_keyed: "fst \<circ> (\<lambda>(pid, client). (pid, f pid client)) = fst"
  by (simp add: fun_eq_iff)

lemma distinct_check_player_death:
  assumes "distinct (map fst (clients st))"
  shows "distinct (map fst (clients (check_player_death k now st)))"
  using assms
  by (simp add: check_player_death_def HandlePlayerDeath_def BroadcastPlayerDeath_def Let_def
      distinct_update split: option.splits)

lemma keys_endpoints: "map fst (endpoints s) = map fst (clients s)"
  unfolding endpoints_def by (induction "clients s" arbitrary: s) auto

lemma client_keys_distinct:
  assumes keys: "distinct (map fst (clients s))"
  shows "distinct (map fst (clients GameServer_new))"
    and "distinct (map fst (clients (HandleJoinRequest join clientIP clientPort stamp pick s)))"
    and "HandlePlayerInput msg clientIP clientPort stamp s = Some s' \<Longrightarrow> distinct (map fst (clients s'))"
    and "HandlePlayerUpdate upd clientIP clientPort s = Some s' \<Longrightarrow> distinct (map fst (clients s'))"
    and "distinct (map fst (clients (SendGameStateToAll stamp s)))"
    and "distinct (map fst (clients (SimulatePlayerMovement dt s)))"
    and "distinct (map fst (clients (CheckPlayerDeaths now s)))"
    and "distinct (map fst (clients (UpdateDeadPlayers dt now draws s)))"
proof -
  show "distinct (map fst (clients GameServer_new))"
    by (simp add: GameServer_new_def)
  have to_client: "distinct (map fst (clients (SendGameStateToClient k stamp t)))"
    if "distinct (map fst (clients t))" for k t
    using that by (simp add: clients_SendGameStateToClient fst_keyed split: option.splits)
  have to_all: "distinct (map fst (clients (SendGameStateToAll stamp t)))"
    if "distinct (map fst (clients t))" for t
    using that by (simp add: clients_SendGameStateToAll fst_keyed)
  from keys show "distinct (map fst (clients (SendGameStateToAll stamp s)))" by (rule to_all)
  from keys show "distinct (map fst (clients (HandleJoinRequest join clientIP clientPort stamp pick s)))"
    by (simp add: HandleJoinRequest_def Let_def to_all to_client SendPlayerIdAssignment_def
        distinct_update)
  from keys show "distinct (map fst (clients s'))"
    if "HandlePlayerInput msg clientIP clientPort stamp s = Some s'"
    using that
    by (auto simp: HandlePlayerInput_def Let_def SendInputAcknowledgment_def distinct_update
        split: if_splits option.splits)
  from keys show "distinct (map fst (clients s'))"
    if "HandlePlayerUpdate upd clientIP clientPort s = Some s'"
    using that
    by (auto simp: HandlePlayerUpdate_def Let_def distinct_update split: if_splits option.splits)
  from keys show "distinct (map fst (clients (SimulatePlayerMovement dt s)))"
    by (simp add: SimulatePlayerMovement_def fst_keyed)
  have "distinct (map fst (clients (fold (\<lambda>(k, c) st. check_player_death k now st) entries st)))"
    if "distinct (map fst (clients st))" for entries st
    using that by (induction entries arbitrary: st) (auto simp: distinct_check_player_death)
  with keys show "distinct (map fst (clients (CheckPlayerDeaths now s)))"
    by (simp add: CheckPlayerDeaths_def)
  have "map fst (clients (UpdateDeadPlayers dt now draws s)) = map fst (clients s)"
    unfolding UpdateDeadPlayers_def keys_endpoints [symmetric]
    by (simp add: UpdateDeadPlayers_loop_endpoints)
  with keys show "distinct (map fst (clients (UpdateDeadPlayers dt now draws s)))" by simp
qed

lemma UpdateDeadPlayers_at:
  assumes split: "clients s = earlier @ (pid, client) # later"
    and fresh: "pid \<notin> fst ` set earlier" "pid \<notin> fst ` set later"
    and found: "map_of (clients s) pid = Some client"
  shows "map_of (clients (UpdateDeadPlayers_loop earlier dt now draws s)) pid = Some client"
    and "map_of (clients (UpdateDeadPlayers dt now draws s)) pid
           = map_of (clients (update_dead_player pid dt now (draws pid)
                                (UpdateDeadPlayers_loop earlier dt now draws s))) pid"
    and "set (outbox (update_dead_player pid dt now (draws pid)
                        (UpdateDeadPlayers_loop earlier dt now draws s)))
           \<subseteq> set (outbox (UpdateDeadPlayers dt now draws s))"
proof -
  let ?st = "UpdateDeadPlayers_loop earlier dt now draws s"
  let ?st' = "update_dead_player pid dt now (draws pid) ?st"
  have whole: "UpdateDeadPlayers dt now draws s = UpdateDeadPlayers_loop later dt now draws ?st'"
    by (simp add: UpdateDeadPlayers_def split UpdateDeadPlayers_loop_append)
  from fresh(1) found show "map_of (clients ?st) pid = Some client"
    by (simp add: UpdateDeadPlayers_loop_other)
  from fresh(2) show "map_of (clients (UpdateDeadPlayers dt now draws s)) pid = map_of (clients ?st') pid"
    by (simp add: whole UpdateDeadPlayers_loop_other)
  show "set (outbox ?st') \<subseteq> set (outbox (UpdateDeadPlayers dt now draws s))"
    unfolding whole by (rule UpdateDeadPlayers_loop_outbox)
qed

lemma endpoints_member:
  assumes "(k, c) \<in> set (clients s)" and "endpoints t = endpoints s"
  shows "\<exists>d. (k, d) \<in> set (clients t) \<and> address d = address c \<and> port d = port c
             \<and> isActive d = isActive c"
proof -
  from assms(1) have "(k, address c, port c, isActive c) \<in> set (endpoints s)"
    by (force simp: endpoints_def)
  with assms(2) have "(k, address c, port c, isActive c) \<in> set (endpoints t)" by simp
  then show ?thesis by (auto simp: endpoints_def)
qed

lemma UpdateDeadPlayers_counts_down:
  assumes found: "map_of (clients s) pid = Some client" and active: "isActive client"
    and dead: "client_isDead client" and keys: "distinct (map fst (clients s))"
    and left: "0 < deathTimer client - dt"
  shows "map_of (clients (UpdateDeadPlayers dt now draws s)) pid
           = Some (client\<lparr>deathTimer := deathTimer client - dt\<rparr>)"
proof -
  from found keys obtain earlier later where split: "clients s = earlier @ (pid, client) # later"
      "pid \<notin> fst ` set earlier" "pid \<notin> fst ` set later"
    by (rule entry_split)
  let ?st = "UpdateDeadPlayers_loop earlier dt now draws s"
  note at = UpdateDeadPlayers_at [OF split found, of dt now draws]
  from left show ?thesis
    by (simp add: at(2) update_dead_player_timer [OF at(1) active dead] update_conv')
qed

lemma UpdateDeadPlayers_respawns:
  assumes found: "map_of (clients s) pid = Some client" and active: "isActive client"
    and dead: "client_isDead client" and keys: "distinct (map fst (clients s))"
    and expired: "deathTimer client - dt \<le> 0"
  shows "\<exists>earlier later st c'.
           clients s = earlier @ (pid, client) # later
           \<and> st = UpdateDeadPlayers_loop earlier dt now draws s
           \<and> map_of (clients (UpdateDeadPlayers dt now draws s)) pid = Some c'
           \<and> \<not> client_isDead c' \<and> \<not> isDead (playerData c')
           \<and> health (playerData c') = maxHealth (playerData client)
           \<and> (x (playerData c'), y (playerData c')) = GetRandomRespawnPosition (draws pid) st
           \<and> enemies st = enemies s
           \<and> (\<forall>(k, c) \<in> set (clients s). isActive c \<and> \<not> client_isDead c \<longrightarrow>
                map_of (clients st) k = Some c)
           \<and> (\<forall>(k, c) \<in> set (clients s). isActive c \<longrightarrow>
                (\<exists>seq. (PLAYER_RESPAWN pid (x (playerData c')) (y (playerData c'))
                          (maxHealth (playerData client)) now seq, address c, port c)
                        \<in> set (outbox (UpdateDeadPlayers dt now draws s))))"
proof -
  from found keys obtain earlier later where split: "clients s = earlier @ (pid, client) # later"
      "pid \<notin> fst ` set earlier" "pid \<notin> fst ` set later"
    by (rule entry_split)
  let ?st = "UpdateDeadPlayers_loop earlier dt now draws s"
  let ?c1 = "client\<lparr>deathTimer := deathTimer client - dt\<rparr>"
  let ?s1 = "?st\<lparr>clients := AList.update pid ?c1 (clients ?st)\<rparr>"
  let ?s2 = "RespawnPlayer pid now (draws pid) ?s1"
  let ?p = "GetRandomRespawnPosition (draws pid) ?st"
  note at = UpdateDeadPlayers_at [OF split found, of dt now draws]
  have step: "update_dead_player pid dt now (draws pid) ?st = ?s2"
    using expired by (simp add: update_dead_player_timer [OF at(1) active dead])
  have found1: "map_of (clients ?s1) pid = Some ?c1" by (simp add: update_conv')
  have active1: "isActive ?c1" using active by simp
  have pos1: "GetRandomRespawnPosition (draws pid) ?s1 = ?p"
    using at(1) by (rule GetRandomRespawnPosition_timer)
  from RespawnPlayer_respawns(1) [OF found1 active1, of now "draws pid"]
  obtain c' where c': "map_of (clients ?s2) pid = Some c'" "\<not> client_isDead c'"
      "\<not> isDead (playerData c')" "health (playerData c') = maxHealth (playerData client)"
      "(x (playerData c'), y (playerData c')) = ?p"
    unfolding pos1 by auto
  have final: "map_of (clients (UpdateDeadPlayers dt now draws s)) pid = Some c'"
    by (simp add: at(2) step c'(1))
  have alive: "\<forall>(k, c) \<in> set (clients s). isActive c \<and> \<not> client_isDead c \<longrightarrow>
      map_of (clients ?st) k = Some c"
  proof (intro ballI, clarify)
    fix k c
    assume "(k, c) \<in> set (clients s)" and "\<not> client_isDead c"
    with keys have m: "map_of (clients s) k = Some c" by simp
    from m \<open>\<not> client_isDead c\<close> show "map_of (clients ?st) k = Some c"
      by (rule UpdateDeadPlayers_loop_alive)
  qed
  have ends: "endpoints ?s1 = endpoints s"
  proof -
    have "endpoints ?s1 = endpoints ?st"
      using at(1) by (simp add: endpoints_def endpoints_update)
    then show ?thesis by (simp add: UpdateDeadPlayers_loop_endpoints)
  qed
  have sent: "\<forall>(k, c) \<in> set (clients s). isActive c \<longrightarrow>
      (\<exists>seq. (PLAYER_RESPAWN pid (x (playerData c')) (y (playerData c'))
                (maxHealth (playerData client)) now seq, address c, port c)
              \<in> set (outbox (UpdateDeadPlayers dt now draws s)))"
  proof (intro ballI, clarify)
    fix k c
    assume member: "(k, c) \<in> set (clients s)" and "isActive c"
    with endpoints_member [OF member ends]
    obtain d where d: "(k, d) \<in> set (clients ?s1)" "address d = address c" "port d = port c"
        "isActive d"
      by auto
    from c'(5) have xy: "fst ?p = x (playerData c')" "snd ?p = y (playerData c')"
      by (simp_all add: prod_eq_iff)
    from d(1,4) have "(PLAYER_RESPAWN pid (fst ?p) (snd ?p) (maxHealth (playerData ?c1)) now
          (outgoingSequenceNumber ?s1), address d, port d) \<in> set (outbox ?s2)"
      unfolding RespawnPlayer_respawns(2) [OF found1 active1, of now "draws pid"] pos1
      by force
    then have "(PLAYER_RESPAWN pid (x (playerData c')) (y (playerData c'))
          (maxHealth (playerData client)) now (outgoingSequenceNumber ?s1), address c, port c)
        \<in> set (outbox ?s2)"
      by (simp add: xy d(2,3))
    with at(3) step
    show "\<exists>seq. (PLAYER_RESPAWN pid (x (playerData c')) (y (playerData c'))
                (maxHealth (playerData client)) now seq, address c, port c)
              \<in> set (outbox (UpdateDeadPlayers dt now draws s))"
      by auto
  qed
  from split(1) final c'(2-5) alive sent show ?thesis
    by (intro exI [of _ earlier] exI [of _ later] exI [of _ ?st] exI [of _ c']) simp
qed

text \<open>
  Claim C5. In a tick, \<^verbatim>\<open>CheckPlayerDeaths\<close> marks every active, living player whose
  health is \<open>\<le> 0\<close> dead, with health 0 and a 5-second timer, and lowers the score by
  exactly 100 but not below 0 (for every score from which 100 can be subtracted in
  \<^verbatim>\<open>int32_t\<close>; beyond that the subtraction is undefined in C++). \<^verbatim>\<open>UpdateDeadPlayers\<close>
  lowers the timer of every active, dead player by the tick's time step and respawns the
  player once it is \<open>\<le> 0\<close>: the player is alive again with \<open>maxHealth\<close>, at the first of
  at most 10 random candidates that is at least 200 units from every living enemy and
  every active, living player, or at the world centre when none of the 10 is, and a
  PlayerRespawn with that position and health is sent to every active client. The
  distances are taken in the state \<open>st\<close> in which the loop reaches the player: the entries
  before it in the map have had their pass, the enemies are those of the tick and every
  player who was alive before the loop is alive, in place, in \<open>st\<close>. The keys of the
  map are distinct (\<open>client_keys_distinct\<close>).
\<close>

theorem death_and_respawn:
  assumes "map_of (clients s) pid = Some client" and "isActive client"
  shows "(\<not> client_isDead client \<and> health (playerData client) \<le> 0 \<longrightarrow>
           (\<exists>c'. map_of (clients (CheckPlayerDeaths now s)) pid = Some c'
              \<and> client_isDead c' \<and> isDead (playerData c') \<and> health (playerData c') = 0
              \<and> deathTimer c' = 5
              \<and> (- 2147483548 \<le> sint (client_score client) \<longrightarrow>
                   sint (client_score c') = max 0 (sint (client_score client) - 100))
              \<and> score (playerData c') = client_score c'))
      \<and> (client_isDead client \<and> distinct (map fst (clients s)) \<and> 0 < deathTimer client - dt \<longrightarrow>
           map_of (clients (UpdateDeadPlayers dt now draws s)) pid
             = Some (client\<lparr>deathTimer := deathTimer client - dt\<rparr>))
      \<and> (client_isDead client \<and> distinct (map fst (clients s)) \<and> deathTimer client - dt \<le> 0 \<longrightarrow>
           (\<exists>earlier later st c'.
              clients s = earlier @ (pid, client) # later
              \<and> st = UpdateDeadPlayers_loop earlier dt now draws s
              \<and> map_of (clients (UpdateDeadPlayers dt now draws s)) pid = Some c'
              \<and> \<not> client_isDead c' \<and> \<not> isDead (playerData c')
              \<and> health (playerData c') = maxHealth (playerData client)
              \<and> (x (playerData c'), y (playerData c')) = GetRandomRespawnPosition (draws pid) st
              \<and> ((\<exists>n<10. GetRandomRespawnPosition (draws pid) st = draws pid n
                      \<and> safe_distance st (draws pid n)
                      \<and> (\<forall>m<n. \<not> safe_distance st (draws pid m)))
                  \<or> ((\<forall>n<10. \<not> safe_distance st (draws pid n))
                      \<and> GetRandomRespawnPosition (draws pid) st = (CENTER_X, CENTER_Y)))
              \<and> enemies st = enemies s
              \<and> (\<forall>(k, c) \<in> set (clients s). isActive c \<and> \<not> client_isDead c \<longrightarrow>
                   map_of (clients st) k = Some c)
              \<and> (\<forall>(k, c) \<in> set (clients s). isActive c \<longrightarrow>
                   (\<exists>seq. (PLAYER_RESPAWN pid (x (playerData c')) (y (playerData c'))
                             (maxHealth (playerData client)) now seq, address c, port c)
                           \<in> set (outbox (UpdateDeadPlayers dt now draws s))))))"
proof (intro conjI impI)
  assume a: "\<not> client_isDead client \<and> health (playerData client) \<le> 0"
  from assms(1) have "pid \<in> fst ` set (clients s)"
    by (force dest: map_of_SomeD)
  with a assms show "\<exists>c'. map_of (clients (CheckPlayerDeaths now s)) pid = Some c'
              \<and> client_isDead c' \<and> isDead (playerData c') \<and> health (playerData c') = 0
              \<and> deathTimer c' = 5
              \<and> (- 2147483548 \<le> sint (client_score client) \<longrightarrow>
                   sint (client_score c') = max 0 (sint (client_score client) - 100))
              \<and> score (playerData c') = client_score c'"
    unfolding CheckPlayerDeaths_def by (intro CheckPlayerDeaths_dies) simp_all
next
  assume "client_isDead client \<and> distinct (map fst (clients s)) \<and> 0 < deathTimer client - dt"
  with assms show "map_of (clients (UpdateDeadPlayers dt now draws s)) pid
             = Some (client\<lparr>deathTimer := deathTimer client - dt\<rparr>)"
    by (intro UpdateDeadPlayers_counts_down) simp_all
next
  assume a: "client_isDead client \<and> distinct (map fst (clients s)) \<and> deathTimer client - dt \<le> 0"
  with assms have "\<exists>earlier later st c'.
           clients s = earlier @ (pid, client) # later
           \<and> st = UpdateDeadPlayers_loop earlier dt now draws s
           \<and> map_of (clients (UpdateDeadPlayers dt now draws s)) pid = Some c'
           \<and> \<not> client_isDead c' \<and> \<not> isDead (playerData c')
           \<and> health (playerData c') = maxHealth (playerData client)
           \<and> (x (playerData c'), y (playerData c')) = GetRandomRespawnPosition (draws pid) st
           \<and> enemies st = enemies s
           \<and> (\<forall>(k, c) \<in> set (clients s). isActive c \<and> \<not> client_isDead c \<longrightarrow>
                map_of (clients st) k = Some c)
           \<and> (\<forall>(k, c) \<in> set (clients s). isActive c \<longrightarrow>
                (\<exists>seq. (PLAYER_RESPAWN pid (x (playerData c')) (y (playerData c'))
                          (maxHealth (playerData client)) now seq, address c, port c)
                        \<in> set (outbox (UpdateDeadPlayers dt now draws s))))"
    by (intro UpdateDeadPlayers_respawns) simp_all
  then obtain earlier later st c' where r:
      "clients s = earlier @ (pid, client) # later"
      "st = UpdateDeadPlayers_loop earlier dt now draws s"
      "map_of (clients (UpdateDeadPlayers dt now draws s)) pid = Some c'"
      "\<not> client_isDead c'" "\<not> isDead (playerData c')"
      "health (playerData c') = maxHealth (playerData client)"
      "(x (playerData c'), y (playerData c')) = GetRandomRespawnPosition (draws pid) st"
      "enemies st = enemies s"
      "\<forall>(k, c) \<in> set (clients s). isActive c \<and> \<not> client_isDead c \<longrightarrow>
         map_of (clients st) k = Some c"
      "\<forall>(k, c) \<in> set (clients s). isActive c \<longrightarrow>
         (\<exists>seq. (PLAYER_RESPAWN pid (x (playerData c')) (y (playerData c'))
                   (maxHealth (playerData client)) now seq, address c, port c)
                 \<in> set (outbox (UpdateDeadPlayers dt now draws s)))"
    by blast
  have choice: "(\<exists>n<10. GetRandomRespawnPosition (draws pid) st = draws pid n
                      \<and> safe_distance st (draws pid n)
                      \<and> (\<forall>m<n. \<not> safe_distance st (draws pid m)))
                  \<or> ((\<forall>n<10. \<not> safe_distance st (draws pid n))
                      \<and> GetRandomRespawnPosition (draws pid) st = (CENTER_X, CENTER_Y))"
    using GetRandomRespawnPosition_cases [of "draws pid" st]
    by (simp only: isSafe_iff world_constants) simp
  show "\<exists>earlier later st c'.
              clients s = earlier @ (pid, client) # later
              \<and> st = UpdateDeadPlayers_loop earlier dt now draws s
              \<and> map_of (clients (UpdateDeadPlayers dt now draws s)) pid = Some c'
              \<and> \<not> client_isDead c' \<and> \<not> isDead (playerData c')
              \<and> health (playerData c') = maxHealth (playerData client)
              \<and> (x (playerData c'), y (playerData c')) = GetRandomRespawnPosition (draws pid) st
              \<and> ((\<exists>n<10. GetRandomRespawnPosition (draws pid) st = draws pid n
                      \<and> safe_distance st (draws pid n)
                      \<and> (\<forall>m<n. \<not> safe_distance st (draws pid m)))
                  \<or> ((\<forall>n<10. \<not> safe_distance st (draws pid n))
                      \<and> GetRandomRespawnPosition (draws pid) st = (CENTER_X, CENTER_Y)))
              \<and> enemies st = enemies s
              \<and> (\<forall>(k, c) \<in> set (clients s). isActive c \<and> \<not> client_isDead c \<longrightarrow>
                   map_of (clients st) k = Some c)
              \<and> (\<forall>(k, c) \<in> set (clients s). isActive c \<longrightarrow>
                   (\<exists>seq. (PLAYER_RESPAWN pid (x (playerData c')) (y (playerData c'))
                             (maxHealth (playerData client)) now seq, address c, port c)
                           \<in> set (outbox (UpdateDeadPlayers dt now draws s))))"
    using r choice
    by (intro exI [of _ earlier] exI [of _ later] exI [of _ st] exI [of _ c'] conjI) assumption+
qed

lemma dying_lookup:
  "map_of (clients dying_server) 1 = Some dying_client" "isActive dying_client"
  "\<not> client_isDead dying_client" "health (playerData dying_client) = 0"
  "sint (client_score dying_client) = 30"
  by (simp_all add: dying_server_def dying_client_def ClientInfo_new_def)

lemma dead_lookup:
  "map_of (clients dead_server) 1 = Some dead_client" "isActive dead_client"
  "client_isDead dead_client" "deathTimer dead_client = 5"
  "maxHealth (playerData dead_client) = 100" "clients dead_server = [(1, dead_client)]"
  "address dead_client = 10" "port dead_client = 20"
  by (simp_all add: dead_server_def dead_client_def ClientInfo_new_def PlayerData_default_def)

lemma two_draws_respawn: "GetRandomRespawnPosition two_draws dead_server = (200, 200)"
  by (simp add: GetRandomRespawnPosition_def MAX_ATTEMPTS_def upt_conv_Cons two_draws_def
      isSafe_def dead_server_def dead_client_def red_enemy_def GameServer_new_def IsDead_def
      distSq_def MIN_SAFE_DISTANCE_def ClientInfo_new_def)

theorem death_and_respawn_witness:
  "(\<exists>c'. map_of (clients (CheckPlayerDeaths 1000 dying_server)) 1 = Some c'
        \<and> client_isDead c' \<and> health (playerData c') = 0 \<and> deathTimer c' = 5
        \<and> sint (client_score c') = 0)
   \<and> map_of (clients (UpdateDeadPlayers 1 6000 (\<lambda>pid. two_draws) dead_server)) 1
       = Some (dead_client\<lparr>deathTimer := 4\<rparr>)
   \<and> (\<exists>c' seq. map_of (clients (UpdateDeadPlayers 5 6000 (\<lambda>pid. two_draws) dead_server)) 1 = Some c'
        \<and> \<not> client_isDead c' \<and> health (playerData c') = 100
        \<and> (x (playerData c'), y (playerData c')) = (200, 200)
        \<and> (PLAYER_RESPAWN 1 200 200 100 6000 seq, 10, 20)
            \<in> set (outbox (UpdateDeadPlayers 5 6000 (\<lambda>pid. two_draws) dead_server)))"
proof -
  have a: "\<not> client_isDead dying_client \<and> health (playerData dying_client) \<le> 0"
    by (simp add: dying_lookup)
  from death_and_respawn [OF dying_lookup(1,2), THEN conjunct1, THEN mp, OF a, of 1000]
  obtain c' where "map_of (clients (CheckPlayerDeaths 1000 dying_server)) 1 = Some c'"
      "client_isDead c'" "health (playerData c') = 0" "deathTimer c' = 5"
      "- 2147483548 \<le> sint (client_score dying_client) \<longrightarrow>
         sint (client_score c') = max 0 (sint (client_score dying_client) - 100)"
    by blast
  then have dies: "\<exists>c'. map_of (clients (CheckPlayerDeaths 1000 dying_server)) 1 = Some c'
        \<and> client_isDead c' \<and> health (playerData c') = 0 \<and> deathTimer c' = 5
        \<and> sint (client_score c') = 0"
    by (intro exI [of _ c']) (simp add: dying_lookup)
  have b: "client_isDead dead_client \<and> distinct (map fst (clients dead_server))
      \<and> 0 < deathTimer dead_client - 1"
    by (simp add: dead_lookup)
  from death_and_respawn [OF dead_lookup(1,2), THEN conjunct2, THEN conjunct1, THEN mp, OF b,
      of 6000 "\<lambda>pid. two_draws"]
  have counts: "map_of (clients (UpdateDeadPlayers 1 6000 (\<lambda>pid. two_draws) dead_server)) 1
       = Some (dead_client\<lparr>deathTimer := 4\<rparr>)"
    by (simp add: dead_lookup)
  have c: "client_isDead dead_client \<and> distinct (map fst (clients dead_server))
      \<and> deathTimer dead_client - 5 \<le> 0"
    by (simp add: dead_lookup)
  from death_and_respawn [OF dead_lookup(1,2), THEN conjunct2, THEN conjunct2, THEN mp, OF c,
      of 6000 "\<lambda>pid. two_draws"]
  obtain earlier later st d' where r:
      "clients dead_server = earlier @ (1, dead_client) # later"
      "st = UpdateDeadPlayers_loop earlier 5 6000 (\<lambda>pid. two_draws) dead_server"
      "map_of (clients (UpdateDeadPlayers 5 6000 (\<lambda>pid. two_draws) dead_server)) 1 = Some d'"
      "\<not> client_isDead d'" "health (playerData d') = maxHealth (playerData dead_client)"
      "(x (playerData d'), y (playerData d')) = GetRandomRespawnPosition two_draws st"
      "\<forall>(k, c) \<in> set (clients dead_server). isActive c \<longrightarrow>
         (\<exists>seq. (PLAYER_RESPAWN 1 (x (playerData d')) (y (playerData d'))
                   (maxHealth (playerData dead_client)) 6000 seq, address c, port c)
                 \<in> set (outbox (UpdateDeadPlayers 5 6000 (\<lambda>pid. two_draws) dead_server)))"
    by blast
  from r(1) have "earlier = []" by (simp add: dead_lookup(6) Cons_eq_append_conv)
  with r(2) have st: "st = dead_server" by simp
  from r(6) have xy: "x (playerData d') = 200" "y (playerData d') = 200"
    by (simp_all add: st two_draws_respawn)
  from r(7) obtain seq where "(PLAYER_RESPAWN 1 200 200 100 6000 seq, 10, 20)
      \<in> set (outbox (UpdateDeadPlayers 5 6000 (\<lambda>pid. two_draws) dead_server))"
    by (auto simp: dead_lookup xy)
  with r(3-5) xy
  have respawns: "\<exists>c' seq. map_of (clients (UpdateDeadPlayers 5 6000 (\<lambda>pid. two_draws) dead_server)) 1 = Some c'
        \<and> \<not> client_isDead c' \<and> health (playerData c') = 100
        \<and> (x (playerData c'), y (playerData c')) = (200, 200)
        \<and> (PLAYER_RESPAWN 1 200 200 100 6000 seq, 10, 20)
            \<in> set (outbox (UpdateDeadPlayers 5 6000 (\<lambda>pid. two_draws) dead_server))"
    by (intro exI [of _ d'] exI [of _ seq]) (simp add: dead_lookup)
  from dies counts respawns show ?thesis by (intro conjI)
qed


section \<open>Enemy shooting (\<^verbatim>\<open>EnemyTank.cpp\<close>)\<close>

definition InitializeShootingParameters :: "EnemyTank \<Rightarrow> EnemyTank" where
  "InitializeShootingParameters e =
     (let e1 = e\<lparr>barrelLength := 20, shotsInBurst := 0, lastShotTime := 0, shootCooldown := 0\<rparr>
      in case enemyType e1 of
           RED \<Rightarrow> e1\<lparr>shootCooldownTime := 1.5, baseAccuracy := 0.6,
                       accuracySpreadAngle := 15, maxBurstSize := 3\<rparr>
         | BLACK \<Rightarrow> e1\<lparr>shootCooldownTime := 2.5, baseAccuracy := 0.8,
                         accuracySpreadAngle := 8, maxBurstSize := 1\<rparr>
         | PURPLE \<Rightarrow> e1\<lparr>shootCooldownTime := 0.8, baseAccuracy := 0.4,
                          accuracySpreadAngle := 25, maxBurstSize := 5\<rparr>
         | ORANGE \<Rightarrow> e1\<lparr>shootCooldownTime := 3, baseAccuracy := 0.9,
                          accuracySpreadAngle := 5, maxBurstSize := 1\<rparr>
         | TEAL \<Rightarrow> e1\<lparr>shootCooldownTime := 1.2, baseAccuracy := 0.7,
                        accuracySpreadAngle := 12, maxBurstSize := 2\<rparr>)"

definition CanShoot :: "EnemyTank \<Rightarrow> bool" where
  "CanShoot e = (shootCooldown e \<le> 0)"

definition UpdateCooldown :: "real \<Rightarrow> EnemyTank \<Rightarrow> EnemyTank" where
  "UpdateCooldown dt e =
     (let e1 = (if shootCooldown e > 0
                then (let e' = e\<lparr>shootCooldown := shootCooldown e - dt\<rparr>
                      in if shootCooldown e' < 0 then e'\<lparr>shootCooldown := 0\<rparr> else e')
                else e)
      in e1\<lparr>lastShotTime := lastShotTime e1 + dt\<rparr>)"

text \<open>\<^verbatim>\<open>TryShoot\<close> returns whether a shot was fired, together with the updated enemy.\<close>

definition TryShoot :: "EnemyTank \<Rightarrow> bool \<times> EnemyTank" where
  "TryShoot e =
     (if \<not> CanShoot e then (False, e)
      else if currentAIState e \<noteq> ATTACK then (False, e)
      else
        let e1 = e\<lparr>shootCooldown := shootCooldownTime e, lastShotTime := 0\<rparr>;
            e2 = e1\<lparr>shotsInBurst := shotsInBurst e1 + 1\<rparr>;
            e3 = (if shotsInBurst e2 \<ge> maxBurstSize e2
                  then e2\<lparr>shootCooldown := shootCooldown e2 * 1.5, shotsInBurst := 0\<rparr>
                  else e2)
        in (True, e3))"

text \<open>
  \<open>n\<close> consecutive successful shots: before each attempt a tick of length \<open>dt\<close> passes
  (\<^verbatim>\<open>Update\<close> calls \<^verbatim>\<open>UpdateCooldown\<close> before the AI tries to shoot).
\<close>

fun shots :: "nat \<Rightarrow> real \<Rightarrow> EnemyTank \<Rightarrow> EnemyTank" where
  "shots 0 dt e = e"
| "shots (Suc n) dt e = snd (TryShoot (UpdateCooldown dt (shots n dt e)))"

lemma TryShoot_fires_iff: "fst (TryShoot e) \<longleftrightarrow> shootCooldown e \<le> 0 \<and> currentAIState e = ATTACK"
  by (simp add: TryShoot_def CanShoot_def Let_def)

lemma TryShoot_misfire: "\<not> fst (TryShoot e) \<Longrightarrow> snd (TryShoot e) = e"
  by (auto simp: TryShoot_def Let_def split: if_splits)

lemma TryShoot_fired:
  assumes "fst (TryShoot e)"
  shows "shootCooldown (snd (TryShoot e))
           = (if shotsInBurst e + 1 \<ge> maxBurstSize e then shootCooldownTime e * 1.5
              else shootCooldownTime e)"
    and "shotsInBurst (snd (TryShoot e))
           = (if shotsInBurst e + 1 \<ge> maxBurstSize e then 0 else shotsInBurst e + 1)"
    and "maxBurstSize (snd (TryShoot e)) = maxBurstSize e"
    and "shootCooldownTime (snd (TryShoot e)) = shootCooldownTime e"
    and "currentAIState (snd (TryShoot e)) = currentAIState e"
  using assms by (auto simp: TryShoot_def Let_def split: if_splits)

lemma UpdateCooldown_elapsed:
  assumes "shootCooldown e \<le> dt"
  shows "shootCooldown (UpdateCooldown dt e) \<le> 0"
    and "shotsInBurst (UpdateCooldown dt e) = shotsInBurst e"
    and "maxBurstSize (UpdateCooldown dt e) = maxBurstSize e"
    and "shootCooldownTime (UpdateCooldown dt e) = shootCooldownTime e"
    and "currentAIState (UpdateCooldown dt e) = currentAIState e"
  using assms by (auto simp: UpdateCooldown_def Let_def)

lemma shots_within_burst:
  assumes attack: "currentAIState e = ATTACK" and fresh: "shotsInBurst e = 0"
    and ready: "shootCooldown e \<le> 0" and base: "0 \<le> shootCooldownTime e"
    and wait: "shootCooldownTime e \<le> dt"
  shows "int n < maxBurstSize e \<Longrightarrow>
           shotsInBurst (shots n dt e) = int n
           \<and> shootCooldown (shots n dt e) \<le> shootCooldownTime e
           \<and> (0 < n \<longrightarrow> shootCooldown (shots n dt e) = shootCooldownTime e)
           \<and> maxBurstSize (shots n dt e) = maxBurstSize e
           \<and> shootCooldownTime (shots n dt e) = shootCooldownTime e
           \<and> currentAIState (shots n dt e) = ATTACK"
proof (induction n)
  case 0
  with assms show ?case by simp
next
  case (Suc n)
  let ?e = "shots n dt e"
  let ?u = "UpdateCooldown dt ?e"
  from Suc have ih: "shotsInBurst ?e = int n" "shootCooldown ?e \<le> shootCooldownTime e"
    "maxBurstSize ?e = maxBurstSize e" "shootCooldownTime ?e = shootCooldownTime e"
    "currentAIState ?e = ATTACK"
    by simp_all
  from ih(2) wait have el: "shootCooldown ?e \<le> dt" by simp
  note u = UpdateCooldown_elapsed [OF el]
  from u(1) u(5) ih(5) have fires: "fst (TryShoot ?u)" by (simp add: TryShoot_fires_iff)
  note f = TryShoot_fired [OF fires]
  from Suc.prems have "\<not> int n + 1 \<ge> maxBurstSize e" by simp
  with f u ih show ?case by simp
qed


lemma shots_complete_burst:
  assumes attack: "currentAIState e = ATTACK" and fresh: "shotsInBurst e = 0"
    and ready: "shootCooldown e \<le> 0" and base: "0 \<le> shootCooldownTime e"
    and wait: "shootCooldownTime e \<le> dt" and size: "0 < maxBurstSize e"
  shows "shootCooldown (shots (nat (maxBurstSize e)) dt e) = shootCooldownTime e * 1.5"
    and "shotsInBurst (shots (nat (maxBurstSize e)) dt e) = 0"
proof -
  from size obtain n where n: "nat (maxBurstSize e) = Suc n" "int n + 1 = maxBurstSize e"
    by (cases "nat (maxBurstSize e)") auto
  let ?e = "shots n dt e"
  let ?u = "UpdateCooldown dt ?e"
  from n have "int n < maxBurstSize e" by simp
  from shots_within_burst [OF attack fresh ready base wait this]
  have ih: "shotsInBurst ?e = int n" "shootCooldown ?e \<le> shootCooldownTime e"
    "maxBurstSize ?e = maxBurstSize e" "shootCooldownTime ?e = shootCooldownTime e"
    "currentAIState ?e = ATTACK"
    by simp_all
  from ih(2) wait have el: "shootCooldown ?e \<le> dt" by simp
  note u = UpdateCooldown_elapsed [OF el]
  from u(1) u(5) ih(5) have fires: "fst (TryShoot ?u)" by (simp add: TryShoot_fires_iff)
  note f = TryShoot_fired [OF fires]
  from f u ih n show "shootCooldown (shots (nat (maxBurstSize e)) dt e) = shootCooldownTime e * 1.5"
    by simp
  from f u ih n show "shotsInBurst (shots (nat (maxBurstSize e)) dt e) = 0"
    by simp
qed

lemma shots_all_fire:
  assumes attack: "currentAIState e = ATTACK" and fresh: "shotsInBurst e = 0"
    and ready: "shootCooldown e \<le> 0" and base: "0 \<le> shootCooldownTime e"
    and wait: "shootCooldownTime e \<le> dt" and inside: "int n < maxBurstSize e"
  shows "fst (TryShoot (UpdateCooldown dt (shots n dt e)))"
proof -
  let ?e = "shots n dt e"
  from shots_within_burst [OF attack fresh ready base wait inside]
  have ih: "shootCooldown ?e \<le> shootCooldownTime e" "currentAIState ?e = ATTACK"
    by simp_all
  from ih(1) wait have "shootCooldown ?e \<le> dt" by simp
  from UpdateCooldown_elapsed(1,5) [OF this] ih(2) show ?thesis
    by (simp add: TryShoot_fires_iff)
qed

definition attacking_red :: EnemyTank where
  "attacking_red = (InitializeShootingParameters red_enemy)\<lparr>currentAIState := ATTACK\<rparr>"

text \<open>
  Claim C8. \<^verbatim>\<open>TryShoot\<close> fires exactly when the cooldown is \<open>\<le> 0\<close> and the AI state is
  \<^verbatim>\<open>ATTACK\<close>, and changes nothing otherwise. A shot that does not complete a burst leaves
  the cooldown at the base cooldown \<^verbatim>\<open>shootCooldownTime\<close> and counts one more shot; the
  shot that completes the burst leaves the cooldown at 1.5 times the base cooldown and
  the counter at 0. Hence, for an enemy ready to attack with an empty counter whose
  attempts are at least the base cooldown apart: the first \<^verbatim>\<open>maxBurstSize\<close> attempts all
  fire, the cooldown after each of the first \<^verbatim>\<open>maxBurstSize - 1\<close> is the base cooldown, and
  after the last it is 1.5 times the base cooldown with the counter back at 0.
\<close>

theorem TryShoot_burst:
  "(fst (TryShoot e) \<longleftrightarrow> shootCooldown e \<le> 0 \<and> currentAIState e = ATTACK)
   \<and> (\<not> fst (TryShoot e) \<longrightarrow> snd (TryShoot e) = e)
   \<and> (fst (TryShoot e) \<and> shotsInBurst e + 1 < maxBurstSize e \<longrightarrow>
        shootCooldown (snd (TryShoot e)) = shootCooldownTime e
        \<and> shotsInBurst (snd (TryShoot e)) = shotsInBurst e + 1)
   \<and> (fst (TryShoot e) \<and> shotsInBurst e + 1 \<ge> maxBurstSize e \<longrightarrow>
        shootCooldown (snd (TryShoot e)) = shootCooldownTime e * 1.5
        \<and> shotsInBurst (snd (TryShoot e)) = 0)
   \<and> (currentAIState e = ATTACK \<and> shotsInBurst e = 0 \<and> shootCooldown e \<le> 0
        \<and> 0 \<le> shootCooldownTime e \<and> shootCooldownTime e \<le> dt \<and> 0 < maxBurstSize e \<longrightarrow>
        (\<forall>n. int n < maxBurstSize e \<longrightarrow> fst (TryShoot (UpdateCooldown dt (shots n dt e))))
        \<and> (\<forall>n. 0 < n \<and> int n < maxBurstSize e \<longrightarrow>
              shootCooldown (shots n dt e) = shootCooldownTime e
              \<and> shotsInBurst (shots n dt e) = int n)
        \<and> shootCooldown (shots (nat (maxBurstSize e)) dt e) = shootCooldownTime e * 1.5
        \<and> shotsInBurst (shots (nat (maxBurstSize e)) dt e) = 0)"
proof (intro conjI impI allI)
  show "fst (TryShoot e) \<longleftrightarrow> shootCooldown e \<le> 0 \<and> currentAIState e = ATTACK"
    by (rule TryShoot_fires_iff)
next
  assume "\<not> fst (TryShoot e)"
  then show "snd (TryShoot e) = e" by (rule TryShoot_misfire)
next
  assume a: "fst (TryShoot e) \<and> shotsInBurst e + 1 < maxBurstSize e"
  then show "shootCooldown (snd (TryShoot e)) = shootCooldownTime e"
    and "shotsInBurst (snd (TryShoot e)) = shotsInBurst e + 1"
    using TryShoot_fired(1,2) [of e] by simp_all
next
  assume a: "fst (TryShoot e) \<and> shotsInBurst e + 1 \<ge> maxBurstSize e"
  then show "shootCooldown (snd (TryShoot e)) = shootCooldownTime e * 1.5"
    and "shotsInBurst (snd (TryShoot e)) = 0"
    using TryShoot_fired(1,2) [of e] by simp_all
next
  fix n
  assume a: "currentAIState e = ATTACK \<and> shotsInBurst e = 0 \<and> shootCooldown e \<le> 0
        \<and> 0 \<le> shootCooldownTime e \<and> shootCooldownTime e \<le> dt \<and> 0 < maxBurstSize e"
    and n: "int n < maxBurstSize e"
  then show "fst (TryShoot (UpdateCooldown dt (shots n dt e)))"
    using shots_all_fire [of e dt n] by simp
next
  fix n
  assume a: "currentAIState e = ATTACK \<and> shotsInBurst e = 0 \<and> shootCooldown e \<le> 0
        \<and> 0 \<le> shootCooldownTime e \<and> shootCooldownTime e \<le> dt \<and> 0 < maxBurstSize e"
    and n: "0 < n \<and> int n < maxBurstSize e"
  then show "shootCooldown (shots n dt e) = shootCooldownTime e"
    and "shotsInBurst (shots n dt e) = int n"
    using shots_within_burst [of e dt n] by simp_all
next
  assume a: "currentAIState e = ATTACK \<and> shotsInBurst e = 0 \<and> shootCooldown e \<le> 0
        \<and> 0 \<le> shootCooldownTime e \<and> shootCooldownTime e \<le> dt \<and> 0 < maxBurstSize e"
  then show "shootCooldown (shots (nat (maxBurstSize e)) dt e) = shootCooldownTime e * 1.5"
    and "shotsInBurst (shots (nat (maxBurstSize e)) dt e) = 0"
    using shots_complete_burst [of e dt] by simp_all
qed

lemma attacking_red_fields:
  "currentAIState attacking_red = ATTACK" "shotsInBurst attacking_red = 0"
  "shootCooldown attacking_red = 0" "shootCooldownTime attacking_red = 1.5"
  "maxBurstSize attacking_red = 3"
  by (simp_all add: attacking_red_def InitializeShootingParameters_def red_enemy_def)

theorem TryShoot_burst_witness:
  "fst (TryShoot attacking_red)
   \<and> shootCooldown (snd (TryShoot attacking_red)) = 1.5
   \<and> shotsInBurst (snd (TryShoot attacking_red)) = 1
   \<and> shootCooldown (shots 2 2 attacking_red) = 1.5
   \<and> shotsInBurst (shots 2 2 attacking_red) = 2
   \<and> shootCooldown (shots 3 2 attacking_red) = 2.25
   \<and> shotsInBurst (shots 3 2 attacking_red) = 0
   \<and> \<not> fst (TryShoot (shots 3 2 attacking_red))"
proof -
  note t = TryShoot_burst [where e = attacking_red and dt = 2]
  from t have a: "fst (TryShoot attacking_red)" by (simp add: attacking_red_fields)
  with t have b: "shootCooldown (snd (TryShoot attacking_red)) = 1.5"
      "shotsInBurst (snd (TryShoot attacking_red)) = 1"
    by (simp_all add: attacking_red_fields)
  from t have c: "shootCooldown (shots 2 2 attacking_red) = 1.5"
      "shotsInBurst (shots 2 2 attacking_red) = 2"
    by (simp_all add: attacking_red_fields)
  from t have d: "shootCooldown (shots 3 2 attacking_red) = 2.25"
      "shotsInBurst (shots 3 2 attacking_red) = 0"
    by (simp_all add: attacking_red_fields)
  from d(1) have e: "\<not> fst (TryShoot (shots 3 2 attacking_red))"
    using TryShoot_burst [where e = "shots 3 2 attacking_red" and dt = 2] by simp
  from a b c d e show ?thesis by simp
qed


section \<open>Enemy spawning and removal (\<^verbatim>\<open>GameServer::UpdateEnemies\<close>)\<close>

text \<open>
  The constructor \<^verbatim>\<open>EnemyTank(type, startPosition)\<close>, for the fields of the record:
  \<^verbatim>\<open>InitializeStats\<close> sets the health by type, \<^verbatim>\<open>InitializeAIParameters\<close> starts in
  \<^verbatim>\<open>PATROL\<close> and ends with \<^verbatim>\<open>InitializeShootingParameters\<close>.
\<close>

definition InitializeStats :: "EnemyTank \<Rightarrow> EnemyTank" where
  "InitializeStats e =
     (let e1 = (case enemyType e of
                  RED \<Rightarrow> e\<lparr>enemy_maxHealth := 100\<rparr>
                | BLACK \<Rightarrow> e\<lparr>enemy_maxHealth := 200\<rparr>
                | PURPLE \<Rightarrow> e\<lparr>enemy_maxHealth := 60\<rparr>
                | ORANGE \<Rightarrow> e\<lparr>enemy_maxHealth := 300\<rparr>
                | TEAL \<Rightarrow> e\<lparr>enemy_maxHealth := 80\<rparr>)
      in e1\<lparr>currentHealth := enemy_maxHealth e1\<rparr>)"

definition EnemyTank_new :: "EnemyType \<Rightarrow> real \<times> real \<Rightarrow> EnemyTank" where
  "EnemyTank_new type startPosition =
     InitializeShootingParameters
       ((InitializeStats
           \<lparr>enemyType = type, position = startPosition, enemy_bodyRotation = 0,
            enemy_barrelRotation = 0, currentHealth = 0, enemy_maxHealth = 0,
            currentAIState = IDLE, shootCooldown = 0, shootCooldownTime = 0, barrelLength = 0,
            baseAccuracy = 0, accuracySpreadAngle = 0, lastShotTime = 0, shotsInBurst = 0,
            maxBurstSize = 0\<rparr>)
          \<lparr>currentAIState := PATROL\<rparr>)"

text \<open>\<open>roll\<close> is the draw of \<^verbatim>\<open>uniform_int_distribution(1, 100)\<close>.\<close>

definition GetRandomEnemyType :: "int \<Rightarrow> EnemyType" where
  "GetRandomEnemyType roll =
     (if roll \<le> 40 then RED
      else if roll \<le> 60 then BLACK
      else if roll \<le> 80 then PURPLE
      else if roll \<le> 95 then TEAL
      else ORANGE)"

text \<open>\<open>spawnPos\<close> is the position that \<^verbatim>\<open>GetRandomSpawnPosition\<close> draws.\<close>

definition SpawnEnemy :: "real \<times> real \<Rightarrow> int \<Rightarrow> GameServer \<Rightarrow> GameServer" where
  "SpawnEnemy spawnPos roll s =
     s\<lparr>nextEnemyId := nextEnemyId s + 1,
       enemies := AList.update (nextEnemyId s) (EnemyTank_new (GetRandomEnemyType roll) spawnPos)
                    (enemies s)\<rparr>"

definition RemoveDeadEnemies :: "GameServer \<Rightarrow> GameServer" where
  "RemoveDeadEnemies s = s\<lparr>enemies := filter (\<lambda>(enemyId, enemy). \<not> IsDead enemy) (enemies s)\<rparr>"

definition activePlayerCount :: "GameServer \<Rightarrow> nat" where
  "activePlayerCount s =
     length (filter (\<lambda>(pid, client). isActive client \<and> \<not> client_isDead client) (clients s))"

definition dynamicMaxEnemies :: "GameServer \<Rightarrow> nat" where
  "dynamicMaxEnemies s = 3 * (if activePlayerCount s > 0 then 1 else 0) + activePlayerCount s"

text \<open>
  \<^verbatim>\<open>UpdateEnemies\<close>, as far as the enemy map is concerned. The loop over the enemies
  acquires or refreshes a target and calls \<^verbatim>\<open>enemy->Update(deltaTime)\<close>, the AI state
  machine. That code moves and turns the enemy, changes its AI state and its shooting
  fields, and never assigns \<^verbatim>\<open>currentHealth\<close> or \<^verbatim>\<open>maxHealth\<close> (only \<^verbatim>\<open>TakeDamage\<close>,
  \<^verbatim>\<open>Heal\<close>, \<^verbatim>\<open>SetHealth\<close> and \<^verbatim>\<open>SetMaxHealth\<close> do, and none is called here). It is the
  parameter \<open>behaviour\<close>, applied with the health fields kept. The bullets the loop spawns
  for enemies that just shot go to the bullet map and the socket and are left out.
\<close>

definition UpdateEnemies ::
    "real \<Rightarrow> real \<times> real \<Rightarrow> int \<Rightarrow> (32 word \<Rightarrow> EnemyTank \<Rightarrow> EnemyTank) \<Rightarrow> GameServer \<Rightarrow> GameServer" where
  "UpdateEnemies deltaTime spawnPos roll behaviour s =
     (let s1 = s\<lparr>enemySpawnTimer := enemySpawnTimer s + deltaTime\<rparr>;
          s2 = (if enemySpawnTimer s1 \<ge> enemySpawnInterval s1
                   \<and> length (enemies s1) < dynamicMaxEnemies s1
                then (SpawnEnemy spawnPos roll s1)\<lparr>enemySpawnTimer := 0\<rparr>
                else s1);
          s3 = s2\<lparr>enemies :=
                    map (\<lambda>(enemyId, enemy).
                           (enemyId, (behaviour enemyId enemy)
                                       \<lparr>currentHealth := currentHealth enemy,
                                        enemy_maxHealth := enemy_maxHealth enemy\<rparr>))
                      (enemies s2)\<rparr>
      in RemoveDeadEnemies s3)"

definition crowded_server :: GameServer where
  "crowded_server =
     GameServer_new\<lparr>clients := [(1, dying_client)], nextPlayerId := 2,
                    enemies := [(1000, red_enemy), (1001, red_enemy), (1002, red_enemy),
                                (1003, red_enemy)],
                    nextEnemyId := 1004\<rparr>"

definition crowded_after_death :: GameServer where
  "crowded_after_death = CheckPlayerDeaths 1000 crowded_server"

definition crowded_next_tick :: GameServer where
  "crowded_next_tick = UpdateEnemies (1 / 60) (100, 100) 1 (\<lambda>enemyId enemy. enemy) crowded_after_death"

lemma dynamicMaxEnemies_UpdateEnemies [simp]:
  "dynamicMaxEnemies (UpdateEnemies dt pos roll b s) = dynamicMaxEnemies s"
  by (simp add: UpdateEnemies_def Let_def dynamicMaxEnemies_def activePlayerCount_def
      RemoveDeadEnemies_def SpawnEnemy_def)

lemma length_update_le: "length (AList.update k v al) \<le> Suc (length al)"
proof -
  have "length (AList.update k v al) = length (map fst (AList.update k v al))" by simp
  also have "\<dots> \<le> Suc (length al)" by (simp only: update_keys) simp
  finally show ?thesis .
qed

lemma survivors_length:
  "length (filter P (map f xs)) \<le> length xs"
  using length_filter_le [of P "map f xs"] by simp

lemma survivors_keys:
  "fst ` set (filter P (map (\<lambda>(k, v). (k, g k v)) xs)) \<subseteq> fst ` set xs"
  by force

lemma UpdateEnemies_enemies:
  "enemies (UpdateEnemies dt pos roll b s)
     = filter (\<lambda>(enemyId, enemy). \<not> IsDead enemy)
         (map (\<lambda>(enemyId, enemy).
                 (enemyId, (b enemyId enemy)\<lparr>currentHealth := currentHealth enemy,
                                             enemy_maxHealth := enemy_maxHealth enemy\<rparr>))
            (if enemySpawnTimer s + dt \<ge> enemySpawnInterval s
                \<and> length (enemies s) < dynamicMaxEnemies s
             then AList.update (nextEnemyId s) (EnemyTank_new (GetRandomEnemyType roll) pos)
                    (enemies s)
             else enemies s))"
  by (simp add: UpdateEnemies_def Let_def RemoveDeadEnemies_def SpawnEnemy_def
      dynamicMaxEnemies_def activePlayerCount_def)

lemma UpdateEnemies_count:
  "length (enemies (UpdateEnemies dt pos roll b s)) \<le> max (length (enemies s)) (dynamicMaxEnemies s)"
proof (cases "enemySpawnTimer s + dt \<ge> enemySpawnInterval s
    \<and> length (enemies s) < dynamicMaxEnemies s")
  case False
  then have "enemies (UpdateEnemies dt pos roll b s)
      = filter (\<lambda>(enemyId, enemy). \<not> IsDead enemy)
          (map (\<lambda>(enemyId, enemy).
                  (enemyId, (b enemyId enemy)\<lparr>currentHealth := currentHealth enemy,
                                              enemy_maxHealth := enemy_maxHealth enemy\<rparr>))
             (enemies s))"
    by (simp only: UpdateEnemies_enemies False if_False)
  then have "length (enemies (UpdateEnemies dt pos roll b s)) \<le> length (enemies s)"
    by (simp only: survivors_length)
  then show ?thesis by simp
next
  case True
  let ?al = "AList.update (nextEnemyId s) (EnemyTank_new (GetRandomEnemyType roll) pos) (enemies s)"
  from True have "length ?al \<le> dynamicMaxEnemies s"
    using length_update_le [of "nextEnemyId s" "EnemyTank_new (GetRandomEnemyType roll) pos" "enemies s"]
    by linarith
  moreover from True have "enemies (UpdateEnemies dt pos roll b s)
      = filter (\<lambda>(enemyId, enemy). \<not> IsDead enemy)
          (map (\<lambda>(enemyId, enemy).
                  (enemyId, (b enemyId enemy)\<lparr>currentHealth := currentHealth enemy,
                                              enemy_maxHealth := enemy_maxHealth enemy\<rparr>))
             ?al)"
    by (simp only: UpdateEnemies_enemies True if_True simp_thms)
  then have "length (enemies (UpdateEnemies dt pos roll b s)) \<le> length ?al"
    by (simp only: survivors_length)
  ultimately show ?thesis by simp
qed

lemma UpdateEnemies_new_enemy:
  assumes new: "enemyId \<in> fst ` set (enemies (UpdateEnemies dt pos roll b s))"
    and old: "enemyId \<notin> fst ` set (enemies s)"
  shows "enemySpawnTimer s + dt \<ge> enemySpawnInterval s \<and> length (enemies s) < dynamicMaxEnemies s
         \<and> enemyId = nextEnemyId s"
proof (cases "enemySpawnTimer s + dt \<ge> enemySpawnInterval s
    \<and> length (enemies s) < dynamicMaxEnemies s")
  case False
  then have "enemies (UpdateEnemies dt pos roll b s)
      = filter (\<lambda>(enemyId, enemy). \<not> IsDead enemy)
          (map (\<lambda>(enemyId, enemy).
                  (enemyId, (b enemyId enemy)\<lparr>currentHealth := currentHealth enemy,
                                              enemy_maxHealth := enemy_maxHealth enemy\<rparr>))
             (enemies s))"
    by (simp only: UpdateEnemies_enemies False if_False)
  then have "fst ` set (enemies (UpdateEnemies dt pos roll b s)) \<subseteq> fst ` set (enemies s)"
    by (simp only: survivors_keys)
  with new old show ?thesis by blast
next
  case True
  let ?al = "AList.update (nextEnemyId s) (EnemyTank_new (GetRandomEnemyType roll) pos) (enemies s)"
  from True have "enemies (UpdateEnemies dt pos roll b s)
      = filter (\<lambda>(enemyId, enemy). \<not> IsDead enemy)
          (map (\<lambda>(enemyId, enemy).
                  (enemyId, (b enemyId enemy)\<lparr>currentHealth := currentHealth enemy,
                                              enemy_maxHealth := enemy_maxHealth enemy\<rparr>))
             ?al)"
    by (simp only: UpdateEnemies_enemies True if_True simp_thms)
  then have "fst ` set (enemies (UpdateEnemies dt pos roll b s)) \<subseteq> fst ` set ?al"
    by (simp only: survivors_keys)
  with new have "enemyId \<in> fst ` set ?al" by blast
  with old have "enemyId = nextEnemyId s" by (simp add: dom_update)
  with True show ?thesis by simp
qed

text \<open>
  Claim C9 says that the enemy count is at most \<open>3\<cdot>I[players > 0] + players\<close> at every tick.
  The bound is only tested before a spawn, and nothing removes enemies when the number of
  active, living players falls. With one player and four enemies the bound (4) holds;
  the player dies, and after the next \<^verbatim>\<open>UpdateEnemies\<close> there are still four enemies while
  the bound is 0.
\<close>

theorem enemies_outlive_players:
  "length (enemies crowded_server) \<le> dynamicMaxEnemies crowded_server
   \<and> activePlayerCount crowded_next_tick = 0
   \<and> dynamicMaxEnemies crowded_next_tick = 0
   \<and> length (enemies crowded_next_tick) = 4
   \<and> \<not> length (enemies crowded_next_tick)
        \<le> 3 * (if activePlayerCount crowded_next_tick > 0 then 1 else 0)
           + activePlayerCount crowded_next_tick"
  by (simp add: crowded_next_tick_def crowded_after_death_def crowded_server_def
      CheckPlayerDeaths_def check_player_death_def HandlePlayerDeath_def BroadcastPlayerDeath_def
      broadcast_def send_def dying_client_def ClientInfo_new_def PlayerData_default_def
      GameServer_new_def red_enemy_def UpdateEnemies_def Let_def RemoveDeadEnemies_def
      dynamicMaxEnemies_def activePlayerCount_def IsDead_def DEATH_PENALTY_def)

text \<open>
  Claim C9, amended. A tick adds an enemy only when the spawn timer has reached the spawn
  interval (5 seconds on a new server) and the enemy count is strictly less than
  \<open>3\<cdot>I[players > 0] + players\<close>, players counted as active, living clients; it adds at
  most that one enemy and removes the dead ones. So the count after a tick is at most the
  larger of the count before and the bound, and a count within the bound stays within it
  as long as the number of active, living players does not fall.
\<close>

theorem UpdateEnemies_spawn_gate:
  "(\<forall>enemyId \<in> fst ` set (enemies (UpdateEnemies dt pos roll b s)).
       enemyId \<notin> fst ` set (enemies s) \<longrightarrow>
         enemySpawnTimer s + dt \<ge> enemySpawnInterval s
         \<and> length (enemies s) < dynamicMaxEnemies s \<and> enemyId = nextEnemyId s)
   \<and> length (enemies (UpdateEnemies dt pos roll b s))
        \<le> max (length (enemies s)) (dynamicMaxEnemies s)
   \<and> (length (enemies s) \<le> dynamicMaxEnemies s \<longrightarrow>
        length (enemies (UpdateEnemies dt pos roll b s))
          \<le> dynamicMaxEnemies (UpdateEnemies dt pos roll b s))
   \<and> dynamicMaxEnemies s = 3 * (if activePlayerCount s > 0 then 1 else 0) + activePlayerCount s
   \<and> enemySpawnInterval GameServer_new = 5"
proof (intro conjI ballI impI)
  fix enemyId
  assume "enemyId \<in> fst ` set (enemies (UpdateEnemies dt pos roll b s))"
    and "enemyId \<notin> fst ` set (enemies s)"
  then show "enemySpawnTimer s + dt \<ge> enemySpawnInterval s"
    and "length (enemies s) < dynamicMaxEnemies s" and "enemyId = nextEnemyId s"
    using UpdateEnemies_new_enemy [of enemyId dt pos roll b s] by simp_all
next
  show "length (enemies (UpdateEnemies dt pos roll b s))
        \<le> max (length (enemies s)) (dynamicMaxEnemies s)"
    by (rule UpdateEnemies_count)
next
  assume "length (enemies s) \<le> dynamicMaxEnemies s"
  with UpdateEnemies_count [of dt pos roll b s]
  show "length (enemies (UpdateEnemies dt pos roll b s))
          \<le> dynamicMaxEnemies (UpdateEnemies dt pos roll b s)"
    by (simp only: dynamicMaxEnemies_UpdateEnemies)
next
  show "dynamicMaxEnemies s = 3 * (if activePlayerCount s > 0 then 1 else 0) + activePlayerCount s"
    by (simp only: dynamicMaxEnemies_def)
next
  show "enemySpawnInterval GameServer_new = 5"
    by (simp add: GameServer_new_def)
qed

definition lonely_server :: GameServer where
  "lonely_server =
     GameServer_new\<lparr>clients := [(1, ClientInfo_new 10 20)], nextPlayerId := 2,
                    enemySpawnTimer := 5\<rparr>"

theorem UpdateEnemies_spawn_gate_witness:
  "fst ` set (enemies lonely_server) = {}
   \<and> fst ` set (enemies (UpdateEnemies (1 / 60) (100, 100) 1 (\<lambda>enemyId enemy. enemy) lonely_server))
       = {1000}
   \<and> enemySpawnTimer lonely_server + 1 / 60 \<ge> enemySpawnInterval lonely_server
   \<and> length (enemies lonely_server) < dynamicMaxEnemies lonely_server
   \<and> length (enemies (UpdateEnemies (1 / 60) (100, 100) 1 (\<lambda>enemyId enemy. enemy) lonely_server)) \<le> 4"
  using UpdateEnemies_spawn_gate [of "1 / 60" "(100, 100)" 1 "\<lambda>enemyId enemy. enemy" lonely_server]
  by (simp add: lonely_server_def GameServer_new_def ClientInfo_new_def UpdateEnemies_enemies
      dynamicMaxEnemies_def activePlayerCount_def EnemyTank_new_def GetRandomEnemyType_def
      InitializeStats_def InitializeShootingParameters_def IsDead_def)

section \<open>Interpolation buffer (\<^verbatim>\<open>entity_interpolation.cpp\<close>)\<close>

text \<open>
  A snapshot of a remote entity. Timestamps are \<^verbatim>\<open>int64_t\<close> milliseconds of the server
  clock; their differences are far from the 64-bit range and are taken in \<open>int\<close>. Angles
  (\<^verbatim>\<open>sf::Angle\<close>) are kept in degrees.
\<close>

record EntitySnapshot =
  timestamp :: int
  snap_position :: "real \<times> real"
  snap_bodyRotation :: real
  snap_barrelRotation :: real
  snap_isMoving_forward :: bool
  snap_isMoving_backward :: bool
  snap_isMoving_left :: bool
  snap_isMoving_right :: bool
  velocity :: "real \<times> real"
  angularVelocity :: real

text \<open>
  \<^verbatim>\<open>while (angleDiff > 180.0f) angleDiff -= 360.0f;\<close> and
  \<^verbatim>\<open>while (angleDiff < -180.0f) angleDiff += 360.0f;\<close>
\<close>

function lower_angle :: "real \<Rightarrow> real" where
  "lower_angle d = (if d > 180 then lower_angle (d - 360) else d)"
  by pat_completeness auto
termination
proof (relation "measure (\<lambda>d. nat \<lceil>(d - 180) / 360\<rceil>)")
  show "wf (measure (\<lambda>d::real. nat \<lceil>(d - 180) / 360\<rceil>))" by simp
next
  fix d :: real
  assume big: "180 < d"
  have "\<lceil>(d - 360 - 180) / 360\<rceil> = \<lceil>(d - 180) / 360 - 1\<rceil>"
    by (rule arg_cong [where f = ceiling]) (simp add: field_simps)
  also have "\<dots> = \<lceil>(d - 180) / 360\<rceil> - 1" by (rule ceiling_diff_one)
  finally have step: "\<lceil>(d - 360 - 180) / 360\<rceil> = \<lceil>(d - 180) / 360\<rceil> - 1" .
  from big have "0 < \<lceil>(d - 180) / 360\<rceil>" by (simp add: ceiling_less_iff)
  with step have "nat \<lceil>(d - 360 - 180) / 360\<rceil> < nat \<lceil>(d - 180) / 360\<rceil>" by linarith
  then show "(d - 360, d) \<in> measure (\<lambda>d. nat \<lceil>(d - 180) / 360\<rceil>)"
    by (simp only: in_measure)
qed

function raise_angle :: "real \<Rightarrow> real" where
  "raise_angle d = (if d < - 180 then raise_angle (d + 360) else d)"
  by pat_completeness auto
termination
proof (relation "measure (\<lambda>d. nat \<lceil>(- 180 - d) / 360\<rceil>)")
  show "wf (measure (\<lambda>d::real. nat \<lceil>(- 180 - d) / 360\<rceil>))" by simp
next
  fix d :: real
  assume small: "d < - 180"
  have "\<lceil>(- 180 - (d + 360)) / 360\<rceil> = \<lceil>(- 180 - d) / 360 - 1\<rceil>"
    by (rule arg_cong [where f = ceiling]) (simp add: field_simps)
  also have "\<dots> = \<lceil>(- 180 - d) / 360\<rceil> - 1" by (rule ceiling_diff_one)
  finally have step: "\<lceil>(- 180 - (d + 360)) / 360\<rceil> = \<lceil>(- 180 - d) / 360\<rceil> - 1" .
  from small have "0 < \<lceil>(- 180 - d) / 360\<rceil>" by (simp add: ceiling_less_iff)
  with step have "nat \<lceil>(- 180 - (d + 360)) / 360\<rceil> < nat \<lceil>(- 180 - d) / 360\<rceil>" by linarith
  then show "(d + 360, d) \<in> measure (\<lambda>d. nat \<lceil>(- 180 - d) / 360\<rceil>)"
    by (simp only: in_measure)
qed

declare lower_angle.simps [simp del] raise_angle.simps [simp del]

definition CalculateVelocity :: "EntitySnapshot \<Rightarrow> EntitySnapshot \<Rightarrow> real \<times> real" where
  "CalculateVelocity older newer =
     (if timestamp newer \<le> timestamp older then (0, 0)
      else
        let timeDiffSeconds = real_of_int (timestamp newer - timestamp older) / 1000
        in if timeDiffSeconds > 0.3 then (0, 0)
           else if timeDiffSeconds < 0.001 then (0, 0)
           else
             let vx = (fst (snap_position newer) - fst (snap_position older)) / timeDiffSeconds;
                 vy = (snd (snap_position newer) - snd (snap_position older)) / timeDiffSeconds;
                 velocityMagnitude = sqrt (vx * vx + vy * vy)
             in if velocityMagnitude > 500
                then (vx * (500 / velocityMagnitude), vy * (500 / velocityMagnitude))
                else (vx, vy))"

definition CalculateAngularVelocity :: "EntitySnapshot \<Rightarrow> EntitySnapshot \<Rightarrow> real" where
  "CalculateAngularVelocity older newer =
     (if timestamp newer \<le> timestamp older then 0
      else
        let timeDiffSeconds = real_of_int (timestamp newer - timestamp older) / 1000
        in if timeDiffSeconds > 0.3 \<or> timeDiffSeconds < 0.001 then 0
           else
             let angleDiff = raise_angle (lower_angle (snap_bodyRotation newer - snap_bodyRotation older));
                 w = angleDiff / timeDiffSeconds
             in max (- 1080) (min 1080 w))"

text \<open>
  The buffer: the deque of snapshots and the cached search index. (The three fields that
  cache the last extrapolation are not touched by the functions below.)
\<close>

record EntityInterpolationBuffer =
  snapshots :: "EntitySnapshot list"
  cachedSearchIdx :: nat

definition EntityInterpolationBuffer_new :: EntityInterpolationBuffer where
  "EntityInterpolationBuffer_new = \<lparr>snapshots = [], cachedSearchIdx = 0\<rparr>"

definition MAX_BUFFER_SIZE :: nat where "MAX_BUFFER_SIZE = 64"
definition INTERPOLATION_DELAY_MS :: int where "INTERPOLATION_DELAY_MS = 100"

text \<open>
  \<^verbatim>\<open>std::lower_bound\<close> with the comparison \<^verbatim>\<open>a.timestamp < b.timestamp\<close>: the index of the
  first snapshot whose timestamp is not less than \<open>t\<close>, on a deque ordered by timestamp
  (which the deque is, see \<open>AddSnapshot_sorted\<close>).
\<close>

definition lower_bound :: "EntitySnapshot list \<Rightarrow> int \<Rightarrow> nat" where
  "lower_bound xs t = length (takeWhile (\<lambda>a. timestamp a < t) xs)"

text \<open>\<^verbatim>\<open>while (snapshots.size() > MAX_BUFFER_SIZE) { pop_front(); ... }\<close>\<close>

function enforce_max_size :: "EntityInterpolationBuffer \<Rightarrow> EntityInterpolationBuffer" where
  "enforce_max_size buf =
     (if length (snapshots buf) > MAX_BUFFER_SIZE
      then enforce_max_size
             (buf\<lparr>snapshots := tl (snapshots buf),
                  cachedSearchIdx := (if cachedSearchIdx buf > 0 then cachedSearchIdx buf - 1
                                      else cachedSearchIdx buf)\<rparr>)
      else buf)"
  by pat_completeness auto
termination
  by (relation "measure (\<lambda>buf. length (snapshots buf))") (auto simp: MAX_BUFFER_SIZE_def)

declare enforce_max_size.simps [simp del]

text \<open>
  \<^verbatim>\<open>AddSnapshot\<close> in its three steps: compute the velocities against the chronologically
  previous snapshot, insert in chronological order, enforce the maximum size.
\<close>

definition with_velocity :: "EntitySnapshot list \<Rightarrow> EntitySnapshot \<Rightarrow> EntitySnapshot" where
  "with_velocity xs snapshot =
     (if xs \<noteq> [] then
        let it = lower_bound xs (timestamp snapshot)
        in if it \<noteq> 0
           then snapshot\<lparr>velocity := CalculateVelocity (xs ! (it - 1)) snapshot,
                         angularVelocity := CalculateAngularVelocity (xs ! (it - 1)) snapshot\<rparr>
           else snapshot\<lparr>velocity := (0, 0), angularVelocity := 0\<rparr>
      else snapshot\<lparr>velocity := (0, 0), angularVelocity := 0\<rparr>)"

definition insert_chronological :: "EntitySnapshot list \<Rightarrow> EntitySnapshot \<Rightarrow> EntitySnapshot list" where
  "insert_chronological xs snapshotWithVelocity =
     (if xs = [] \<or> timestamp snapshotWithVelocity \<ge> timestamp (last xs)
      then xs @ [snapshotWithVelocity]
      else
        let it = lower_bound xs (timestamp snapshotWithVelocity)
        in if it \<noteq> length xs \<and> timestamp (xs ! it) = timestamp snapshotWithVelocity
           then xs[it := snapshotWithVelocity]
           else take it xs @ [snapshotWithVelocity] @ drop it xs)"

definition AddSnapshot :: "EntitySnapshot \<Rightarrow> EntityInterpolationBuffer \<Rightarrow> EntityInterpolationBuffer" where
  "AddSnapshot snapshot buf =
     enforce_max_size
       (buf\<lparr>snapshots := insert_chronological (snapshots buf)
                             (with_velocity (snapshots buf) snapshot)\<rparr>)"

text \<open>
  \<^verbatim>\<open>CleanupOldSnapshots\<close>: drop from the front while more than two snapshots remain and
  the oldest is older than the render time minus twice the interpolation delay.
\<close>

function drop_old :: "int \<Rightarrow> EntityInterpolationBuffer \<Rightarrow> EntityInterpolationBuffer" where
  "drop_old cutoffTime buf =
     (if length (snapshots buf) > 2 \<and> timestamp (hd (snapshots buf)) < cutoffTime
      then drop_old cutoffTime
             (buf\<lparr>snapshots := tl (snapshots buf),
                  cachedSearchIdx := (if cachedSearchIdx buf > 0 then cachedSearchIdx buf - 1
                                      else cachedSearchIdx buf)\<rparr>)
      else buf)"
  by pat_completeness auto
termination
  by (relation "measure (\<lambda>(cutoffTime, buf). length (snapshots buf))") auto

declare drop_old.simps [simp del]

definition CleanupOldSnapshots :: "int \<Rightarrow> EntityInterpolationBuffer \<Rightarrow> EntityInterpolationBuffer" where
  "CleanupOldSnapshots currentRenderTime buf =
     drop_old (currentRenderTime - INTERPOLATION_DELAY_MS * 2) buf"

definition snapshot_at :: "int \<Rightarrow> real \<Rightarrow> EntitySnapshot" where
  "snapshot_at t px =
     \<lparr>timestamp = t, snap_position = (px, 0), snap_bodyRotation = 0, snap_barrelRotation = 0,
      snap_isMoving_forward = False, snap_isMoving_backward = False, snap_isMoving_left = False,
      snap_isMoving_right = False, velocity = (0, 0), angularVelocity = 0\<rparr>"


lemma snapshots_enforce_max_size:
  "snapshots (enforce_max_size buf)
     = drop (length (snapshots buf) - MAX_BUFFER_SIZE) (snapshots buf)"
proof (induction buf rule: enforce_max_size.induct)
  case (1 buf)
  show ?case
  proof (cases "length (snapshots buf) > MAX_BUFFER_SIZE")
    case False
    then show ?thesis by (subst enforce_max_size.simps) simp
  next
    case True
    then obtain a rest where xs: "snapshots buf = a # rest"
      by (cases "snapshots buf") auto
    from True xs have "length (snapshots buf) - MAX_BUFFER_SIZE = Suc (length rest - MAX_BUFFER_SIZE)"
      by simp
    with True xs 1 show ?thesis
      by (subst enforce_max_size.simps) simp
  qed
qed

lemma snapshots_drop_old:
  "\<exists>n. snapshots (drop_old cutoffTime buf) = drop n (snapshots buf)"
proof (induction cutoffTime buf rule: drop_old.induct)
  case (1 cutoffTime buf)
  show ?case
  proof (cases "length (snapshots buf) > 2 \<and> timestamp (hd (snapshots buf)) < cutoffTime")
    case False
    have "drop_old cutoffTime buf = buf"
      by (subst drop_old.simps) (simp only: False if_False)
    then have "snapshots (drop_old cutoffTime buf) = drop 0 (snapshots buf)" by simp
    then show ?thesis by blast
  next
    case True
    let ?b = "buf\<lparr>snapshots := tl (snapshots buf),
                  cachedSearchIdx := (if cachedSearchIdx buf > 0 then cachedSearchIdx buf - 1
                                      else cachedSearchIdx buf)\<rparr>"
    have eq: "drop_old cutoffTime buf = drop_old cutoffTime ?b"
      by (subst drop_old.simps) (simp only: True if_True simp_thms)
    from 1 [OF True] obtain n where "snapshots (drop_old cutoffTime ?b) = drop n (snapshots ?b)"
      by blast
    then have "snapshots (drop_old cutoffTime buf) = drop (Suc n) (snapshots buf)"
      by (simp add: eq drop_Suc)
    then show ?thesis by blast
  qed
qed

lemma AddSnapshot_size: "length (snapshots (AddSnapshot snapshot buf)) \<le> MAX_BUFFER_SIZE"
  by (simp add: AddSnapshot_def snapshots_enforce_max_size)

lemma CleanupOldSnapshots_size:
  "length (snapshots (CleanupOldSnapshots t buf)) \<le> length (snapshots buf)"
proof -
  obtain n where "snapshots (CleanupOldSnapshots t buf) = drop n (snapshots buf)"
    unfolding CleanupOldSnapshots_def using snapshots_drop_old by blast
  then show ?thesis by simp
qed

lemma sorted_insert_at_lower_bound:
  assumes "sorted (map timestamp xs)"
  shows "sorted (map timestamp (take (lower_bound xs t) xs @ [sv\<lparr>timestamp := t\<rparr>]
                                 @ drop (lower_bound xs t) xs))"
  using assms
proof (induction xs)
  case Nil
  then show ?case by (simp add: lower_bound_def)
next
  case (Cons a xs)
  show ?case
  proof (cases "timestamp a < t")
    case True
    from Cons.prems have sx: "sorted (map timestamp xs)" and le: "\<forall>b \<in> set xs. timestamp a \<le> timestamp b"
      by auto
    have "set (take (lower_bound xs t) xs) \<subseteq> set xs" "set (drop (lower_bound xs t) xs) \<subseteq> set xs"
      by (auto dest: in_set_takeD in_set_dropD)
    with le True Cons.IH [OF sx] show ?thesis
      by (auto simp: lower_bound_def)
  next
    case False
    with Cons.prems show ?thesis
      by (auto simp: lower_bound_def)
  qed
qed

lemma timestamp_with_velocity [simp]: "timestamp (with_velocity xs snapshot) = timestamp snapshot"
  by (simp add: with_velocity_def Let_def)

lemma sorted_last_max:
  assumes "sorted (map timestamp xs)" and "b \<in> set xs"
  shows "timestamp b \<le> timestamp (last xs)"
  using assms by (induction xs) (auto split: if_splits)

lemma insert_chronological_sorted:
  assumes "sorted (map timestamp xs)"
  shows "sorted (map timestamp (insert_chronological xs sv))"
proof (cases "xs = [] \<or> timestamp sv \<ge> timestamp (last xs)")
  case True
  have "timestamp b \<le> timestamp sv" if "b \<in> set xs" for b
  proof -
    from that have "xs \<noteq> []" by auto
    with True have "timestamp (last xs) \<le> timestamp sv" by simp
    with sorted_last_max [OF assms that] show ?thesis by simp
  qed
  moreover have "insert_chronological xs sv = xs @ [sv]"
    unfolding insert_chronological_def by (simp only: True if_True)
  ultimately show ?thesis using assms by (auto simp: sorted_append)
next
  case False
  let ?i = "lower_bound xs (timestamp sv)"
  show ?thesis
  proof (cases "?i \<noteq> length xs \<and> timestamp (xs ! ?i) = timestamp sv")
    case True
    have "?i \<le> length xs" by (simp add: lower_bound_def length_takeWhile_le)
    with True have "?i < length xs" by simp
    with True have same: "map timestamp (xs[?i := sv]) = map timestamp xs"
      by (simp add: map_update list_update_same_conv)
    have "insert_chronological xs sv = xs[?i := sv]"
      unfolding insert_chronological_def Let_def by (simp only: False True if_False if_True simp_thms)
    with same assms show ?thesis by simp
  next
    case nodup: False
    have "insert_chronological xs sv = take ?i xs @ [sv] @ drop ?i xs"
      unfolding insert_chronological_def Let_def by (simp only: False nodup if_False)
    moreover from sorted_insert_at_lower_bound [OF assms, of "timestamp sv" sv]
    have "sorted (map timestamp (take ?i xs @ [sv] @ drop ?i xs))" by simp
    ultimately show ?thesis by simp
  qed
qed

lemma AddSnapshot_sorted:
  assumes "sorted (map timestamp (snapshots buf))"
  shows "sorted (map timestamp (snapshots (AddSnapshot snapshot buf)))"
proof -
  let ?ys = "insert_chronological (snapshots buf) (with_velocity (snapshots buf) snapshot)"
  have "sorted (map timestamp ?ys)"
    using assms by (rule insert_chronological_sorted)
  then have "sorted (drop (length ?ys - MAX_BUFFER_SIZE) (map timestamp ?ys))"
    by (rule sorted_wrt_drop)
  then show ?thesis
    by (simp add: AddSnapshot_def snapshots_enforce_max_size drop_map)
qed

lemma CleanupOldSnapshots_sorted:
  assumes "sorted (map timestamp (snapshots buf))"
  shows "sorted (map timestamp (snapshots (CleanupOldSnapshots t buf)))"
proof -
  obtain n where n: "snapshots (CleanupOldSnapshots t buf) = drop n (snapshots buf)"
    unfolding CleanupOldSnapshots_def using snapshots_drop_old by blast
  from assms have "sorted (drop n (map timestamp (snapshots buf)))"
    by (rule sorted_wrt_drop)
  with n show ?thesis by (simp add: drop_map)
qed


datatype buffer_call = Add EntitySnapshot | Cleanup int

fun call :: "buffer_call \<Rightarrow> EntityInterpolationBuffer \<Rightarrow> EntityInterpolationBuffer" where
  "call (Add snapshot) buf = AddSnapshot snapshot buf"
| "call (Cleanup currentRenderTime) buf = CleanupOldSnapshots currentRenderTime buf"

lemma buffer_bounded_and_ordered:
  "length (snapshots (fold call calls EntityInterpolationBuffer_new)) \<le> MAX_BUFFER_SIZE
   \<and> sorted (map timestamp (snapshots (fold call calls EntityInterpolationBuffer_new)))"
proof -
  have "length (snapshots (fold call calls buf)) \<le> MAX_BUFFER_SIZE
        \<and> sorted (map timestamp (snapshots (fold call calls buf)))"
    if "length (snapshots buf) \<le> MAX_BUFFER_SIZE" and "sorted (map timestamp (snapshots buf))"
    for buf
    using that
  proof (induction calls arbitrary: buf)
    case Nil
    then show ?case by simp
  next
    case (Cons c calls)
    show ?case
    proof (cases c)
      case (Add snapshot)
      with Cons.prems Cons.IH [of "AddSnapshot snapshot buf"] show ?thesis
        by (simp add: AddSnapshot_size AddSnapshot_sorted)
    next
      case (Cleanup t)
      from CleanupOldSnapshots_size [of t buf] Cons.prems(1)
      have "length (snapshots (CleanupOldSnapshots t buf)) \<le> MAX_BUFFER_SIZE" by simp
      with Cleanup Cons.prems Cons.IH [of "CleanupOldSnapshots t buf"] show ?thesis
        by (simp add: CleanupOldSnapshots_sorted)
    qed
  qed
  then show ?thesis by (simp add: EntityInterpolationBuffer_new_def)
qed

lemma snap_position_with_velocity [simp]:
  "snap_position (with_velocity xs snapshot) = snap_position snapshot"
  by (simp add: with_velocity_def Let_def)

lemma snapshot_at_fields [simp]:
  "timestamp (snapshot_at t px) = t" "snap_position (snapshot_at t px) = (px, 0)"
  by (simp_all add: snapshot_at_def)

lemma AddSnapshot_snapshots:
  "snapshots (AddSnapshot snapshot buf)
     = drop (length (insert_chronological (snapshots buf) (with_velocity (snapshots buf) snapshot)) - 64)
         (insert_chronological (snapshots buf) (with_velocity (snapshots buf) snapshot))"
  by (simp add: AddSnapshot_def snapshots_enforce_max_size MAX_BUFFER_SIZE_def)

lemma first_added:
  "snapshots (AddSnapshot (snapshot_at 100 0) EntityInterpolationBuffer_new)
     = [with_velocity [] (snapshot_at 100 0)]"
  by (simp add: AddSnapshot_snapshots insert_chronological_def EntityInterpolationBuffer_new_def)

lemma duplicate_added:
  "snapshots (AddSnapshot (snapshot_at 100 5)
       (AddSnapshot (snapshot_at 100 0) EntityInterpolationBuffer_new))
     = [with_velocity [] (snapshot_at 100 0),
        with_velocity [with_velocity [] (snapshot_at 100 0)] (snapshot_at 100 5)]"
  by (subst AddSnapshot_snapshots, simp only: first_added) (simp add: insert_chronological_def)

lemma later_added:
  "snapshots (AddSnapshot (snapshot_at 200 10)
       (AddSnapshot (snapshot_at 100 0) EntityInterpolationBuffer_new))
     = [with_velocity [] (snapshot_at 100 0),
        with_velocity [with_velocity [] (snapshot_at 100 0)] (snapshot_at 200 10)]"
  by (subst AddSnapshot_snapshots, simp only: first_added) (simp add: insert_chronological_def)

lemma older_replaced:
  "snapshots (AddSnapshot (snapshot_at 100 5)
       (AddSnapshot (snapshot_at 200 10)
          (AddSnapshot (snapshot_at 100 0) EntityInterpolationBuffer_new)))
     = [with_velocity [with_velocity [] (snapshot_at 100 0),
           with_velocity [with_velocity [] (snapshot_at 100 0)] (snapshot_at 200 10)]
          (snapshot_at 100 5),
        with_velocity [with_velocity [] (snapshot_at 100 0)] (snapshot_at 200 10)]"
  by (subst AddSnapshot_snapshots, simp only: later_added)
    (simp add: insert_chronological_def lower_bound_def)

text \<open>
  Claim C6 says that the buffer is sorted strictly by timestamp and that a snapshot with
  the timestamp of an existing one replaces it. The size bound and the (non-strict) order
  hold (\<open>buffer_bounded_and_ordered\<close>), and a snapshot with the timestamp of an older entry
  does replace that entry; but the fast path \<^verbatim>\<open>timestamp >= snapshots.back().timestamp\<close>
  appends a snapshot whose timestamp equals the newest one, before the duplicate check of
  the other branch is reached. Two snapshots with timestamp 100 added to an empty buffer
  are both kept; with a snapshot at 200 in between, the second one replaces the first.
\<close>

theorem AddSnapshot_appends_duplicate_of_newest:
  "map timestamp (snapshots (AddSnapshot (snapshot_at 100 5)
       (AddSnapshot (snapshot_at 100 0) EntityInterpolationBuffer_new))) = [100, 100]
   \<and> map snap_position (snapshots (AddSnapshot (snapshot_at 100 5)
       (AddSnapshot (snapshot_at 100 0) EntityInterpolationBuffer_new))) = [(0, 0), (5, 0)]
   \<and> \<not> sorted_wrt (<) (map timestamp (snapshots (AddSnapshot (snapshot_at 100 5)
       (AddSnapshot (snapshot_at 100 0) EntityInterpolationBuffer_new))))
   \<and> map timestamp (snapshots (AddSnapshot (snapshot_at 100 5)
       (AddSnapshot (snapshot_at 200 10)
          (AddSnapshot (snapshot_at 100 0) EntityInterpolationBuffer_new)))) = [100, 200]
   \<and> map snap_position (snapshots (AddSnapshot (snapshot_at 100 5)
       (AddSnapshot (snapshot_at 200 10)
          (AddSnapshot (snapshot_at 100 0) EntityInterpolationBuffer_new)))) = [(5, 0), (10, 0)]"
  by (simp add: duplicate_added older_replaced)

section \<open>Client prediction and reconciliation (\<^verbatim>\<open>client_prediction.cpp\<close>, \<^verbatim>\<open>network_client.cpp\<close>)\<close>

text \<open>
  The local tank, as far as reconciliation reads and writes it. \<^verbatim>\<open>sf::Angle\<close> values are
  kept in degrees (the type does not wrap by itself).
\<close>

record Tank =
  tank_position :: "real \<times> real"
  tank_bodyRotation :: real
  tank_barrelRotation :: real

record InputState =
  sequenceNumber :: "32 word"
  input_timestamp :: int
  moveForward :: bool
  moveBackward :: bool
  turnLeft :: bool
  turnRight :: bool
  deltaTime :: real
  acknowledged :: bool
  sentTime :: int

record BufferedInput =
  input :: InputState
  needsReplay :: bool
  bufferTime :: int

text \<open>
  \<^verbatim>\<open>ClientPrediction::inputBuffer\<close>, the map from sequence number to buffered input. (The
  two history deques are not used by the functions below.)
\<close>

type_synonym inputBuffer = "(32 word \<times> BufferedInput) list"

definition MarkInputsForReplay :: "32 word \<Rightarrow> inputBuffer \<Rightarrow> inputBuffer" where
  "MarkInputsForReplay fromSequence buffer =
     map (\<lambda>(k, b). (k, if sequenceNumber (input b) \<ge> fromSequence then b\<lparr>needsReplay := True\<rparr> else b))
       buffer"

text \<open>The flagged inputs, sorted by sequence number (the keys of the map are distinct).\<close>

definition GetInputsToReplay :: "inputBuffer \<Rightarrow> InputState list" where
  "GetInputsToReplay buffer =
     sort_key sequenceNumber (map (\<lambda>(k, b). input b) (filter (\<lambda>(k, b). needsReplay b) buffer))"

definition ClearReplayFlags :: "inputBuffer \<Rightarrow> inputBuffer" where
  "ClearReplayFlags buffer = map (\<lambda>(k, b). (k, b\<lparr>needsReplay := False\<rparr>)) buffer"

text \<open>
  \<^verbatim>\<open>std::atan2\<close> on finite arguments, with the value 0 at the origin.
\<close>

definition atan2 :: "real \<Rightarrow> real \<Rightarrow> real" where
  "atan2 py px =
     (if px > 0 then arctan (py / px)
      else if px < 0 \<and> py \<ge> 0 then arctan (py / px) + pi
      else if px < 0 then arctan (py / px) - pi
      else if py > 0 then pi / 2
      else if py < 0 then - (pi / 2)
      else 0)"

text \<open>
  \<^verbatim>\<open>ApplyInputToTank\<close>. The test \<^verbatim>\<open>std::isfinite(deltaX) && std::isfinite(deltaY)\<close> holds
  for every real, so the barrel is always aimed at the mouse position.
\<close>

definition ApplyInputToTank :: "Tank \<Rightarrow> InputState \<Rightarrow> real \<times> real \<Rightarrow> Tank" where
  "ApplyInputToTank tank inp mousePos =
     (let t1 = (if turnLeft inp
                then tank\<lparr>tank_bodyRotation := tank_bodyRotation tank - ROTATION_SPEED * deltaTime inp\<rparr>
                else if turnRight inp
                then tank\<lparr>tank_bodyRotation := tank_bodyRotation tank + ROTATION_SPEED * deltaTime inp\<rparr>
                else tank);
          bodyRotDegrees = lower_rotation (raise_rotation (tank_bodyRotation t1));
          t2 = t1\<lparr>tank_bodyRotation := bodyRotDegrees\<rparr>;
          radians = bodyRotDegrees * 3.14159 / 180;
          direction = (cos radians, sin radians);
          t3 = (if moveForward inp
                then t2\<lparr>tank_position :=
                          (fst (tank_position t2) + fst direction * MOVEMENT_SPEED * deltaTime inp,
                           snd (tank_position t2) + snd direction * MOVEMENT_SPEED * deltaTime inp)\<rparr>
                else if moveBackward inp
                then t2\<lparr>tank_position :=
                          (fst (tank_position t2) - fst direction * MOVEMENT_SPEED * deltaTime inp,
                           snd (tank_position t2) - snd direction * MOVEMENT_SPEED * deltaTime inp)\<rparr>
                else t2);
          deltaX = fst mousePos - fst (tank_position t3);
          deltaY = snd mousePos - snd (tank_position t3);
          barrelAngle = atan2 deltaY deltaX * 180 / 3.14159
      in t3\<lparr>tank_barrelRotation := barrelAngle\<rparr>)"

text \<open>
  The fields of \<^verbatim>\<open>NetworkClient\<close> that reconciliation uses; \<open>inputBuffer\<close> is the buffer of
  its \<^verbatim>\<open>prediction\<close> object and \<open>lastAckedInputSeq\<close> its \<^verbatim>\<open>lastAcknowledgedInputSeq\<close>.
\<close>

record NetworkClient =
  isConnected :: bool
  localPlayerId :: "32 word"
  inputBuffer :: inputBuffer
  predictionEnabled :: bool
  serverAuthoritativePosition :: "real \<times> real"
  serverAuthoritativeBodyRotation :: real
  hasServerAuthoritativeState :: bool
  reconciliationTargetPosition :: "real \<times> real"
  reconciliationTargetRotation :: real
  isReconciling :: bool
  lastAckedInputSeq :: "32 word"

definition SMOOTH_CORRECTION_THRESHOLD :: real where "SMOOTH_CORRECTION_THRESHOLD = 30"
definition SNAP_CORRECTION_THRESHOLD :: real where "SNAP_CORRECTION_THRESHOLD = 50"
definition RECONCILIATION_RATE :: real where "RECONCILIATION_RATE = 6"

text \<open>
  \<^verbatim>\<open>ReplayInputsAfterCorrection\<close>. Its parameter \<^verbatim>\<open>fromSequence\<close> is not used by the body:
  the inputs replayed are the ones flagged \<^verbatim>\<open>needsReplay\<close>.
\<close>

definition ReplayInputsAfterCorrection ::
    "NetworkClient \<Rightarrow> Tank \<Rightarrow> 32 word \<Rightarrow> real \<times> real \<Rightarrow> NetworkClient \<times> Tank" where
  "ReplayInputsAfterCorrection c localPlayer fromSequence mousePos =
     (let inputsToReplay = GetInputsToReplay (inputBuffer c)
      in if inputsToReplay = [] then (c, localPlayer)
         else (c\<lparr>inputBuffer := ClearReplayFlags (inputBuffer c)\<rparr>,
               foldl (\<lambda>tank inp. ApplyInputToTank tank inp mousePos) localPlayer inputsToReplay))"

text \<open>
  One step of the smooth correction, the block that \<^verbatim>\<open>ApplyServerReconciliation\<close> runs
  (in two identical copies) while \<^verbatim>\<open>isReconciling\<close> is set and there is no fresh server
  state.
\<close>

definition continue_reconciliation :: "NetworkClient \<Rightarrow> Tank \<Rightarrow> NetworkClient \<times> Tank" where
  "continue_reconciliation c localPlayer =
     (let lerpFactor = RECONCILIATION_RATE * 0.016;
          currentPos = tank_position localPlayer;
          targetPos = reconciliationTargetPosition c;
          newPos = (fst currentPos + (fst targetPos - fst currentPos) * lerpFactor,
                    snd currentPos + (snd targetPos - snd currentPos) * lerpFactor);
          currentRot = tank_bodyRotation localPlayer;
          targetRot = reconciliationTargetRotation c;
          rotDiff0 = targetRot - currentRot;
          rotDiff1 = (if rotDiff0 > 180 then rotDiff0 - 360 else rotDiff0);
          rotDiff = (if rotDiff1 < - 180 then rotDiff1 + 360 else rotDiff1);
          t1 = localPlayer\<lparr>tank_position := newPos,
                            tank_bodyRotation := currentRot + rotDiff * lerpFactor\<rparr>;
          distToTarget = sqrt ((fst targetPos - fst newPos)\<^sup>2 + (snd targetPos - snd newPos)\<^sup>2)
      in (if distToTarget < 2 then c\<lparr>isReconciling := False\<rparr> else c, t1))"

definition ApplyServerReconciliation :: "NetworkClient \<Rightarrow> Tank \<Rightarrow> NetworkClient \<times> Tank" where
  "ApplyServerReconciliation c localPlayer =
     (if \<not> predictionEnabled c \<or> \<not> isConnected c \<or> localPlayerId c = 0 then
        (if isReconciling c then continue_reconciliation c localPlayer else (c, localPlayer))
      else if \<not> hasServerAuthoritativeState c then
        (if isReconciling c then continue_reconciliation c localPlayer else (c, localPlayer))
      else
        let serverPos = serverAuthoritativePosition c;
            serverRot = serverAuthoritativeBodyRotation c;
            errorX = fst (tank_position localPlayer) - fst serverPos;
            errorY = snd (tank_position localPlayer) - snd serverPos;
            error = sqrt (errorX * errorX + errorY * errorY)
        in if error < 5 then (c, localPlayer)
           else if error < SMOOTH_CORRECTION_THRESHOLD then
             (c\<lparr>reconciliationTargetPosition := serverPos,
                reconciliationTargetRotation := serverRot, isReconciling := True\<rparr>,
              localPlayer)
           else if error < SNAP_CORRECTION_THRESHOLD then
             (let halfway =
                    (fst (tank_position localPlayer)
                       + (fst serverPos - fst (tank_position localPlayer)) * 0.5,
                     snd (tank_position localPlayer)
                       + (snd serverPos - snd (tank_position localPlayer)) * 0.5)
              in (c\<lparr>reconciliationTargetPosition := serverPos,
                     reconciliationTargetRotation := serverRot, isReconciling := True,
                     inputBuffer := MarkInputsForReplay (lastAckedInputSeq c + 1) (inputBuffer c)\<rparr>,
                  localPlayer\<lparr>tank_position := halfway, tank_bodyRotation := serverRot\<rparr>))
           else
             (let t1 = localPlayer\<lparr>tank_position := serverPos, tank_bodyRotation := serverRot\<rparr>;
                  c1 = c\<lparr>isReconciling := False\<rparr>;
                  barrelDeg = tank_barrelRotation t1;
                  barrelRad = barrelDeg * 3.14159 / 180;
                  mouseDistance = 100;
                  mousePos = (fst (tank_position t1) + cos barrelRad * mouseDistance,
                              snd (tank_position t1) + sin barrelRad * mouseDistance)
              in ReplayInputsAfterCorrection c1 t1 (lastAckedInputSeq c + 1) mousePos))"


text \<open>
  The hard snap as claim C3 words it: snap to the server state, then replay every buffered
  (unacknowledged) input with a sequence number from \<open>last_acked_seq + 1\<close> onward, in order.
\<close>

definition unacknowledged_from :: "32 word \<Rightarrow> inputBuffer \<Rightarrow> InputState list" where
  "unacknowledged_from fromSequence buffer =
     sort_key sequenceNumber
       (map (\<lambda>(k, b). input b) (filter (\<lambda>(k, b). sequenceNumber (input b) \<ge> fromSequence) buffer))"

definition snap_and_replay_all :: "NetworkClient \<Rightarrow> Tank \<Rightarrow> Tank" where
  "snap_and_replay_all c localPlayer =
     (let t1 = localPlayer\<lparr>tank_position := serverAuthoritativePosition c,
                            tank_bodyRotation := serverAuthoritativeBodyRotation c\<rparr>;
          barrelRad = tank_barrelRotation t1 * 3.14159 / 180;
          mousePos = (fst (tank_position t1) + cos barrelRad * 100,
                      snd (tank_position t1) + sin barrelRad * 100)
      in foldl (\<lambda>tank inp. ApplyInputToTank tank inp mousePos) t1
           (unacknowledged_from (lastAckedInputSeq c + 1) (inputBuffer c)))"

definition forward_input :: "32 word \<Rightarrow> InputState" where
  "forward_input n =
     \<lparr>sequenceNumber = n, input_timestamp = 0, moveForward = True, moveBackward = False,
      turnLeft = False, turnRight = False, deltaTime = 1 / 60, acknowledged = False,
      sentTime = 0\<rparr>"

definition predicted_tank :: Tank where
  "predicted_tank = \<lparr>tank_position = (700, 480), tank_bodyRotation = 0, tank_barrelRotation = 0\<rparr>"

text \<open>
  Scenario 5 of the specification: predicted at \<open>(700, 480)\<close>, server at \<open>(600, 480)\<close>,
  input 42 acknowledged, inputs 43 and 44 buffered and never flagged for replay.
\<close>

definition lagging_client :: NetworkClient where
  "lagging_client =
     \<lparr>isConnected = True, localPlayerId = 1,
      inputBuffer = [(43, \<lparr>input = forward_input 43, needsReplay = False, bufferTime = 0\<rparr>),
                     (44, \<lparr>input = forward_input 44, needsReplay = False, bufferTime = 0\<rparr>)],
      predictionEnabled = True, serverAuthoritativePosition = (600, 480),
      serverAuthoritativeBodyRotation = 0, hasServerAuthoritativeState = True,
      reconciliationTargetPosition = (0, 0), reconciliationTargetRotation = 0,
      isReconciling = False, lastAckedInputSeq = 42\<rparr>"

text \<open>
  The same, with the server body rotation at 90 degrees and input 43 flagged by an
  earlier medium correction.
\<close>

definition flagged_client :: NetworkClient where
  "flagged_client =
     lagging_client
       \<lparr>inputBuffer := [(43, \<lparr>input = forward_input 43, needsReplay = True, bufferTime = 0\<rparr>)],
        serverAuthoritativeBodyRotation := 90\<rparr>"


lemma sqrt_10000: "sqrt 10000 = 100"
  by (rule real_sqrt_unique) simp_all

lemma ApplyInputToTank_forward_east:
  assumes "moveForward inp" "\<not> turnLeft inp" "\<not> turnRight inp" "tank_bodyRotation tank = 0"
    and "snd mousePos = snd (tank_position tank)"
    and "fst (tank_position tank) + 150 * deltaTime inp < fst mousePos"
  shows "ApplyInputToTank tank inp mousePos
           = tank\<lparr>tank_position := (fst (tank_position tank) + 150 * deltaTime inp,
                                       snd (tank_position tank)),
                   tank_barrelRotation := 0\<rparr>"
  using assms
  by (simp add: ApplyInputToTank_def Let_def normalise_loops MOVEMENT_SPEED_def atan2_def)

lemma lagging_snap:
  "ApplyServerReconciliation lagging_client predicted_tank
     = (lagging_client, \<lparr>tank_position = (600, 480), tank_bodyRotation = 0, tank_barrelRotation = 0\<rparr>)"
  by (simp add: ApplyServerReconciliation_def lagging_client_def predicted_tank_def Let_def
      sqrt_10000 SMOOTH_CORRECTION_THRESHOLD_def SNAP_CORRECTION_THRESHOLD_def
      ReplayInputsAfterCorrection_def GetInputsToReplay_def)

lemma lagging_unacknowledged:
  "unacknowledged_from 43 (inputBuffer lagging_client) = [forward_input 43, forward_input 44]"
  by (simp add: unacknowledged_from_def lagging_client_def forward_input_def)

lemma lagging_replay_all:
  "snap_and_replay_all lagging_client predicted_tank
     = \<lparr>tank_position = (605, 480), tank_bodyRotation = 0, tank_barrelRotation = 0\<rparr>"
proof -
  have l: "lastAckedInputSeq lagging_client + 1 = 43"
    by (simp add: lagging_client_def)
  have f: "moveForward (forward_input n)" "\<not> turnLeft (forward_input n)"
    "\<not> turnRight (forward_input n)" "deltaTime (forward_input n) = 1 / 60" for n
    by (simp_all add: forward_input_def)
  show ?thesis
    unfolding snap_and_replay_all_def l lagging_unacknowledged
    by (simp add: Let_def lagging_client_def predicted_tank_def ApplyInputToTank_forward_east f)
qed


lemma flagged_replay:
  "ApplyServerReconciliation flagged_client predicted_tank
     = (flagged_client\<lparr>inputBuffer := ClearReplayFlags (inputBuffer flagged_client)\<rparr>,
        ApplyInputToTank
          \<lparr>tank_position = (600, 480), tank_bodyRotation = 90, tank_barrelRotation = 0\<rparr>
          (forward_input 43) (700, 480))"
  by (simp add: ApplyServerReconciliation_def flagged_client_def lagging_client_def
      predicted_tank_def Let_def sqrt_10000 SMOOTH_CORRECTION_THRESHOLD_def
      SNAP_CORRECTION_THRESHOLD_def ReplayInputsAfterCorrection_def GetInputsToReplay_def)

lemma barrel_after_northward_move:
  "tank_barrelRotation
     (ApplyInputToTank
        \<lparr>tank_position = (600, 480), tank_bodyRotation = 90, tank_barrelRotation = 0\<rparr>
        (forward_input 43) (700, 480)) < 0"
proof -
  let ?r = "90 * 3.14159 / 180 :: real"
  have "0 < ?r" by simp
  moreover have "?r < pi" using pi_ge_two by simp
  ultimately have s: "0 < sin ?r" by (rule sin_gt_zero)
  have c: "cos ?r < 40" by (rule le_less_trans [OF cos_le_one]) simp
  let ?dx = "700 - (600 + cos ?r * 150 * (1 / 60))"
  let ?dy = "480 - (480 + sin ?r * 150 * (1 / 60))"
  from c have dx: "0 < ?dx" by simp
  from s have dy: "?dy < 0" by simp
  from dx dy have "?dy / ?dx < 0" by (simp add: divide_neg_pos)
  then have "arctan (?dy / ?dx) < 0" by (simp only: arctan_less_zero_iff)
  with dx have "atan2 ?dy ?dx < 0" by (simp add: atan2_def)
  then have "atan2 ?dy ?dx * 180 / 3.14159 < 0" by (simp add: field_simps)
  moreover have "tank_barrelRotation
     (ApplyInputToTank
        \<lparr>tank_position = (600, 480), tank_bodyRotation = 90, tank_barrelRotation = 0\<rparr>
        (forward_input 43) (700, 480)) = atan2 ?dy ?dx * 180 / 3.14159"
    by (simp add: ApplyInputToTank_def Let_def forward_input_def normalise_loops
        MOVEMENT_SPEED_def)
  ultimately show ?thesis by (simp only:)
qed

lemma continue_reconciliation_barrel:
  "tank_barrelRotation (snd (continue_reconciliation c tank)) = tank_barrelRotation tank"
  by (simp add: continue_reconciliation_def Let_def)

lemma MarkInputsForReplay_marks:
  "GetInputsToReplay (MarkInputsForReplay n buffer)
     = sort_key sequenceNumber
         (map (\<lambda>(k, b). input b)
            (filter (\<lambda>(k, b). needsReplay b \<or> sequenceNumber (input b) \<ge> n) buffer))"
proof -
  have "map (\<lambda>(k, b). input b) (filter (\<lambda>(k, b). needsReplay b) (MarkInputsForReplay n buffer))
      = map (\<lambda>(k, b). input b)
          (filter (\<lambda>(k, b). needsReplay b \<or> sequenceNumber (input b) \<ge> n) buffer)"
    by (induction buffer) (auto simp: MarkInputsForReplay_def split: if_splits)
  then show ?thesis by (simp only: GetInputsToReplay_def)
qed

text \<open>
  What holds of the tiers of claim C3, for a connected client with prediction enabled and
  a server state at hand: below 5 units nothing changes; from 5 to below 30 only the
  correction target is set; from 30 to below 50 the tank moves halfway, takes the server's
  body rotation, keeps its barrel, and every buffered input from \<open>last_acked_seq + 1\<close> on
  is flagged. The correction step moves the tank by the fraction \<open>6 \<cdot> 0.016\<close> of the way
  to the target, keeps the barrel and stops once the tank is within 2 units.
\<close>

lemma reconciliation_tiers:
  fixes c :: NetworkClient and tank :: Tank
  assumes "predictionEnabled c" "isConnected c" "localPlayerId c \<noteq> 0" "hasServerAuthoritativeState c"
  defines "err \<equiv> sqrt ((fst (tank_position tank) - fst (serverAuthoritativePosition c))
                        * (fst (tank_position tank) - fst (serverAuthoritativePosition c))
                      + (snd (tank_position tank) - snd (serverAuthoritativePosition c))
                        * (snd (tank_position tank) - snd (serverAuthoritativePosition c)))"
  shows "err < 5 \<Longrightarrow> ApplyServerReconciliation c tank = (c, tank)"
    and "5 \<le> err \<Longrightarrow> err < 30 \<Longrightarrow>
           ApplyServerReconciliation c tank
             = (c\<lparr>reconciliationTargetPosition := serverAuthoritativePosition c,
                   reconciliationTargetRotation := serverAuthoritativeBodyRotation c,
                   isReconciling := True\<rparr>, tank)"
    and "30 \<le> err \<Longrightarrow> err < 50 \<Longrightarrow>
           snd (ApplyServerReconciliation c tank)
             = tank\<lparr>tank_position :=
                       (fst (tank_position tank)
                          + (fst (serverAuthoritativePosition c) - fst (tank_position tank)) * 0.5,
                        snd (tank_position tank)
                          + (snd (serverAuthoritativePosition c) - snd (tank_position tank)) * 0.5),
                     tank_bodyRotation := serverAuthoritativeBodyRotation c\<rparr>
           \<and> isReconciling (fst (ApplyServerReconciliation c tank))
           \<and> reconciliationTargetPosition (fst (ApplyServerReconciliation c tank))
               = serverAuthoritativePosition c
           \<and> inputBuffer (fst (ApplyServerReconciliation c tank))
               = MarkInputsForReplay (lastAckedInputSeq c + 1) (inputBuffer c)"
  using assms(1-4) unfolding err_def
  by (simp_all add: ApplyServerReconciliation_def Let_def SMOOTH_CORRECTION_THRESHOLD_def
      SNAP_CORRECTION_THRESHOLD_def)

text \<open>
  Claim C3 says that on an error of 50 units or more the client hard-snaps and replays all
  unacknowledged inputs from \<open>last_acked_seq + 1\<close> onward, and that no tier modifies the
  barrel rotation. The first three tiers are as claimed (\<open>reconciliation_tiers\<close>). In the
  fourth, \<^verbatim>\<open>ReplayInputsAfterCorrection\<close> ignores the sequence number it is given and
  replays only the inputs that an earlier medium correction flagged. In scenario 5 of the
  specification (error 100, input 42 acknowledged, inputs 43 and 44 buffered) the tank is
  left at the server position \<open>(600, 480)\<close>, where replaying 43 and 44 would take it to
  \<open>(605, 480)\<close>. And when a flagged input is replayed, \<^verbatim>\<open>ApplyInputToTank\<close> aims the
  barrel at a mouse position guessed from the old barrel angle: with the server body
  rotation at 90 degrees the barrel turns from 0 to a negative angle.
\<close>

theorem hard_snap_replays_flagged_inputs_only:
  "snd (ApplyServerReconciliation lagging_client predicted_tank)
     = \<lparr>tank_position = (600, 480), tank_bodyRotation = 0, tank_barrelRotation = 0\<rparr>
   \<and> map sequenceNumber
        (unacknowledged_from (lastAckedInputSeq lagging_client + 1) (inputBuffer lagging_client))
       = [43, 44]
   \<and> GetInputsToReplay (inputBuffer lagging_client) = []
   \<and> snap_and_replay_all lagging_client predicted_tank
       = \<lparr>tank_position = (605, 480), tank_bodyRotation = 0, tank_barrelRotation = 0\<rparr>
   \<and> tank_barrelRotation predicted_tank = 0
   \<and> tank_barrelRotation (snd (ApplyServerReconciliation flagged_client predicted_tank)) < 0"
proof -
  have "lastAckedInputSeq lagging_client + 1 = 43"
    by (simp add: lagging_client_def)
  then have "map sequenceNumber
        (unacknowledged_from (lastAckedInputSeq lagging_client + 1) (inputBuffer lagging_client))
       = [43, 44]"
    by (simp add: lagging_unacknowledged forward_input_def)
  moreover have "GetInputsToReplay (inputBuffer lagging_client) = []"
    by (simp add: GetInputsToReplay_def lagging_client_def)
  moreover have "tank_barrelRotation predicted_tank = 0"
    by (simp add: predicted_tank_def)
  moreover note barrel_after_northward_move lagging_replay_all
  ultimately show ?thesis
    by (simp add: lagging_snap flagged_replay)
qed

theorem hard_snap_replays_flagged_inputs_only_witness:
  "predictionEnabled lagging_client \<and> isConnected lagging_client
   \<and> localPlayerId lagging_client = 1 \<and> hasServerAuthoritativeState lagging_client
   \<and> tank_position (snd (ApplyServerReconciliation lagging_client predicted_tank)) = (600, 480)
   \<and> tank_position (snap_and_replay_all lagging_client predicted_tank) = (605, 480)"
proof -
  note snap = hard_snap_replays_flagged_inputs_only
  have "tank_position (snd (ApplyServerReconciliation lagging_client predicted_tank)) = (600, 480)"
    using snap by simp
  moreover have "tank_position (snap_and_replay_all lagging_client predicted_tank) = (605, 480)"
    using snap by simp
  ultimately show ?thesis
    by (simp add: lagging_client_def)
qed

end
